theory Spec2Isabelle
  imports Main
begin

section \<open>Values, requests and the platform\<close>

text \<open>
  The models of \<^verbatim>\<open>lib/proxmox.ts\<close> and \<^verbatim>\<open>proxmox_vm.ts\<close> consume the hypervisor's JSON
  without a schema, so the embedding keeps JavaScript values as they are: property access on
  \<^verbatim>\<open>null\<close> or \<^verbatim>\<open>undefined\<close> throws, a missing property is \<^verbatim>\<open>undefined\<close>, and \<^verbatim>\<open>||\<close> and
  \<^verbatim>\<open>if (x)\<close> test truthiness. Numbers are integers (\<open>JNaN\<close> stands for \<^verbatim>\<open>NaN\<close>); fractional
  numbers are outside the model. An object is an association list whose first binding of a key
  is the property's value. \<open>JTpl\<close> is a string built by a template literal, kept as the
  literal's text with \<open>{}\<close> holes and the values interpolated into it, unrendered; the
  leading digit that \<^verbatim>\<open>parseInt\<close> reads off a number in exponent notation is kept the same
  way.
\<close>

datatype jsval =
    JUndefined
  | JNull
  | JBool bool
  | JNum int
  | JNaN
  | JStr string
  | JArr "jsval list"
  | JObj "(string \<times> jsval) list"
  | JTpl string "jsval list"

text \<open>
  A template literal is kept as its text with \<open>{}\<close> holes and the values interpolated into
  it, in order; rendering to a string is not modelled. URLs, header values, form fields, log
  lines and error messages are all of this shape.
\<close>

datatype tstring = Tpl string "jsval list"

datatype error =
    Error tstring
  | TypeError
  | SyntaxError

definition truthy :: "jsval \<Rightarrow> bool" where
  "truthy v =
     (case v of
        JUndefined \<Rightarrow> False
      | JNull \<Rightarrow> False
      | JBool b \<Rightarrow> b
      | JNum n \<Rightarrow> n \<noteq> 0
      | JNaN \<Rightarrow> False
      | JStr s \<Rightarrow> s \<noteq> []
      | JArr xs \<Rightarrow> True
      | JObj kvs \<Rightarrow> True
      | JTpl t vs \<Rightarrow> True)"

text \<open>\<^verbatim>\<open>v.k\<close>: a TypeError on \<^verbatim>\<open>null\<close> and \<^verbatim>\<open>undefined\<close>. None of the properties the
  source reads is a built-in of strings, numbers, booleans or arrays, so on those the result
  is \<^verbatim>\<open>undefined\<close>.\<close>

definition getprop :: "jsval \<Rightarrow> string \<Rightarrow> error + jsval" where
  "getprop v k =
     (case v of
        JUndefined \<Rightarrow> Inl TypeError
      | JNull \<Rightarrow> Inl TypeError
      | JObj kvs \<Rightarrow> (case map_of kvs k of None \<Rightarrow> Inr JUndefined | Some x \<Rightarrow> Inr x)
      | _ \<Rightarrow> Inr JUndefined)"

text \<open>\<^verbatim>\<open>v?.k\<close>\<close>

definition optprop :: "jsval \<Rightarrow> string \<Rightarrow> jsval" where
  "optprop v k = (case getprop v k of Inl e \<Rightarrow> JUndefined | Inr x \<Rightarrow> x)"

text \<open>\<^verbatim>\<open>for (const x of v)\<close>: arrays and strings are iterable, everything else throws.\<close>

definition iterate :: "jsval \<Rightarrow> error + jsval list" where
  "iterate v =
     (case v of
        JArr xs \<Rightarrow> Inr xs
      | JStr s \<Rightarrow> Inr (map (\<lambda>c. JStr [c]) s)
      | _ \<Rightarrow> Inl TypeError)"

text \<open>\<^verbatim>\<open>a ?? b\<close> on an optional argument.\<close>

definition nullish :: "'a option \<Rightarrow> 'a \<Rightarrow> 'a" where
  "nullish a b = (case a of None \<Rightarrow> b | Some x \<Rightarrow> x)"

record request =
  rq_method :: string
  rq_url :: tstring
  rq_headers :: "(string \<times> tstring) list"
  rq_body :: "(string \<times> tstring) list option"
  rq_skipTlsVerify :: bool

text \<open>
  What \<^verbatim>\<open>fetchWithCurl\<close> returns: the status parsed from curl's output, the status line, the
  body text, and what \<^verbatim>\<open>JSON.parse\<close> makes of the body (\<open>None\<close> when it throws). The parsing
  of curl's raw output lies below this boundary.
\<close>

record response =
  rs_status :: int
  rs_statusText :: string
  rs_text :: string
  rs_json :: "jsval option"

definition ok :: "response \<Rightarrow> bool" where
  "ok r = (200 \<le> rs_status r \<and> rs_status r < 300)"

text \<open>\<^verbatim>\<open>await response.json()\<close>\<close>

definition json :: "response \<Rightarrow> error + jsval" where
  "json r = (case rs_json r of None \<Rightarrow> Inl SyntaxError | Some v \<Rightarrow> Inr v)"

text \<open>\<^verbatim>\<open>(await response.json()).data\<close>\<close>

definition json_data :: "response \<Rightarrow> error + jsval" where
  "json_data r = (case json r of Inl e \<Rightarrow> Inl e | Inr v \<Rightarrow> getprop v ''data'')"

record dirent =
  de_name :: string
  de_isDirectory :: bool

record textfile =
  f_text :: string
  f_json :: "jsval option"

text \<open>
  The platform the code runs on, over a world \<open>'w\<close> that the model does not look into:
  running curl (a failure of the curl process is the \<open>Inl\<close> error \<^verbatim>\<open>fetchWithCurl\<close> throws),
  the clock, sleeping, reading the data directory, and \<^verbatim>\<open>new Date(text).getTime()\<close>
  (\<open>None\<close> for an invalid date).
\<close>

record 'w platform =
  curl :: "request \<Rightarrow> 'w \<Rightarrow> (error + response) \<times> 'w"
  date_now :: "'w \<Rightarrow> int"
  set_timeout :: "int \<Rightarrow> 'w \<Rightarrow> 'w"
  read_dir :: "tstring \<Rightarrow> 'w \<Rightarrow> dirent list option"
  read_text_file :: "tstring \<Rightarrow> 'w \<Rightarrow> textfile option"
  date_parse :: "string \<Rightarrow> int option"

text \<open>
  A resource version as \<^verbatim>\<open>context.writeResource(kind, name, data)\<close> receives it: the
  structured fields of \<open>data\<close> in the order of the object literal, its \<open>logs\<close> (the lines
  that \<^verbatim>\<open>logs.join("\n")\<close> joins) and its \<open>timestamp\<close> (milliseconds).
\<close>

record resource =
  r_kind :: string
  r_name :: jsval
  r_attrs :: "(string \<times> jsval) list"
  r_logs :: "tstring list"
  r_timestamp :: int

text \<open>
  The state a run threads: the world, every HTTP exchange made so far (the request and what
  came back, oldest first) and every resource version written so far. The store is append-only
  and a write returns its position as the handle.
\<close>

record 'w state =
  world :: 'w
  trace :: "(request \<times> (error + response)) list"
  written :: "resource list"

type_synonym ('w, 'a) prog = "'w state \<Rightarrow> ((error + 'a) \<times> 'w state) option"

definition ret :: "'a \<Rightarrow> ('w, 'a) prog" where
  "ret x = (\<lambda>s. Some (Inr x, s))"

definition throw :: "error \<Rightarrow> ('w, 'a) prog" where
  "throw e = (\<lambda>s. Some (Inl e, s))"

text \<open>Sequencing: an exception ends the run, a run that never returns stays \<open>None\<close>.\<close>

definition bind :: "('w, 'a) prog \<Rightarrow> ('a \<Rightarrow> ('w, 'b) prog) \<Rightarrow> ('w, 'b) prog" where
  "bind m f =
     (\<lambda>s. case m s of
             None \<Rightarrow> None
           | Some (Inl e, s') \<Rightarrow> Some (Inl e, s')
           | Some (Inr x, s') \<Rightarrow> f x s')"

text \<open>A pure step that may throw.\<close>

text \<open>\<^verbatim>\<open>try { m } catch (_e) { h }\<close>\<close>

definition catch :: "('w, 'a) prog \<Rightarrow> (error \<Rightarrow> ('w, 'a) prog) \<Rightarrow> ('w, 'a) prog" where
  "catch m h =
     (\<lambda>s. case m s of
             None \<Rightarrow> None
           | Some (Inl e, s') \<Rightarrow> h e s'
           | Some (Inr x, s') \<Rightarrow> Some (Inr x, s'))"

definition lift :: "error + 'a \<Rightarrow> ('w, 'a) prog" where
  "lift r = (\<lambda>s. Some (r, s))"

definition fetchWithCurl :: "'w platform \<Rightarrow> request \<Rightarrow> ('w, response) prog" where
  "fetchWithCurl P rq =
     (\<lambda>s. case curl P rq (world s) of
             (r, w') \<Rightarrow> Some (r, s\<lparr>world := w', trace := trace s @ [(rq, r)]\<rparr>))"

text \<open>\<^verbatim>\<open>await new Promise(r => setTimeout(r, ms))\<close>\<close>

definition sleep :: "'w platform \<Rightarrow> int \<Rightarrow> 'w state \<Rightarrow> 'w state" where
  "sleep P ms s = s\<lparr>world := set_timeout P ms (world s)\<rparr>"

definition writeResource ::
  "'w platform \<Rightarrow> string \<Rightarrow> jsval \<Rightarrow> (string \<times> jsval) list \<Rightarrow> tstring list \<Rightarrow> ('w, nat) prog" where
  "writeResource P kind name attrs logs =
     (\<lambda>s. Some (Inr (length (written s)),
                 s\<lparr>written := written s @
                    [\<lparr>r_kind = kind, r_name = name, r_attrs = attrs, r_logs = logs,
                      r_timestamp = date_now P (world s)\<rparr>]\<rparr>))"

section \<open>lib/proxmox.ts\<close>

definition authHeaders :: "jsval \<Rightarrow> jsval \<Rightarrow> (string \<times> tstring) list" where
  "authHeaders ticket csrfToken =
     [(''Cookie'', Tpl ''PVEAuthCookie={}'' [ticket]),
      (''CSRFPreventionToken'', Tpl ''{}'' [csrfToken])]"

definition taskStatusUrl :: "string \<Rightarrow> string \<Rightarrow> jsval \<Rightarrow> tstring" where
  "taskStatusUrl apiUrl node upid =
     Tpl ''{}/api2/json/nodes/{}/tasks/{encodeURIComponent}/status'' [JStr apiUrl, JStr node, upid]"

definition taskStatusRequest ::
  "string \<Rightarrow> string \<Rightarrow> jsval \<Rightarrow> jsval \<Rightarrow> jsval \<Rightarrow> bool \<Rightarrow> request" where
  "taskStatusRequest apiUrl node upid ticket csrfToken skipTlsVerify =
     \<lparr>rq_method = ''GET'',
      rq_url = taskStatusUrl apiUrl node upid,
      rq_headers =
        (''Cookie'', Tpl ''PVEAuthCookie={}'' [ticket]) #
        (if truthy csrfToken then [(''CSRFPreventionToken'', Tpl ''{}'' [csrfToken])] else []),
      rq_body = None,
      rq_skipTlsVerify = skipTlsVerify\<rparr>"

record taskResult =
  success :: bool
  exitstatus :: jsval
  pollCount :: nat

text \<open>The \<^verbatim>\<open>while (true)\<close> of \<^verbatim>\<open>waitForTask\<close>; \<open>n\<close> is \<open>pollCount\<close> on entry to the body.\<close>

partial_function (option) waitForTask_loop ::
  "'w platform \<Rightarrow> request \<Rightarrow> nat \<Rightarrow> 'w state \<Rightarrow> ((error + taskResult) \<times> 'w state) option" where
  "waitForTask_loop P rq n s =
     (case fetchWithCurl P rq s of
        None \<Rightarrow> None
      | Some (Inl e, s1) \<Rightarrow> Some (Inl e, s1)
      | Some (Inr response, s1) \<Rightarrow>
          if \<not> ok response
          then Some (Inl (Error (Tpl ''Task status check failed: {}'' [JNum (rs_status response)])), s1)
          else (case json response of
                  Inl e \<Rightarrow> Some (Inl e, s1)
                | Inr result \<Rightarrow>
                    (case getprop result ''data'' of
                       Inl e \<Rightarrow> Some (Inl e, s1)
                     | Inr d \<Rightarrow>
                         if optprop d ''status'' = JStr ''stopped''
                         then Some (Inr \<lparr>success = (optprop d ''exitstatus'' = JStr ''OK''),
                                         exitstatus = optprop d ''exitstatus'',
                                         pollCount = Suc n\<rparr>, s1)
                         else waitForTask_loop P rq (Suc n) (sleep P 1000 s1))))"

declare waitForTask_loop.simps [code]

definition waitForTask ::
  "'w platform \<Rightarrow> string \<Rightarrow> string \<Rightarrow> jsval \<Rightarrow> jsval \<Rightarrow> jsval \<Rightarrow> bool \<Rightarrow> ('w, taskResult) prog" where
  "waitForTask P apiUrl node upid ticket csrfToken skipTlsVerify =
     waitForTask_loop P (taskStatusRequest apiUrl node upid ticket csrfToken skipTlsVerify) 0"


definition AUTH_TTL_MS :: int where
  "AUTH_TTL_MS = 2 * 60 * 60 * 1000"

record globalArgs =
  g_apiUrl :: string
  g_node :: string
  g_ticket :: "string option"
  g_csrfToken :: "string option"
  g_skipTlsVerify :: "bool option"
  g_username :: "string option"
  g_password :: "string option"
  g_realm :: "string option"

record exec_context =
  c_repoDir :: string
  c_definition_id :: string

record authOptions =
  o_skipCache :: bool
  o_modelType :: "string option"

record auth =
  a_ticket :: jsval
  a_csrfToken :: jsval
  a_username :: "tstring option"
  a_source :: string
  a_freshAuth :: bool

text \<open>An optional string argument as a JavaScript value.\<close>

definition jsopt :: "string option \<Rightarrow> jsval" where
  "jsopt a = (case a of None \<Rightarrow> JUndefined | Some s \<Rightarrow> JStr s)"

text \<open>\<^verbatim>\<open>a || d\<close> on an optional string.\<close>

definition or_default :: "string option \<Rightarrow> string \<Rightarrow> string" where
  "or_default a d = (case a of None \<Rightarrow> d | Some s \<Rightarrow> if s = [] then d else s)"

text \<open>White space, for \<^verbatim>\<open>parseInt\<close> and for \<^verbatim>\<open>\s\<close>, among the characters below 256: tab,
  line feed, vertical tab, form feed, carriage return, space and no-break space.\<close>

definition is_space :: "char \<Rightarrow> bool" where
  "is_space c = (of_char c \<in> {9, 10, 11, 12, 13, 32, 160 :: nat})"

definition is_digit :: "char \<Rightarrow> bool" where
  "is_digit c = (48 \<le> (of_char c :: nat) \<and> (of_char c :: nat) \<le> 57)"

text \<open>
  The Number values \<^verbatim>\<open>parseInt\<close> can return besides \<^verbatim>\<open>NaN\<close>: an integer that is a double, or
  an infinity.
\<close>

datatype number = Fin int | PosInf | NegInf

text \<open>The number of binary digits of a natural number.\<close>

fun bits :: "nat \<Rightarrow> nat" where
  "bits n = (if n = 0 then 0 else Suc (bits (n div 2)))"

declare bits.simps [simp del]

text \<open>
  The Number value for a mathematical integer: the integer itself below \<open>2^53\<close> in magnitude,
  otherwise the nearest double (53 significant bits, ties to even), and an infinity from
  \<open>2^1024\<close> on.
\<close>

definition to_double :: "int \<Rightarrow> number" where
  "to_double n =
     (let m = nat \<bar>n\<bar> in
      if m < 2 ^ 53 then Fin n
      else
        let e = bits m - 53;
            q = m div 2 ^ e;
            r = m mod 2 ^ e;
            q' = (if 2 ^ e < 2 * r \<or> (2 * r = 2 ^ e \<and> odd q) then q + 1 else q);
            d = q' * 2 ^ e
        in if 2 ^ 1024 \<le> d then (if n < 0 then NegInf else PosInf)
           else Fin (if n < 0 then - int d else int d))"

text \<open>The value of a run of decimal digits.\<close>

definition digits_value :: "string \<Rightarrow> int" where
  "digits_value ds = foldl (\<lambda>a c. 10 * a + (int (of_char c) - 48)) 0 ds"

text \<open>\<^verbatim>\<open>parseInt(s, 10)\<close>: leading white space, a sign, then the longest run of digits, whose
  value is rounded to a double; \<open>None\<close> is \<^verbatim>\<open>NaN\<close>.\<close>

definition parseInt10 :: "string \<Rightarrow> number option" where
  "parseInt10 s =
     (let t = dropWhile is_space s;
          neg = (case t of [] \<Rightarrow> False | c # r \<Rightarrow> c = CHR ''-'');
          u = (case t of [] \<Rightarrow> [] | c # r \<Rightarrow> if c = CHR ''-'' \<or> c = CHR ''+'' then r else t);
          ds = takeWhile is_digit u
      in if ds = [] then None
         else Some (to_double ((if neg then - 1 else 1) * digits_value ds)))"

text \<open>A number as the value a template or a record receives.\<close>

definition num_val :: "number \<Rightarrow> jsval" where
  "num_val x = (case x of Fin n \<Rightarrow> JNum n | PosInf \<Rightarrow> JStr ''Infinity''
                | NegInf \<Rightarrow> JStr ''-Infinity'')"

fun number_max :: "number \<Rightarrow> number \<Rightarrow> number" where
  "number_max PosInf b = PosInf"
| "number_max a PosInf = PosInf"
| "number_max NegInf b = b"
| "number_max a NegInf = a"
| "number_max (Fin a) (Fin b) = Fin (max a b)"

text \<open>\<^verbatim>\<open>Math.max(...versions)\<close>, as the value the path template receives: \<^verbatim>\<open>-Infinity\<close> for
  no argument.\<close>

definition math_max :: "number list \<Rightarrow> jsval" where
  "math_max vs = num_val (fold number_max vs NegInf)"

text \<open>The text after \<^verbatim>\<open>createdAt:\<close>, matched against \<^verbatim>\<open>\s*'([^']+)'\<close>.\<close>

definition quoted_here :: "string \<Rightarrow> string option" where
  "quoted_here s =
     (case dropWhile is_space s of
        [] \<Rightarrow> None
      | c # r \<Rightarrow>
          if c = CHR 0x27 \<and> takeWhile (\<lambda>x. x \<noteq> CHR 0x27) r \<noteq> [] \<and> dropWhile (\<lambda>x. x \<noteq> CHR 0x27) r \<noteq> []
          then Some (takeWhile (\<lambda>x. x \<noteq> CHR 0x27) r)
          else None)"

text \<open>\<^verbatim>\<open>metaText.match(/createdAt:\s*'([^']+)'/)\<close>: the group of the leftmost match.\<close>

fun createdAtMatch :: "string \<Rightarrow> string option" where
  "createdAtMatch [] = None"
| "createdAtMatch (c # cs) =
     (if take 10 (c # cs) = ''createdAt:''
      then (case quoted_here (drop 10 (c # cs)) of
              Some m \<Rightarrow> Some m
            | None \<Rightarrow> createdAtMatch cs)
      else createdAtMatch cs)"

text \<open>
  Step 2 of \<^verbatim>\<open>resolveAuth\<close>, the body of its \<^verbatim>\<open>try\<close>: the cached ticket and CSRF token, or
  \<open>None\<close> when the block falls through or anything in it throws (the \<^verbatim>\<open>catch\<close> is empty).
\<close>

definition cachedAuth :: "'w platform \<Rightarrow> exec_context \<Rightarrow> authOptions \<Rightarrow> 'w \<Rightarrow> (jsval \<times> jsval) option" where
  "cachedAuth P context opts w =
     (let modelType = or_default (o_modelType opts) ''@user/proxmox/api'';
          defId = c_definition_id context;
          dir = [JStr (c_repoDir context), JStr modelType, JStr defId];
          authDir = Tpl ''{}/.swamp/data/{}/{}/auth'' dir
      in case read_dir P authDir w of
           None \<Rightarrow> None
         | Some ents \<Rightarrow>
             let entries = filter de_isDirectory ents in
             if length entries > 0
             then
               let versions = List.map_filter (\<lambda>e. parseInt10 (de_name e)) entries;
                   latest = math_max versions;
                   rawPath = Tpl ''{}/.swamp/data/{}/{}/auth/{}/raw'' (dir @ [latest]);
                   metaPath = Tpl ''{}/.swamp/data/{}/{}/auth/{}/metadata.yaml'' (dir @ [latest])
               in case read_text_file P metaPath w of
                    None \<Rightarrow> None
                  | Some metaText \<Rightarrow>
                      (case createdAtMatch (f_text metaText) of
                         None \<Rightarrow> None
                       | Some m \<Rightarrow>
                           (case date_parse P m of
                              None \<Rightarrow> None
                            | Some createdAt \<Rightarrow>
                                let ageMs = date_now P w - createdAt in
                                if ageMs < AUTH_TTL_MS
                                then
                                  (case read_text_file P rawPath w of
                                     None \<Rightarrow> None
                                   | Some rawText \<Rightarrow>
                                       (case f_json rawText of
                                          None \<Rightarrow> None
                                        | Some cached \<Rightarrow>
                                            (case getprop cached ''ticket'' of
                                               Inl e \<Rightarrow> None
                                             | Inr t \<Rightarrow>
                                                 (case getprop cached ''csrfToken'' of
                                                    Inl e \<Rightarrow> None
                                                  | Inr c \<Rightarrow> Some (t, c)))))
                                else None))
             else None)"

definition ticketUrl :: "string \<Rightarrow> tstring" where
  "ticketUrl apiUrl = Tpl ''{}/api2/json/access/ticket'' [JStr apiUrl]"

text \<open>Step 3 of \<^verbatim>\<open>resolveAuth\<close>: username and password.\<close>

definition passwordAuth :: "'w platform \<Rightarrow> globalArgs \<Rightarrow> ('w, auth) prog" where
  "passwordAuth P globalArgs =
     (if \<not> truthy (jsopt (g_username globalArgs)) \<or> \<not> truthy (jsopt (g_password globalArgs))
      then throw (Error (Tpl ''No auth available: no explicit ticket, no valid cached auth, and no username/password. Run 'swamp workflow run sync-proxmox-vms --json' to authenticate via vault.'' []))
      else
        let user = Tpl (''{}@'' @ ''{}'') [jsopt (g_username globalArgs), JStr (or_default (g_realm globalArgs) ''pam'')] in
        bind (fetchWithCurl P
               \<lparr>rq_method = ''POST'',
                rq_url = ticketUrl (g_apiUrl globalArgs),
                rq_headers = [(''Content-Type'', Tpl ''application/x-www-form-urlencoded'' [])],
                rq_body = Some [(''username'', user),
                                (''password'', Tpl ''{}'' [jsopt (g_password globalArgs)])],
                rq_skipTlsVerify = nullish (g_skipTlsVerify globalArgs) True\<rparr>)
          (\<lambda>response.
             if \<not> ok response
             then throw (Error (Tpl ''Authentication failed: {} {} - {}''
                          [JNum (rs_status response), JStr (rs_statusText response), JStr (rs_text response)]))
             else
               bind (lift (json_data response)) (\<lambda>d.
               bind (lift (getprop d ''ticket'')) (\<lambda>ticket.
               bind (lift (getprop d ''CSRFPreventionToken'')) (\<lambda>csrf.
                 ret \<lparr>a_ticket = ticket, a_csrfToken = csrf,
                      a_username = Some user, a_source = ''password'', a_freshAuth = True\<rparr>)))))"

definition resolveAuth :: "'w platform \<Rightarrow> globalArgs \<Rightarrow> exec_context \<Rightarrow> authOptions \<Rightarrow> ('w, auth) prog" where
  "resolveAuth P globalArgs context opts =
     (if truthy (jsopt (g_ticket globalArgs)) \<and> truthy (jsopt (g_csrfToken globalArgs))
      then ret \<lparr>a_ticket = jsopt (g_ticket globalArgs), a_csrfToken = jsopt (g_csrfToken globalArgs),
                a_username = None, a_source = ''explicit'', a_freshAuth = False\<rparr>
      else
        (\<lambda>s. case (if \<not> o_skipCache opts then cachedAuth P context opts (world s) else None) of
                Some (t, c) \<Rightarrow>
                  ret \<lparr>a_ticket = t, a_csrfToken = c,
                       a_username = None, a_source = ''cache'', a_freshAuth = False\<rparr> s
              | None \<Rightarrow> passwordAuth P globalArgs s))"


definition agentUrl :: "string \<Rightarrow> string \<Rightarrow> jsval \<Rightarrow> tstring" where
  "agentUrl apiUrl node vmid =
     Tpl ''{}/api2/json/nodes/{}/qemu/{}/agent/network-get-interfaces'' [JStr apiUrl, JStr node, vmid]"

definition agentRequest ::
  "string \<Rightarrow> string \<Rightarrow> jsval \<Rightarrow> jsval \<Rightarrow> jsval \<Rightarrow> bool option \<Rightarrow> request" where
  "agentRequest apiUrl node vmid ticket csrfToken skipTlsVerify =
     \<lparr>rq_method = ''GET'',
      rq_url = agentUrl apiUrl node vmid,
      rq_headers = authHeaders ticket csrfToken,
      rq_body = None,
      rq_skipTlsVerify = nullish skipTlsVerify True\<rparr>"

text \<open>\<^verbatim>\<open>a.startsWith("127.")\<close>\<close>

definition startsWith127 :: "string \<Rightarrow> bool" where
  "startsWith127 a = (take 4 a = ''127.'')"

text \<open>The inner loop of \<^verbatim>\<open>getVmIpWithRetry\<close>, \<^verbatim>\<open>for (const ip of ips)\<close>: the address it
  returns, \<open>None\<close> when it runs to its end, an error when it throws (\<^verbatim>\<open>startsWith\<close> on
  anything but a string is a TypeError).\<close>

fun scan_ips :: "jsval list \<Rightarrow> error + string option" where
  "scan_ips [] = Inr None"
| "scan_ips (ip # ips) =
     (case getprop ip ''ip-address-type'' of
        Inl e \<Rightarrow> Inl e
      | Inr ty \<Rightarrow>
          if ty = JStr ''ipv4''
          then (case getprop ip ''ip-address'' of
                  Inl e \<Rightarrow> Inl e
                | Inr a \<Rightarrow>
                    (case a of
                       JStr addr \<Rightarrow> if \<not> startsWith127 addr then Inr (Some addr) else scan_ips ips
                     | _ \<Rightarrow> Inl TypeError))
          else scan_ips ips)"

text \<open>The outer loop, \<^verbatim>\<open>for (const iface of interfaces)\<close>.\<close>

fun scan_interfaces :: "jsval list \<Rightarrow> error + string option" where
  "scan_interfaces [] = Inr None"
| "scan_interfaces (iface # rest) =
     (case getprop iface ''name'' of
        Inl e \<Rightarrow> Inl e
      | Inr name \<Rightarrow>
          if name = JStr ''lo'' then scan_interfaces rest
          else
            (case getprop iface ''ip-addresses'' of
               Inl e \<Rightarrow> Inl e
             | Inr a \<Rightarrow>
                 (case iterate (if truthy a then a else JArr []) of
                    Inl e \<Rightarrow> Inl e
                  | Inr ips \<Rightarrow>
                      (case scan_ips ips of
                         Inl e \<Rightarrow> Inl e
                       | Inr None \<Rightarrow> scan_interfaces rest
                       | Inr (Some addr) \<Rightarrow> Inr (Some addr)))))"

text \<open>One pass through the \<^verbatim>\<open>try\<close> block of \<^verbatim>\<open>getVmIpWithRetry\<close>, given what
  \<^verbatim>\<open>fetchWithCurl\<close> did: the address it returns, or \<open>None\<close> when it falls out of the block or
  the empty \<^verbatim>\<open>catch\<close> takes over.\<close>

definition poll_result :: "error + response \<Rightarrow> string option" where
  "poll_result r =
     (case r of
        Inl e \<Rightarrow> None
      | Inr netResponse \<Rightarrow>
          if ok netResponse
          then
            (case json netResponse of
               Inl e \<Rightarrow> None
             | Inr netResult \<Rightarrow>
                 (case getprop netResult ''data'' of
                    Inl e \<Rightarrow> None
                  | Inr d \<Rightarrow>
                      (let res = optprop d ''result'';
                           interfaces = (if truthy res then res else JArr [])
                       in (case iterate interfaces of
                             Inl e \<Rightarrow> None
                           | Inr ifaces \<Rightarrow>
                               (case scan_interfaces ifaces of
                                  Inl e \<Rightarrow> None
                                | Inr found \<Rightarrow> found)))))
          else None)"

text \<open>The \<^verbatim>\<open>while (Date.now() < deadline)\<close> of \<^verbatim>\<open>getVmIpWithRetry\<close>; \<open>Inr None\<close> is
  \<^verbatim>\<open>null\<close>.\<close>

partial_function (option) getVmIp_loop ::
  "'w platform \<Rightarrow> request \<Rightarrow> int \<Rightarrow> int \<Rightarrow> 'w state \<Rightarrow> ((error + string option) \<times> 'w state) option" where
  "getVmIp_loop P rq deadline pollInterval s =
     (if date_now P (world s) < deadline
      then
        (case fetchWithCurl P rq s of
           None \<Rightarrow> None
         | Some (r, s1) \<Rightarrow>
             (case poll_result r of
                Some addr \<Rightarrow> Some (Inr (Some addr), s1)
              | None \<Rightarrow> getVmIp_loop P rq deadline pollInterval (sleep P (pollInterval * 1000) s1)))
      else Some (Inr None, s))"

declare getVmIp_loop.simps [code]

definition getVmIpWithRetry ::
  "'w platform \<Rightarrow> string \<Rightarrow> string \<Rightarrow> jsval \<Rightarrow> jsval \<Rightarrow> jsval \<Rightarrow> bool option \<Rightarrow> int \<Rightarrow> int \<Rightarrow>
   ('w, string option) prog" where
  "getVmIpWithRetry P apiUrl node vmid ticket csrfToken skipTlsVerify waitSeconds pollInterval =
     (\<lambda>s. let deadline = date_now P (world s) + waitSeconds * 1000
          in getVmIp_loop P (agentRequest apiUrl node vmid ticket csrfToken skipTlsVerify)
               deadline pollInterval s)"


section \<open>proxmox\_vm.ts\<close>

text \<open>Quotation marks inside the messages of the source are left out of the template texts,
  and its arrow is written \<open>->\<close>.\<close>

record vm =
  vm_vmid :: jsval
  vm_name :: jsval
  vm_status :: jsval

definition listUrl :: "string \<Rightarrow> string \<Rightarrow> tstring" where
  "listUrl apiUrl node = Tpl ''{}/api2/json/nodes/{}/qemu'' [JStr apiUrl, JStr node]"

definition listRequest :: "string \<Rightarrow> string \<Rightarrow> jsval \<Rightarrow> jsval \<Rightarrow> bool option \<Rightarrow> request" where
  "listRequest apiUrl node ticket csrfToken skipTlsVerify =
     \<lparr>rq_method = ''GET'',
      rq_url = listUrl apiUrl node,
      rq_headers = authHeaders ticket csrfToken,
      rq_body = None,
      rq_skipTlsVerify = nullish skipTlsVerify True\<rparr>"

text \<open>\<^verbatim>\<open>vms.find((v) => v.name === vmName)\<close>\<close>

fun find_by_name :: "string \<Rightarrow> jsval list \<Rightarrow> error + jsval option" where
  "find_by_name vmName [] = Inr None"
| "find_by_name vmName (v # vs) =
     (case getprop v ''name'' of
        Inl e \<Rightarrow> Inl e
      | Inr n \<Rightarrow> if n = JStr vmName then Inr (Some v) else find_by_name vmName vs)"

definition resolveVm ::
  "'w platform \<Rightarrow> string \<Rightarrow> string \<Rightarrow> string \<Rightarrow> jsval \<Rightarrow> jsval \<Rightarrow> bool option \<Rightarrow> ('w, vm) prog" where
  "resolveVm P apiUrl node vmName ticket csrfToken skipTlsVerify =
     bind (fetchWithCurl P (listRequest apiUrl node ticket csrfToken skipTlsVerify)) (\<lambda>listResponse.
       if \<not> ok listResponse
       then throw (Error (Tpl ''Failed to list VMs: {} {}''
                    [JNum (rs_status listResponse), JStr (rs_text listResponse)]))
       else
         bind (lift (json_data listResponse)) (\<lambda>vms.
           case vms of
             JArr vs \<Rightarrow>
               bind (lift (find_by_name vmName vs)) (\<lambda>found.
                 case found of
                   None \<Rightarrow>
                     throw (Error (Tpl ''VM {} not found. Available: {}''
                       [JStr vmName, JArr (filter truthy (map (\<lambda>v. optprop v ''name'') vs))]))
                 | Some v \<Rightarrow>
                     bind (lift (getprop v ''vmid'')) (\<lambda>vmid.
                     bind (lift (getprop v ''name'')) (\<lambda>name.
                     bind (lift (getprop v ''status'')) (\<lambda>status.
                       ret \<lparr>vm_vmid = vmid, vm_name = name, vm_status = status\<rparr>))))
           | _ \<Rightarrow> throw TypeError))"

definition authOpts :: authOptions where
  "authOpts = \<lparr>o_skipCache = False, o_modelType = Some ''@user/proxmox/vm''\<rparr>"

text \<open>A \<^verbatim>\<open>POST\<close> or \<^verbatim>\<open>DELETE\<close> on a VM, with the headers the lifecycle methods send.\<close>

definition vmRequest ::
  "string \<Rightarrow> tstring \<Rightarrow> jsval \<Rightarrow> jsval \<Rightarrow> bool option \<Rightarrow> request" where
  "vmRequest method url ticket csrfToken skipTlsVerify =
     \<lparr>rq_method = method,
      rq_url = url,
      rq_headers =
        (if method = ''DELETE'' then authHeaders ticket csrfToken
         else [(''Cookie'', Tpl ''PVEAuthCookie={}'' [ticket]),
               (''Content-Type'', Tpl ''application/x-www-form-urlencoded'' []),
               (''CSRFPreventionToken'', Tpl ''{}'' [csrfToken])]),
      rq_body = None,
      rq_skipTlsVerify = nullish skipTlsVerify True\<rparr>"

definition startUrl :: "string \<Rightarrow> string \<Rightarrow> jsval \<Rightarrow> tstring" where
  "startUrl apiUrl node vmid =
     Tpl ''{}/api2/json/nodes/{}/qemu/{}/status/start'' [JStr apiUrl, JStr node, vmid]"

definition stopUrl :: "string \<Rightarrow> string \<Rightarrow> jsval \<Rightarrow> tstring" where
  "stopUrl apiUrl node vmid =
     Tpl ''{}/api2/json/nodes/{}/qemu/{}/status/stop'' [JStr apiUrl, JStr node, vmid]"

definition vmUrl :: "string \<Rightarrow> string \<Rightarrow> jsval \<Rightarrow> tstring" where
  "vmUrl apiUrl node vmid =
     Tpl ''{}/api2/json/nodes/{}/qemu/{}'' [JStr apiUrl, JStr node, vmid]"

text \<open>The value of \<open>ip\<close> as JavaScript sees it.\<close>

definition jsip :: "string option \<Rightarrow> jsval" where
  "jsip ip = (case ip of None \<Rightarrow> JNull | Some a \<Rightarrow> JStr a)"

record startArgs =
  sa_vmName :: string
  sa_waitSeconds :: "int option"
  sa_pollInterval :: "int option"

text \<open>The error \<^verbatim>\<open>start\<close> throws when discovery returns no usable address.\<close>

definition missingIpError :: "string \<Rightarrow> jsval \<Rightarrow> int \<Rightarrow> error" where
  "missingIpError vmName vmid waitSeconds =
     Error (Tpl ''VM {} (vmid {}) is running but guest agent did not return an IP within {}s. Is qemu-guest-agent installed and agent enabled in VM config?''
              [JStr vmName, vmid, JNum waitSeconds])"

text \<open>The block \<^verbatim>\<open>if (vm.status === "stopped") { ... } else { ... }\<close> of \<^verbatim>\<open>start\<close>: it returns
  \<open>wasStarted\<close> and the lines it adds to the log.\<close>

definition startIfStopped ::
  "'w platform \<Rightarrow> globalArgs \<Rightarrow> jsval \<Rightarrow> jsval \<Rightarrow> vm \<Rightarrow> ('w, bool \<times> tstring list) prog" where
  "startIfStopped P globalArgs ticket csrfToken vm =
     (let apiUrl = g_apiUrl globalArgs;
          node = g_node globalArgs;
          skipTlsVerify = g_skipTlsVerify globalArgs
      in
      if vm_status vm = JStr ''stopped''
      then
        bind (fetchWithCurl P (vmRequest ''POST'' (startUrl apiUrl node (vm_vmid vm))
                                 ticket csrfToken skipTlsVerify)) (\<lambda>startResponse.
          if \<not> ok startResponse
          then throw (Error (Tpl ''Failed to start VM: {} {}''
                       [JNum (rs_status startResponse), JStr (rs_text startResponse)]))
          else
            bind (lift (json_data startResponse)) (\<lambda>upid.
            bind (waitForTask P apiUrl node upid ticket csrfToken (nullish skipTlsVerify True))
              (\<lambda>taskResult.
                if \<not> success taskResult
                then throw (Error (Tpl ''VM start failed: {}'' [exitstatus taskResult]))
                else ret (True,
                  [Tpl ''VM is stopped, starting'' [],
                   Tpl ''VM {} started successfully ({} polls)''
                     [vm_vmid vm, JNum (int (pollCount taskResult))]]))))
      else ret (False, [Tpl ''VM is already running'' []]))"

text \<open>The rest of \<^verbatim>\<open>start\<close> after that block: the wait for the guest agent's address and the
  write.\<close>

definition awaitIp ::
  "'w platform \<Rightarrow> globalArgs \<Rightarrow> jsval \<Rightarrow> jsval \<Rightarrow> vm \<Rightarrow> string \<Rightarrow> int \<Rightarrow> int \<Rightarrow>
   bool \<Rightarrow> tstring list \<Rightarrow> ('w, nat list) prog" where
  "awaitIp P globalArgs ticket csrfToken vm vmName waitSeconds pollInterval wasStarted logs2 =
     (let logs3 = logs2 @ [Tpl ''Waiting for guest agent IP (up to {}s)'' [JNum waitSeconds]] in
      bind (getVmIpWithRetry P (g_apiUrl globalArgs) (g_node globalArgs) (vm_vmid vm) ticket csrfToken
              (g_skipTlsVerify globalArgs) waitSeconds pollInterval) (\<lambda>ip.
        if truthy (jsip ip)
        then
          bind (writeResource P ''vm'' (vm_name vm)
                 [(''vmid'', vm_vmid vm), (''vmName'', vm_name vm), (''status'', JStr ''running''),
                  (''ip'', jsip ip), (''wasStarted'', JBool wasStarted)]
                 (logs3 @ [Tpl ''Got IP: {}'' [jsip ip]])) (\<lambda>handle.
            ret [handle])
        else throw (missingIpError vmName (vm_vmid vm) waitSeconds)))"

definition start :: "'w platform \<Rightarrow> globalArgs \<Rightarrow> exec_context \<Rightarrow> startArgs \<Rightarrow> ('w, nat list) prog" where
  "start P globalArgs context args =
     (let vmName = sa_vmName args;
          waitSeconds = nullish (sa_waitSeconds args) 120;
          pollInterval = nullish (sa_pollInterval args) 5;
          apiUrl = g_apiUrl globalArgs;
          node = g_node globalArgs;
          skipTlsVerify = g_skipTlsVerify globalArgs;
          logs0 = [Tpl ''Ensuring VM {} is running on node {}'' [JStr vmName, JStr node]]
      in
      bind (resolveAuth P globalArgs context authOpts) (\<lambda>auth.
      let ticket = a_ticket auth; csrfToken = a_csrfToken auth in
      bind (resolveVm P apiUrl node vmName ticket csrfToken skipTlsVerify) (\<lambda>vm.
      let logs1 = logs0 @ [Tpl ''Found VM {} -> vmid {} [{}]'' [JStr vmName, vm_vmid vm, vm_status vm]] in
      bind (startIfStopped P globalArgs ticket csrfToken vm) (\<lambda>(wasStarted, added).
        awaitIp P globalArgs ticket csrfToken vm vmName waitSeconds pollInterval wasStarted
          (logs1 @ added)))))"

definition stop :: "'w platform \<Rightarrow> globalArgs \<Rightarrow> exec_context \<Rightarrow> string \<Rightarrow> ('w, nat list) prog" where
  "stop P globalArgs context vmName =
     (let apiUrl = g_apiUrl globalArgs;
          node = g_node globalArgs;
          skipTlsVerify = g_skipTlsVerify globalArgs;
          logs0 = [Tpl ''Stopping VM {} on node {}'' [JStr vmName, JStr node]]
      in
      bind (resolveAuth P globalArgs context authOpts) (\<lambda>auth.
      bind (resolveVm P apiUrl node vmName (a_ticket auth) (a_csrfToken auth) skipTlsVerify) (\<lambda>vm.
      let logs1 = logs0 @ [Tpl ''Found VM {} -> vmid {} [{}]'' [JStr vmName, vm_vmid vm, vm_status vm]] in
      if vm_status vm = JStr ''stopped''
      then
        bind (writeResource P ''vm'' (vm_name vm)
               [(''vmid'', vm_vmid vm), (''vmName'', vm_name vm), (''status'', JStr ''stopped''),
                (''ip'', JNull), (''success'', JBool True)]
               (logs1 @ [Tpl ''VM is already stopped'' []])) (\<lambda>handle.
          ret [handle])
      else
        let logs2 = logs1 @ [Tpl ''Sending stop command for VM {}'' [vm_vmid vm]] in
        bind (fetchWithCurl P (vmRequest ''POST'' (stopUrl apiUrl node (vm_vmid vm))
                                 (a_ticket auth) (a_csrfToken auth) skipTlsVerify)) (\<lambda>response.
          if \<not> ok response
          then throw (Error (Tpl ''Failed to stop VM: {} {}''
                       [JNum (rs_status response), JStr (rs_text response)]))
          else
            bind (lift (json_data response)) (\<lambda>upid.
            let logs3 = logs2 @ [Tpl ''Stop task initiated, waiting for completion'' []] in
            bind (waitForTask P apiUrl node upid (a_ticket auth) (a_csrfToken auth)
                    (nullish skipTlsVerify True)) (\<lambda>taskResult.
            let logs4 = logs3 @
                  [if success taskResult
                   then Tpl ''VM {} stopped successfully ({} polls)''
                          [vm_vmid vm, JNum (int (pollCount taskResult))]
                   else Tpl ''VM {} stop failed: {}'' [vm_vmid vm, exitstatus taskResult]] in
            bind (writeResource P ''vm'' (vm_name vm)
                   [(''vmid'', vm_vmid vm), (''vmName'', vm_name vm), (''status'', JStr ''stopped''),
                    (''ip'', JNull), (''success'', JBool (success taskResult))]
                   logs4) (\<lambda>handle.
              ret [handle])))))))"


record createArgs =
  ca_vmName :: string
  ca_memory :: "int option"
  ca_cores :: "int option"
  ca_sockets :: "int option"
  ca_diskSize :: "int option"
  ca_diskStorage :: "string option"
  ca_networkBridge :: "string option"
  ca_osType :: "string option"

text \<open>
  \<^verbatim>\<open>parseInt(v, 10)\<close> on a value: \<^verbatim>\<open>String(v)\<close> is parsed. The text of a number below
  \<open>10^21\<close> in magnitude is its decimal numeral; from there on it is in exponent notation and
  \<^verbatim>\<open>parseInt\<close> reads its leading digit, which stays unevaluated inside a template, as does
  the parse of a template string. The text of an array starts with the text of its first
  element, which is empty for \<^verbatim>\<open>null\<close> and \<^verbatim>\<open>undefined\<close>, and goes on with a comma.
\<close>

fun parseIntJs :: "jsval \<Rightarrow> jsval" where
  "parseIntJs (JNum n) =
     (case to_double n of
        Fin m \<Rightarrow> if \<bar>m\<bar> < 10 ^ 21 then JNum m else JTpl ''{parseInt}'' [JNum m]
      | PosInf \<Rightarrow> JNaN
      | NegInf \<Rightarrow> JNaN)"
| "parseIntJs (JStr s) = (case parseInt10 s of None \<Rightarrow> JNaN | Some x \<Rightarrow> num_val x)"
| "parseIntJs (JArr (x # xs)) = parseIntJs x"
| "parseIntJs (JTpl t vs) = JTpl ''{parseInt}'' [JTpl t vs]"
| "parseIntJs v = JNaN"

definition nextIdUrl :: "string \<Rightarrow> tstring" where
  "nextIdUrl apiUrl = Tpl ''{}/api2/json/cluster/nextid'' [JStr apiUrl]"

text \<open>The \<^verbatim>\<open>URLSearchParams\<close> of \<^verbatim>\<open>create\<close>, in insertion order; \<^verbatim>\<open>btoa\<close> stays unrendered
  inside its template.\<close>

definition createParams :: "createArgs \<Rightarrow> jsval \<Rightarrow> (string \<times> tstring) list" where
  "createParams args vmid =
     (let hasDisk = (ca_diskSize args \<noteq> Some 0) in
      [(''vmid'', Tpl ''{}'' [vmid]),
       (''name'', Tpl ''{}'' [JStr (ca_vmName args)]),
       (''memory'', Tpl ''{}'' [JNum (nullish (ca_memory args) 2048)]),
       (''cores'', Tpl ''{}'' [JNum (nullish (ca_cores args) 2)]),
       (''sockets'', Tpl ''{}'' [JNum (nullish (ca_sockets args) 1)]),
       (''ostype'', Tpl ''{}'' [JStr (nullish (ca_osType args) ''l26'')]),
       (''agent'', Tpl ''1'' []),
       (''boot'', Tpl (if hasDisk then ''order=net0;scsi0'' else ''order=net0'') []),
       (''net0'', Tpl ''virtio,bridge={}'' [JStr (nullish (ca_networkBridge args) ''vmbr0'')]),
       (''scsihw'', Tpl ''virtio-scsi-single'' []),
       (''smbios1'', Tpl ''base64=1,serial={btoa}'' [JStr (ca_vmName args)])] @
      (if hasDisk
       then [(''scsi0'', Tpl ''{}:{},format=raw''
                [JStr (nullish (ca_diskStorage args) ''local-lvm''),
                 JNum (nullish (ca_diskSize args) 32)])]
       else []))"

definition createRequest :: "globalArgs \<Rightarrow> jsval \<Rightarrow> jsval \<Rightarrow> createArgs \<Rightarrow> jsval \<Rightarrow> request" where
  "createRequest globalArgs ticket csrfToken args vmid =
     \<lparr>rq_method = ''POST'',
      rq_url = listUrl (g_apiUrl globalArgs) (g_node globalArgs),
      rq_headers = authHeaders ticket csrfToken @
        [(''Content-Type'', Tpl ''application/x-www-form-urlencoded'' [])],
      rq_body = Some (createParams args vmid),
      rq_skipTlsVerify = nullish (g_skipTlsVerify globalArgs) True\<rparr>"

definition create :: "'w platform \<Rightarrow> globalArgs \<Rightarrow> exec_context \<Rightarrow> createArgs \<Rightarrow> ('w, nat list) prog" where
  "create P globalArgs context args =
     (let vmName = ca_vmName args;
          apiUrl = g_apiUrl globalArgs;
          node = g_node globalArgs;
          skipTlsVerify = g_skipTlsVerify globalArgs;
          logs0 = [Tpl ''Creating VM {} on node {}'' [JStr vmName, JStr node]]
      in
      bind (resolveAuth P globalArgs context authOpts) (\<lambda>auth.
      let ticket = a_ticket auth; csrfToken = a_csrfToken auth;
          logs1 = logs0 @ [Tpl ''Fetching next available VM ID'' []] in
      bind (fetchWithCurl P
             \<lparr>rq_method = ''GET'', rq_url = nextIdUrl apiUrl,
              rq_headers = authHeaders ticket csrfToken, rq_body = None,
              rq_skipTlsVerify = nullish skipTlsVerify True\<rparr>) (\<lambda>nextIdResponse.
        if \<not> ok nextIdResponse
        then throw (Error (Tpl ''Failed to get next VM ID: {}'' [JStr (rs_text nextIdResponse)]))
        else
          bind (lift (json_data nextIdResponse)) (\<lambda>d.
          let vmid = parseIntJs d;
              hasDisk = (ca_diskSize args \<noteq> Some 0);
              logs2 = logs1 @
                [Tpl ''Got next VM ID: {}'' [vmid],
                 Tpl ''Specs: {}MB RAM, {} cores, {}''
                   [JNum (nullish (ca_memory args) 2048), JNum (nullish (ca_cores args) 2),
                    if hasDisk then JTpl ''{}GB disk'' [JNum (nullish (ca_diskSize args) 32)]
                    else JStr ''no disk (PXE)'']] in
          bind (fetchWithCurl P (createRequest globalArgs ticket csrfToken args vmid)) (\<lambda>response.
            if \<not> ok response
            then throw (Error (Tpl ''Failed to create VM: {} {} - {}''
                         [JNum (rs_status response), JStr (rs_statusText response),
                          JStr (rs_text response)]))
            else
              bind (lift (json_data response)) (\<lambda>upid.
              let logs3 = logs2 @ [Tpl ''VM creation task started, waiting for completion'' []] in
              bind (waitForTask P apiUrl node upid ticket csrfToken (nullish skipTlsVerify True))
                (\<lambda>taskResult.
                  if \<not> success taskResult
                  then throw (Error (Tpl ''VM creation failed: {}'' [exitstatus taskResult]))
                  else
                    let logs4 = logs3 @
                          [Tpl ''VM {} ({}) created successfully ({} polls)''
                             [vmid, JStr vmName, JNum (int (pollCount taskResult))]] in
                    bind (writeResource P ''vm'' (JStr vmName)
                           [(''vmid'', vmid), (''vmName'', JStr vmName), (''status'', JStr ''stopped''),
                            (''ip'', JNull), (''success'', JBool True)]
                           logs4) (\<lambda>handle.
                      ret [handle]))))))))"

text \<open>The best-effort stop of \<^verbatim>\<open>delete\<close>. First the body of its \<^verbatim>\<open>try\<close> block; the result
  is the line it adds to the log.\<close>

definition stopAttempt ::
  "'w platform \<Rightarrow> string \<Rightarrow> string \<Rightarrow> vm \<Rightarrow> jsval \<Rightarrow> jsval \<Rightarrow> bool option \<Rightarrow>
   ('w, tstring) prog" where
  "stopAttempt P apiUrl node vm ticket csrfToken skipTlsVerify =
     bind (fetchWithCurl P (vmRequest ''POST'' (stopUrl apiUrl node (vm_vmid vm))
                              ticket csrfToken skipTlsVerify)) (\<lambda>stopResponse.
       if ok stopResponse
       then
         bind (lift (json_data stopResponse)) (\<lambda>stopUpid.
         bind (waitForTask P apiUrl node stopUpid ticket csrfToken (nullish skipTlsVerify True))
           (\<lambda>stopResult.
             ret (Tpl ''VM {} stop: {}'' [vm_vmid vm, exitstatus stopResult])))
       else ret (Tpl ''VM may already be stopped, continuing to delete'' []))"

text \<open>Then the \<^verbatim>\<open>try\<close> with its \<^verbatim>\<open>catch\<close>, which adds a line of its own.\<close>

definition stopBeforeDelete ::
  "'w platform \<Rightarrow> string \<Rightarrow> string \<Rightarrow> vm \<Rightarrow> jsval \<Rightarrow> jsval \<Rightarrow> bool option \<Rightarrow>
   ('w, tstring) prog" where
  "stopBeforeDelete P apiUrl node vm ticket csrfToken skipTlsVerify =
     catch (stopAttempt P apiUrl node vm ticket csrfToken skipTlsVerify)
       (\<lambda>e. ret (Tpl ''Stop failed (VM may already be stopped), continuing'' []))"

text \<open>The part of \<^verbatim>\<open>delete\<close> under its comment \<^verbatim>\<open>// Delete\<close>.\<close>

definition deleteVm ::
  "'w platform \<Rightarrow> globalArgs \<Rightarrow> jsval \<Rightarrow> jsval \<Rightarrow> vm \<Rightarrow> tstring list \<Rightarrow> ('w, nat list) prog" where
  "deleteVm P globalArgs ticket csrfToken vm logs2 =
     (let apiUrl = g_apiUrl globalArgs;
          node = g_node globalArgs;
          skipTlsVerify = g_skipTlsVerify globalArgs;
          logs3 = logs2 @ [Tpl ''Sending delete command for VM {}'' [vm_vmid vm]]
      in
      bind (fetchWithCurl P (vmRequest ''DELETE'' (vmUrl apiUrl node (vm_vmid vm))
                               ticket csrfToken skipTlsVerify)) (\<lambda>response.
        if \<not> ok response
        then throw (Error (Tpl ''Failed to delete VM: {} {}''
                     [JNum (rs_status response), JStr (rs_text response)]))
        else
          bind (lift (json_data response)) (\<lambda>upid.
          let logs4 = logs3 @ [Tpl ''Delete task initiated, waiting for completion'' []] in
          bind (waitForTask P apiUrl node upid ticket csrfToken (nullish skipTlsVerify True))
            (\<lambda>taskResult.
          let logs5 = logs4 @
                [if success taskResult
                 then Tpl ''VM {} deleted successfully ({} polls)''
                        [vm_vmid vm, JNum (int (pollCount taskResult))]
                 else Tpl ''VM {} deletion failed: {}'' [vm_vmid vm, exitstatus taskResult]] in
          bind (writeResource P ''vm'' (vm_name vm)
                 [(''vmid'', vm_vmid vm), (''vmName'', vm_name vm), (''status'', JStr ''deleted''),
                  (''ip'', JNull), (''success'', JBool (success taskResult))]
                 logs5) (\<lambda>handle.
            ret [handle])))))"

definition delete :: "'w platform \<Rightarrow> globalArgs \<Rightarrow> exec_context \<Rightarrow> string \<Rightarrow> ('w, nat list) prog" where
  "delete P globalArgs context vmName =
     (let apiUrl = g_apiUrl globalArgs;
          node = g_node globalArgs;
          skipTlsVerify = g_skipTlsVerify globalArgs;
          logs0 = [Tpl ''Deleting VM {} on node {}'' [JStr vmName, JStr node]]
      in
      bind (resolveAuth P globalArgs context authOpts) (\<lambda>auth.
      let ticket = a_ticket auth; csrfToken = a_csrfToken auth in
      bind (resolveVm P apiUrl node vmName ticket csrfToken skipTlsVerify) (\<lambda>vm.
      let logs1 = logs0 @ [Tpl ''Found VM {} -> vmid {} [{}]'' [JStr vmName, vm_vmid vm, vm_status vm]] in
      bind
        (if vm_status vm \<noteq> JStr ''stopped''
         then bind (stopBeforeDelete P apiUrl node vm ticket csrfToken skipTlsVerify) (\<lambda>line.
                ret (logs1 @ [Tpl ''VM is {}, stopping first'' [vm_status vm], line]))
         else ret logs1) (\<lambda>logs2.
        deleteVm P globalArgs ticket csrfToken vm logs2))))"

text \<open>The \<^verbatim>\<open>for (const rv of rawVms)\<close> of \<^verbatim>\<open>sync\<close>, with the \<open>logs\<close> and \<open>handles\<close> arrays it
  appends to; it returns the handles.\<close>

fun sync_loop ::
  "'w platform \<Rightarrow> globalArgs \<Rightarrow> jsval \<Rightarrow> jsval \<Rightarrow> jsval list \<Rightarrow> tstring list \<Rightarrow> nat list \<Rightarrow>
   ('w, nat list) prog" where
  "sync_loop P globalArgs ticket csrfToken [] logs handles = ret handles"
| "sync_loop P globalArgs ticket csrfToken (rv # rest) logs handles =
     bind (lift (getprop rv ''status'')) (\<lambda>status.
     bind (if status = JStr ''running''
           then bind (getVmIpWithRetry P (g_apiUrl globalArgs) (g_node globalArgs) (optprop rv ''vmid'')
                        ticket csrfToken (g_skipTlsVerify globalArgs) 5 2) (\<lambda>found. ret (jsip found))
           else ret JNull) (\<lambda>ip.
     let vmName = (if truthy (optprop rv ''name'') then optprop rv ''name''
                   else JTpl ''vm-{}'' [optprop rv ''vmid'']);
         logs1 = logs @
           [Tpl ''  {} (vmid {}) [{}]{ ip=}{ mem=Math.round(/1024**3)GB}''
              [vmName, optprop rv ''vmid'', status,
               if truthy ip then ip else JStr [],
               if truthy (optprop rv ''maxmem'') then optprop rv ''maxmem'' else JStr []]] in
     bind (writeResource P ''vm'' vmName
            [(''vmid'', optprop rv ''vmid''), (''vmName'', vmName), (''status'', status), (''ip'', ip),
             (''maxmem'', optprop rv ''maxmem''), (''maxcpu'', optprop rv ''maxcpu'')]
            logs1) (\<lambda>handle.
     sync_loop P globalArgs ticket csrfToken rest logs1 (handles @ [handle]))))"

text \<open>\<^verbatim>\<open>rawVms.length\<close> is read for the log line only, where it stays inside the template; the
  read throws on \<^verbatim>\<open>null\<close> and \<^verbatim>\<open>undefined\<close>. The last log line of the source is pushed after
  the last write and reaches no resource version.\<close>

definition sync :: "'w platform \<Rightarrow> globalArgs \<Rightarrow> exec_context \<Rightarrow> ('w, nat list) prog" where
  "sync P globalArgs context =
     (let apiUrl = g_apiUrl globalArgs;
          node = g_node globalArgs;
          skipTlsVerify = g_skipTlsVerify globalArgs;
          logs0 = [Tpl ''Syncing all VMs from node {}'' [JStr node]]
      in
      bind (resolveAuth P globalArgs context authOpts) (\<lambda>auth.
      let ticket = a_ticket auth; csrfToken = a_csrfToken auth in
      bind (fetchWithCurl P (listRequest apiUrl node ticket csrfToken skipTlsVerify)) (\<lambda>listResponse.
        if \<not> ok listResponse
        then throw (Error (Tpl ''Failed to list VMs: {} {}''
                     [JNum (rs_status listResponse), JStr (rs_text listResponse)]))
        else
          bind (lift (json_data listResponse)) (\<lambda>rawVms.
          bind (lift (getprop rawVms ''length'')) (\<lambda>len.
          let logs1 = logs0 @ [Tpl ''Found {.length} VMs, resolving IPs for running VMs'' [rawVms]] in
          bind (lift (iterate rawVms)) (\<lambda>rvs.
            sync_loop P globalArgs ticket csrfToken rvs logs1 []))))))"


section \<open>Observing a run\<close>

definition url_text :: "request \<Rightarrow> string" where
  "url_text rq = (case rq_url rq of Tpl t vs \<Rightarrow> t)"

text \<open>The credential exchange of \<^verbatim>\<open>resolveAuth\<close>.\<close>

definition is_ticket_exchange :: "request \<Rightarrow> bool" where
  "is_ticket_exchange rq = (rq_method rq = ''POST'' \<and> url_text rq = ''{}/api2/json/access/ticket'')"

definition is_task_poll :: "request \<Rightarrow> bool" where
  "is_task_poll rq =
     (rq_method rq = ''GET'' \<and>
      url_text rq = ''{}/api2/json/nodes/{}/tasks/{encodeURIComponent}/status'')"

definition is_agent_query :: "request \<Rightarrow> bool" where
  "is_agent_query rq =
     (rq_method rq = ''GET'' \<and>
      url_text rq = ''{}/api2/json/nodes/{}/qemu/{}/agent/network-get-interfaces'')"

definition is_start_call :: "request \<Rightarrow> bool" where
  "is_start_call rq =
     (rq_method rq = ''POST'' \<and> url_text rq = ''{}/api2/json/nodes/{}/qemu/{}/status/start'')"

definition is_stop_call :: "request \<Rightarrow> bool" where
  "is_stop_call rq =
     (rq_method rq = ''POST'' \<and> url_text rq = ''{}/api2/json/nodes/{}/qemu/{}/status/stop'')"

definition is_delete_call :: "request \<Rightarrow> bool" where
  "is_delete_call rq =
     (rq_method rq = ''DELETE'' \<and> url_text rq = ''{}/api2/json/nodes/{}/qemu/{}'')"

definition is_create_call :: "request \<Rightarrow> bool" where
  "is_create_call rq =
     (rq_method rq = ''POST'' \<and> url_text rq = ''{}/api2/json/nodes/{}/qemu'')"

text \<open>A call that changes the hypervisor: anything but a \<^verbatim>\<open>GET\<close> and the credential exchange.\<close>

definition is_mutation :: "request \<Rightarrow> bool" where
  "is_mutation rq = (rq_method rq \<noteq> ''GET'' \<and> \<not> is_ticket_exchange rq)"

text \<open>The exchanges made between two states of one run.\<close>

definition new_trace :: "'w state \<Rightarrow> 'w state \<Rightarrow> (request \<times> (error + response)) list" where
  "new_trace s s' = drop (length (trace s)) (trace s')"

definition new_written :: "'w state \<Rightarrow> 'w state \<Rightarrow> resource list" where
  "new_written s s' = drop (length (written s)) (written s')"

text \<open>What the lifecycle methods resolve first: the session, then the VM by name. \<open>None\<close> when
  either step throws.\<close>

definition resolved ::
  "'w platform \<Rightarrow> globalArgs \<Rightarrow> exec_context \<Rightarrow> string \<Rightarrow> 'w state \<Rightarrow> (auth \<times> vm \<times> 'w state) option" where
  "resolved P globalArgs context vmName s =
     (case resolveAuth P globalArgs context authOpts s of
        Some (Inr a, s1) \<Rightarrow>
          (case resolveVm P (g_apiUrl globalArgs) (g_node globalArgs) vmName
                  (a_ticket a) (a_csrfToken a) (g_skipTlsVerify globalArgs) s1 of
             Some (Inr v, s2) \<Rightarrow> Some (a, v, s2)
           | _ \<Rightarrow> None)
      | _ \<Rightarrow> None)"

text \<open>
  The task a call starts and the operation waits for: the call is answered with a 2xx status
  and a task id, and \<^verbatim>\<open>waitForTask\<close> returns. The result of the wait and the state after it;
  \<open>None\<close> when the call fails, or the wait throws or never ends.
\<close>

definition awaited ::
  "'w platform \<Rightarrow> globalArgs \<Rightarrow> auth \<Rightarrow> request \<Rightarrow> 'w state \<Rightarrow> (taskResult \<times> 'w state) option" where
  "awaited P globalArgs a rq s =
     (case fetchWithCurl P rq s of
        Some (Inr response, s1) \<Rightarrow>
          if ok response
          then (case json_data response of
                  Inr upid \<Rightarrow>
                    (case waitForTask P (g_apiUrl globalArgs) (g_node globalArgs) upid
                            (a_ticket a) (a_csrfToken a)
                            (nullish (g_skipTlsVerify globalArgs) True) s1 of
                       Some (Inr taskResult, s2) \<Rightarrow> Some (taskResult, s2)
                     | _ \<Rightarrow> None)
                | Inl e \<Rightarrow> None)
          else None
      | _ \<Rightarrow> None)"

section \<open>A scripted platform for examples\<close>

text \<open>
  A world for concrete runs: curl answers the requests in order from a list of prepared
  replies (and fails once the list is used up), sleeping advances the clock by the time asked
  for, and the data directory is a table.
\<close>

record sim =
  sim_clock :: int
  sim_replies :: "(error + response) list"
  sim_dirs :: "(tstring \<times> dirent list) list"
  sim_files :: "(tstring \<times> textfile) list"

definition simP :: "sim platform" where
  "simP =
     \<lparr>curl = (\<lambda>rq w. case sim_replies w of
                        [] \<Rightarrow> (Inl (Error (Tpl ''curl failed with code {}: {}'' [JNum 7, JStr []])), w)
                      | r # rs \<Rightarrow> (r, w\<lparr>sim_replies := rs\<rparr>)),
      date_now = sim_clock,
      set_timeout = (\<lambda>ms w. w\<lparr>sim_clock := sim_clock w + max 0 ms\<rparr>),
      read_dir = (\<lambda>p w. map_of (sim_dirs w) p),
      read_text_file = (\<lambda>p w. map_of (sim_files w) p),
      date_parse = (\<lambda>t. if t = ''2026-01-01T00:00:00.000Z'' then Some 1767225600000 else None)\<rparr>"

definition sim0 :: "(error + response) list \<Rightarrow> sim state" where
  "sim0 replies =
     \<lparr>world = \<lparr>sim_clock = 0, sim_replies = replies, sim_dirs = [], sim_files = []\<rparr>,
      trace = [], written = []\<rparr>"

definition reply :: "int \<Rightarrow> jsval \<Rightarrow> error + response" where
  "reply code v =
     Inr \<lparr>rs_status = code, rs_statusText = ''HTTP/1.1'', rs_text = [], rs_json = Some v\<rparr>"

text \<open>The list endpoint's answer with one VM, \<open>alpha\<close>, vmid 101.\<close>

definition vmList :: "string \<Rightarrow> jsval" where
  "vmList st =
     JObj [(''data'', JArr [JObj [(''vmid'', JNum 101), (''name'', JStr ''alpha''),
                                  (''status'', JStr st)]])]"

text \<open>A task-status answer: the task has ended with the given exit status.\<close>

definition taskDone :: "string \<Rightarrow> jsval" where
  "taskDone ex = JObj [(''data'', JObj [(''status'', JStr ''stopped''), (''exitstatus'', JStr ex)])]"

definition upidReply :: jsval where
  "upidReply = JObj [(''data'', JStr ''UPID:pve:1'')]"

text \<open>Connection arguments with an explicit session, and the execution context.\<close>

definition g0 :: globalArgs where
  "g0 = \<lparr>g_apiUrl = ''https://10.0.0.4:8006'', g_node = ''pve'', g_ticket = Some ''TICKET'',
         g_csrfToken = Some ''CSRF'', g_skipTlsVerify = Some True, g_username = None,
         g_password = None, g_realm = None\<rparr>"

definition ctx0 :: exec_context where
  "ctx0 = \<lparr>c_repoDir = ''/repo'', c_definition_id = ''fleet''\<rparr>"

section \<open>Notions of the specification\<close>











text \<open>What the answer to a task-status poll reports: the exit status, once it says the task
  has ended; \<open>None\<close> for a poll that failed or found the task still running.\<close>

definition poll_exit :: "error + response \<Rightarrow> jsval option" where
  "poll_exit r =
     (case r of
        Inl e \<Rightarrow> None
      | Inr response \<Rightarrow>
          if ok response
          then (case json_data response of
                  Inl e \<Rightarrow> None
                | Inr d \<Rightarrow>
                    if optprop d ''status'' = JStr ''stopped''
                    then Some (optprop d ''exitstatus'')
                    else None)
          else None)"

text \<open>The same for any exchange of a trace: \<open>None\<close> unless it is a task-status poll.\<close>

definition task_exit :: "request \<times> (error + response) \<Rightarrow> jsval option" where
  "task_exit x = (if is_task_poll (fst x) then poll_exit (snd x) else None)"

text \<open>How the result of \<^verbatim>\<open>waitForTask\<close> relates to the answer of its last poll.\<close>

definition task_outcome :: "error + response \<Rightarrow> error + taskResult \<Rightarrow> bool" where
  "task_outcome x r =
     (case r of
        Inl e \<Rightarrow> poll_exit x = None
      | Inr tr \<Rightarrow> poll_exit x = Some (exitstatus tr) \<and> success tr = (exitstatus tr = JStr ''OK''))"

text \<open>The address of an entry of an interface's address list, when the entry is IPv4.\<close>

definition ipv4_of :: "jsval \<Rightarrow> string option" where
  "ipv4_of ip =
     (if optprop ip ''ip-address-type'' = JStr ''ipv4''
      then (case optprop ip ''ip-address'' of JStr a \<Rightarrow> Some a | _ \<Rightarrow> None)
      else None)"

text \<open>The IPv4 addresses an interface reports, in the order it reports them.\<close>

definition ipv4_addresses :: "jsval \<Rightarrow> string list" where
  "ipv4_addresses iface =
     List.map_filter ipv4_of
       (case iterate (optprop iface ''ip-addresses'') of Inl e \<Rightarrow> [] | Inr ips \<Rightarrow> ips)"

text \<open>An address of 127.0.0.0/8 in dotted notation: its first component is 127.\<close>

definition in_loopback_range :: "string \<Rightarrow> bool" where
  "in_loopback_range a = (takeWhile (\<lambda>c. c \<noteq> CHR ''.'') a = ''127'' \<and> CHR ''.'' \<in> set a)"

text \<open>The addresses discovery may return for a guest-agent answer, in scan order: the IPv4
  addresses outside the loopback range of the interfaces not named \<open>lo\<close>.\<close>

definition candidates :: "jsval list \<Rightarrow> string list" where
  "candidates ifaces =
     concat (map (\<lambda>iface. if optprop iface ''name'' = JStr ''lo'' then []
                          else filter (\<lambda>a. \<not> in_loopback_range a) (ipv4_addresses iface))
                 ifaces)"

text \<open>The interfaces a guest-agent exchange reports; none when the exchange failed or its
  answer has no list.\<close>

definition reported_interfaces :: "error + response \<Rightarrow> jsval list" where
  "reported_interfaces r =
     (case r of
        Inl e \<Rightarrow> []
      | Inr response \<Rightarrow>
          if ok response
          then (case json_data response of
                  Inl e \<Rightarrow> []
                | Inr d \<Rightarrow>
                    (case iterate (optprop d ''result'') of Inl e \<Rightarrow> [] | Inr ifaces \<Rightarrow> ifaces))
          else [])"

text \<open>The clock of a platform never runs backwards while curl runs, and a sleep lasts at
  least the time asked for.\<close>

definition clock_ok :: "'w platform \<Rightarrow> bool" where
  "clock_ok P =
     ((\<forall>rq w. date_now P w \<le> date_now P (snd (curl P rq w)))
      \<and> (\<forall>ms w. date_now P w + ms \<le> date_now P (set_timeout P ms w)))"

text \<open>No exchange of the list gave discovery an address.\<close>

definition found_none :: "(request \<times> (error + response)) list \<Rightarrow> bool" where
  "found_none xs = (filter (\<lambda>x. poll_result (snd x) \<noteq> None) xs = [])"

text \<open>A guest-agent answer: the loopback interface, and \<open>eth0\<close> with an IPv6 address, a
  loopback alias and 10.0.0.50.\<close>

definition agentReply :: jsval where
  "agentReply =
     JObj [(''data'', JObj [(''result'', JArr
       [JObj [(''name'', JStr ''lo''),
              (''ip-addresses'', JArr [JObj [(''ip-address-type'', JStr ''ipv4''),
                                             (''ip-address'', JStr ''127.0.0.1'')],
                                       JObj [(''ip-address-type'', JStr ''ipv4''),
                                             (''ip-address'', JStr ''10.9.9.9'')]])],
        JObj [(''name'', JStr ''eth0''),
              (''ip-addresses'', JArr [JObj [(''ip-address-type'', JStr ''ipv6''),
                                             (''ip-address'', JStr ''fe80::1'')],
                                       JObj [(''ip-address-type'', JStr ''ipv4''),
                                             (''ip-address'', JStr ''127.0.0.2'')],
                                       JObj [(''ip-address-type'', JStr ''ipv4''),
                                             (''ip-address'', JStr ''10.0.0.50'')]])]])])]"

text \<open>The exit status that the last exchange of a list reports, when that exchange is a
  task-status poll that found the task ended.\<close>

definition trace_exit :: "(request \<times> (error + response)) list \<Rightarrow> jsval option" where
  "trace_exit xs = (if xs = [] then None else task_exit (last xs))"

text \<open>The same for a run from \<open>s\<close> to \<open>s'\<close>: what the task the run waited for last reported,
  when nothing was requested after it.\<close>

definition last_exit :: "'w state \<Rightarrow> 'w state \<Rightarrow> jsval option" where
  "last_exit s s' = trace_exit (new_trace s s')"

text \<open>The boot orders that the create calls of a trace ask for.\<close>

definition requested_boot :: "(request \<times> (error + response)) list \<Rightarrow> tstring list" where
  "requested_boot xs =
     List.map_filter
       (\<lambda>x. if is_create_call (fst x)
            then (case rq_body (fst x) of None \<Rightarrow> None | Some ps \<Rightarrow> map_of ps ''boot'')
            else None)
       xs"

text \<open>The devices of a boot order \<^verbatim>\<open>order=dev1;dev2;...\<close>, first to last.\<close>

fun split_semi :: "string \<Rightarrow> string \<Rightarrow> string list" where
  "split_semi acc [] = [rev acc]"
| "split_semi acc (c # cs) =
     (if c = CHR '';'' then rev acc # split_semi [] cs else split_semi (c # acc) cs)"

definition boot_devices :: "tstring \<Rightarrow> string list" where
  "boot_devices b =
     (case b of Tpl t vs \<Rightarrow> if take 6 t = ''order='' then split_semi [] (drop 6 t) else [])"

text \<open>PXE-first: the network device is tried first. Disk-first: the disk is.\<close>

definition pxe_first :: "tstring \<Rightarrow> bool" where
  "pxe_first b = (case boot_devices b of [] \<Rightarrow> False | dev # rest \<Rightarrow> dev = ''net0'')"

definition disk_first :: "tstring \<Rightarrow> bool" where
  "disk_first b = (case boot_devices b of [] \<Rightarrow> False | dev # rest \<Rightarrow> dev = ''scsi0'')"

text \<open>Exchanges that neither change the hypervisor nor poll a task nor query the guest agent:
  what session and VM resolution make.\<close>

definition quiet :: "(request \<times> (error + response)) list \<Rightarrow> bool" where
  "quiet xs =
     (filter (\<lambda>x. is_mutation (fst x) \<or> is_task_poll (fst x) \<or> is_agent_query (fst x)) xs = [])"

text \<open>Arguments of \<open>start\<close> for the VM \<open>alpha\<close>: a wait window of zero seconds, and the
  defaults.\<close>

definition argsZero :: startArgs where
  "argsZero = \<lparr>sa_vmName = ''alpha'', sa_waitSeconds = Some 0, sa_pollInterval = None\<rparr>"

definition argsAlpha :: startArgs where
  "argsAlpha = \<lparr>sa_vmName = ''alpha'', sa_waitSeconds = None, sa_pollInterval = None\<rparr>"


text \<open>The steps that \<open>start\<close>, \<open>stop\<close>, \<open>create\<close> and \<open>delete\<close> share, named for the proofs: a
  call whose answer must be 2xx, then the wait for the task it names, then a continuation.\<close>

definition callAndWait ::
  "'w platform \<Rightarrow> request \<Rightarrow> (response \<Rightarrow> error) \<Rightarrow> string \<Rightarrow> string \<Rightarrow> jsval \<Rightarrow> jsval \<Rightarrow> bool \<Rightarrow>
   (taskResult \<Rightarrow> ('w, 'a) prog) \<Rightarrow> ('w, 'a) prog" where
  "callAndWait P rq failure apiUrl node ticket csrfToken skipTlsVerify K =
     bind (fetchWithCurl P rq) (\<lambda>response.
       if \<not> ok response then throw (failure response)
       else bind (lift (json_data response)) (\<lambda>upid.
              bind (waitForTask P apiUrl node upid ticket csrfToken skipTlsVerify) K))"

text \<open>The boot order \<open>create\<close> asks for.\<close>

definition bootOrder :: "createArgs \<Rightarrow> tstring" where
  "bootOrder args = Tpl (if ca_diskSize args = Some 0 then ''order=net0'' else ''order=net0;scsi0'') []"

text \<open>A script of three answers: a first one, then an accepted call and its task, ended
  with the given exit status.\<close>

definition taskScript :: "jsval \<Rightarrow> string \<Rightarrow> (error + response) list" where
  "taskScript first ex = [reply 200 first, reply 200 upidReply, reply 200 (taskDone ex)]"

definition nextId :: jsval where
  "nextId = JObj [(''data'', JStr ''100'')]"

text \<open>Arguments of \<open>create\<close>: a 32 GB disk, and no disk.\<close>

definition argsDisk :: createArgs where
  "argsDisk = \<lparr>ca_vmName = ''beta'', ca_memory = None, ca_cores = None, ca_sockets = None,
               ca_diskSize = Some 32, ca_diskStorage = None, ca_networkBridge = None,
               ca_osType = None\<rparr>"

definition argsPxe :: createArgs where
  "argsPxe = argsDisk\<lparr>ca_diskSize := Some 0\<rparr>"

text \<open>A script for \<open>delete\<close> on a running \<open>alpha\<close>: the stop call is answered with HTTP 500, the
  delete call is accepted and its task ends with OK.\<close>

definition deleteScript :: "(error + response) list" where
  "deleteScript =
     [reply 200 (vmList ''running''), reply 500 JNull, reply 200 upidReply,
      reply 200 (taskDone ''OK'')]"

text \<open>A script for \<open>delete\<close> on a running \<open>alpha\<close>: the stop call is accepted and its task ends
  with \<^verbatim>\<open>ERR\<close>, then the delete call is accepted and its task ends with OK.\<close>

definition stopErrScript :: "(error + response) list" where
  "stopErrScript =
     [reply 200 (vmList ''running''), reply 200 upidReply, reply 200 (taskDone ''ERR''),
      reply 200 upidReply, reply 200 (taskDone ''OK'')]"

text \<open>The same with a stop call on which curl fails.\<close>

definition deleteScriptThrow :: "(error + response) list" where
  "deleteScriptThrow =
     [reply 200 (vmList ''running''),
      Inl (Error (Tpl ''curl failed with code {}: {}'' [JNum 7, JStr []])),
      reply 200 upidReply, reply 200 (taskDone ''OK'')]"

text \<open>An entry of the list that \<open>sync\<close> can read as the record of a VM: anything but
  \<^verbatim>\<open>null\<close> and \<^verbatim>\<open>undefined\<close>, on which reading a property throws.\<close>

definition is_record :: "jsval \<Rightarrow> bool" where
  "is_record rv = (rv \<noteq> JNull \<and> rv \<noteq> JUndefined)"

text \<open>
  The resource version of a listed VM: of kind \<open>vm\<close>, under the VM's name (or \<^verbatim>\<open>vm-\<close> and its
  id when it has none), with the id and the status as listed, and with an address that is
  null unless the VM is listed as running.
\<close>

definition vm_version :: "jsval \<Rightarrow> resource \<Rightarrow> bool" where
  "vm_version rv res =
     (r_kind res = ''vm''
      \<and> r_name res = (if truthy (optprop rv ''name'') then optprop rv ''name''
                       else JTpl ''vm-{}'' [optprop rv ''vmid''])
      \<and> map_of (r_attrs res) ''vmid'' = Some (optprop rv ''vmid'')
      \<and> map_of (r_attrs res) ''status'' = Some (optprop rv ''status'')
      \<and> (\<exists>ip. map_of (r_attrs res) ''ip'' = Some (jsip ip))
      \<and> (optprop rv ''status'' \<noteq> JStr ''running'' \<longrightarrow> map_of (r_attrs res) ''ip'' = Some JNull))"

text \<open>A list of two VMs, \<open>alpha\<close> stopped and \<open>beta\<close> running, and a script for \<open>sync\<close>: the
  list, then the guest agent of \<open>beta\<close> answers.\<close>

definition twoVms :: "jsval list" where
  "twoVms =
     [JObj [(''vmid'', JNum 101), (''name'', JStr ''alpha''), (''status'', JStr ''stopped'')],
      JObj [(''vmid'', JNum 102), (''name'', JStr ''beta''), (''status'', JStr ''running'')]]"

definition syncScript :: "(error + response) list" where
  "syncScript = [reply 200 (JObj [(''data'', JArr twoVms)]), reply 200 agentReply]"

text \<open>The same list with a \<^verbatim>\<open>null\<close> entry between the two VMs.\<close>

definition syncScriptNull :: "(error + response) list" where
  "syncScriptNull =
     [reply 200 (JObj [(''data'', JArr [hd twoVms, JNull, last twoVms])]), reply 200 agentReply]"

section \<open>Running the sequencing operators\<close>

lemma ret_apply: "ret x s = Some (Inr x, s)"
  by (simp add: ret_def)

lemma throw_apply: "throw e s = Some (Inl e, s)"
  by (simp add: throw_def)

lemma lift_apply: "lift r s = Some (r, s)"
  by (simp add: lift_def)

lemma bind_Inr: "m s = Some (Inr x, s1) \<Longrightarrow> bind m f s = f x s1"
  by (simp add: bind_def)

lemma bind_Inl: "m s = Some (Inl e, s1) \<Longrightarrow> bind m f s = Some (Inl e, s1)"
  by (simp add: bind_def)

lemma bind_None: "m s = None \<Longrightarrow> bind m f s = None"
  by (simp add: bind_def)

lemma bindE:
  assumes "bind m f s = Some (r, s')"
  obtains (Thrown) e where "m s = Some (Inl e, s')" "r = Inl e"
        | (Returned) x s1 where "m s = Some (Inr x, s1)" "f x s1 = Some (r, s')"
  using assms by (auto simp: bind_def split: option.splits sum.splits prod.splits)

lemma bind_lift_Inr: "bind (lift (Inr x)) f = f x"
  by (simp add: bind_def lift_def)

lemma bind_lift_Inl: "bind (lift (Inl e)) f = throw e"
  by (simp add: bind_def lift_def throw_def)

lemma bind_ret: "bind (ret x) f = f x"
  by (simp add: bind_def ret_def)

lemma bind_throw: "bind (throw e) f = throw e"
  by (simp add: bind_def throw_def)

lemma fetch_apply:
  "fetchWithCurl P rq s = Some (r, s') \<longleftrightarrow>
     (\<exists>w'. curl P rq (world s) = (r, w') \<and> s' = s\<lparr>world := w', trace := trace s @ [(rq, r)]\<rparr>)"
  by (auto simp: fetchWithCurl_def split: prod.splits)

text \<open>Unfolding a run on the scripted platform.\<close>

lemmas sim_simps = simP_def sim0_def reply_def vmList_def taskDone_def upidReply_def g0_def ctx0_def

lemmas run_simps = bind_def ret_def throw_def lift_def catch_def fetchWithCurl_def
  writeResource_def sleep_def getprop_def optprop_def json_def json_data_def ok_def truthy_def
  jsopt_def nullish_def iterate_def

section \<open>What session and VM resolution do to the state\<close>

lemma passwordAuth_effect:
  assumes "passwordAuth P g s = Some (r, s')"
  shows "written s' = written s \<and>
         (trace s' = trace s \<or>
          (\<exists>x. trace s' = trace s @ [x] \<and> rq_method (fst x) = ''POST'' \<and>
               rq_url (fst x) = ticketUrl (g_apiUrl g)))"
  using assms
  by (auto simp: passwordAuth_def throw_apply ret_apply lift_apply Let_def fetch_apply
      elim!: bindE split: if_splits)

lemma resolveAuth_effect:
  assumes "resolveAuth P g ctx opts s = Some (r, s')"
  shows "written s' = written s \<and>
         (trace s' = trace s \<or>
          (\<exists>x. trace s' = trace s @ [x] \<and> rq_method (fst x) = ''POST'' \<and>
               rq_url (fst x) = ticketUrl (g_apiUrl g)))"
  using assms passwordAuth_effect[of P g s r s']
  by (auto simp: resolveAuth_def ret_apply split: if_splits option.splits)

lemma resolveVm_effect:
  assumes "resolveVm P apiUrl node vmName t c sk s = Some (r, s')"
  shows "written s' = written s \<and>
         (\<exists>x. trace s' = trace s @ [(listRequest apiUrl node t c sk, x)])"
  using assms
  by (auto simp: resolveVm_def throw_apply ret_apply lift_apply fetch_apply
      elim!: bindE split: if_splits jsval.splits option.splits)

lemma resolvedD:
  assumes "resolved P g ctx vmName s = Some (a, v, s2)"
  obtains s1 where "resolveAuth P g ctx authOpts s = Some (Inr a, s1)"
    "resolveVm P (g_apiUrl g) (g_node g) vmName (a_ticket a) (a_csrfToken a) (g_skipTlsVerify g) s1
       = Some (Inr v, s2)"
  using assms by (auto simp: resolved_def split: option.splits sum.splits prod.splits)

lemma listRequest_kind:
  "\<not> is_mutation (listRequest u n t c k)" "\<not> is_task_poll (listRequest u n t c k)"
  by (simp_all add: is_mutation_def is_task_poll_def listRequest_def url_text_def listUrl_def)

lemma ticket_kind:
  assumes "rq_method rq = ''POST''" "rq_url rq = ticketUrl u"
  shows "\<not> is_mutation rq \<and> \<not> is_task_poll rq"
  using assms
  by (simp add: is_mutation_def is_task_poll_def is_ticket_exchange_def url_text_def ticketUrl_def)

lemma resolved_effect:
  assumes "resolved P g ctx vmName s = Some (a, v, s2)"
  shows "written s2 = written s"
    and "filter (\<lambda>x. is_mutation (fst x) \<or> is_task_poll (fst x)) (new_trace s s2) = []"
proof -
  from assms obtain s1 where A: "resolveAuth P g ctx authOpts s = Some (Inr a, s1)"
    and V: "resolveVm P (g_apiUrl g) (g_node g) vmName (a_ticket a) (a_csrfToken a)
              (g_skipTlsVerify g) s1 = Some (Inr v, s2)"
    by (rule resolvedD)
  from resolveAuth_effect[OF A] resolveVm_effect[OF V]
  show "written s2 = written s" by simp
  from resolveAuth_effect[OF A] resolveVm_effect[OF V]
  show "filter (\<lambda>x. is_mutation (fst x) \<or> is_task_poll (fst x)) (new_trace s s2) = []"
    by (auto simp: new_trace_def listRequest_kind ticket_kind)
qed

section \<open>stop\<close>

text \<open>
  C5. When the VM resolves with status \<open>stopped\<close>, \<open>stop\<close> returns one handle, the run makes
  no hypervisor mutation call and no task poll (the exchanges of the whole run, resolution
  included, hold none), and exactly one resource version is written, with \<open>success\<close> true,
  \<open>status\<close> "stopped" and \<open>ip\<close> null.
\<close>

theorem stop_already_stopped:
  assumes "resolved P g ctx vmName s = Some (a, v, s2)"
      and "vm_status v = JStr ''stopped''"
  shows "\<exists>s' res. stop P g ctx vmName s = Some (Inr [length (written s)], s')
           \<and> written s' = written s @ [res]
           \<and> r_kind res = ''vm'' \<and> r_name res = vm_name v
           \<and> map_of (r_attrs res) ''success'' = Some (JBool True)
           \<and> map_of (r_attrs res) ''status'' = Some (JStr ''stopped'')
           \<and> map_of (r_attrs res) ''ip'' = Some JNull
           \<and> filter (\<lambda>x. is_mutation (fst x) \<or> is_task_poll (fst x)) (new_trace s s') = []"
proof -
  from assms(1) obtain s1 where A: "resolveAuth P g ctx authOpts s = Some (Inr a, s1)"
    and V: "resolveVm P (g_apiUrl g) (g_node g) vmName (a_ticket a) (a_csrfToken a)
              (g_skipTlsVerify g) s1 = Some (Inr v, s2)"
    by (rule resolvedD)
  let ?res = "\<lparr>r_kind = ''vm'', r_name = vm_name v,
      r_attrs = [(''vmid'', vm_vmid v), (''vmName'', vm_name v), (''status'', JStr ''stopped''),
                (''ip'', JNull), (''success'', JBool True)],
      r_logs = [Tpl ''Stopping VM {} on node {}'' [JStr vmName, JStr (g_node g)],
                Tpl ''Found VM {} -> vmid {} [{}]'' [JStr vmName, vm_vmid v, vm_status v],
                Tpl ''VM is already stopped'' []],
      r_timestamp = date_now P (world s2)\<rparr>"
  let ?s' = "s2\<lparr>written := written s2 @ [?res]\<rparr>"
  have "stop P g ctx vmName s = Some (Inr [length (written s2)], ?s')"
    using assms(2) by (simp add: stop_def Let_def A V writeResource_def ret_apply bind_def)
  moreover have "new_trace s ?s' = new_trace s s2"
    by (simp add: new_trace_def)
  ultimately show ?thesis
    using resolved_effect[OF assms(1)] by (intro exI[of _ ?s'] exI[of _ ?res]) simp
qed


lemma resolved_alpha_stopped:
  "resolved simP g0 ctx0 ''alpha'' (sim0 [reply 200 (vmList ''stopped'')]) =
     Some (\<lparr>a_ticket = JStr ''TICKET'', a_csrfToken = JStr ''CSRF'', a_username = None,
             a_source = ''explicit'', a_freshAuth = False\<rparr>,
           \<lparr>vm_vmid = JNum 101, vm_name = JStr ''alpha'', vm_status = JStr ''stopped''\<rparr>,
           \<lparr>world = \<lparr>sim_clock = 0, sim_replies = [], sim_dirs = [], sim_files = []\<rparr>,
            trace = [(listRequest ''https://10.0.0.4:8006'' ''pve'' (JStr ''TICKET'') (JStr ''CSRF'')
                        (Some True),
                      reply 200 (vmList ''stopped''))],
            written = []\<rparr>)"
  by (simp add: resolved_def resolveAuth_def resolveVm_def authOpts_def sim_simps run_simps)

theorem stop_already_stopped_witness:
  "\<exists>s' res. stop simP g0 ctx0 ''alpha'' (sim0 [reply 200 (vmList ''stopped'')]) = Some (Inr [0], s')
           \<and> written s' = [res]
           \<and> r_kind res = ''vm'' \<and> r_name res = JStr ''alpha''
           \<and> map_of (r_attrs res) ''success'' = Some (JBool True)
           \<and> map_of (r_attrs res) ''status'' = Some (JStr ''stopped'')
           \<and> map_of (r_attrs res) ''ip'' = Some JNull
           \<and> filter (\<lambda>x. is_mutation (fst x) \<or> is_task_poll (fst x))
                (new_trace (sim0 [reply 200 (vmList ''stopped'')]) s') = []"
  using stop_already_stopped[OF resolved_alpha_stopped] by (simp add: sim0_def)

section \<open>resolveAuth\<close>

lemma fold_max_Max: "fold max vs (v::int) = Max (set (v # vs))"
proof (induction vs arbitrary: v)
  case Nil
  show ?case by simp
next
  case (Cons a vs)
  have "fold max (a # vs) v = fold max vs (max a v)" by simp
  also have "\<dots> = Max (set (max a v # vs))" by (rule Cons.IH)
  also have "\<dots> = Max (set (v # a # vs))"
    by (cases "vs = []") (auto simp: max.commute max.assoc max.left_commute)
  finally show ?case .
qed

lemma fold_number_max: "fold number_max (map Fin vs) (Fin a) = Fin (fold max vs a)"
  by (induction vs arbitrary: a) simp_all

lemma math_max_versions: "math_max (map Fin (v # vs)) = JNum (Max (set (v # vs)))"
  by (simp add: math_max_def num_val_def fold_number_max fold_max_Max del: Max_insert set_simps)



text \<open>Beyond \<open>2^53\<close> it gives the nearest double: the directory \<open>2^53 + 1\<close> is read as
  version \<open>2^53\<close>.\<close>

lemma parseInt10_rounds:
  "parseInt10 ''9007199254740993'' = Some (Fin 9007199254740992)"
  by (simp add: parseInt10_def is_space_def is_digit_def digits_value_def to_double_def Let_def
        bits.simps)



lemma passwordAuth_indep:
  "passwordAuth P (g\<lparr>g_ticket := a, g_csrfToken := b\<rparr>) =
   passwordAuth P (g\<lparr>g_ticket := a', g_csrfToken := b'\<rparr>)"
  by (simp add: passwordAuth_def)







text \<open>
  C9. A ticket without a CSRF token, or a CSRF token without a ticket, changes nothing: the
  resolution is the very function of the state that it is with neither supplied, so it goes on
  to the cache and password tiers, its result and its requests do not depend on the lone
  credential, and it raises nothing that the call without it would not raise.
\<close>

theorem partial_override_ignored:
  "resolveAuth P (g\<lparr>g_ticket := Some t, g_csrfToken := None\<rparr>) ctx opts =
     resolveAuth P (g\<lparr>g_ticket := None, g_csrfToken := None\<rparr>) ctx opts
   \<and> resolveAuth P (g\<lparr>g_ticket := None, g_csrfToken := Some c\<rparr>) ctx opts =
     resolveAuth P (g\<lparr>g_ticket := None, g_csrfToken := None\<rparr>) ctx opts"
  by (simp add: resolveAuth_def jsopt_def truthy_def
        passwordAuth_indep[where g=g and a="Some t" and b=None and a'=None and b'=None]
        passwordAuth_indep[where g=g and a=None and b="Some c" and a'=None and b'=None]
        cong: option.case_cong)

section \<open>waitForTask\<close>

text \<open>A finished wait wrote nothing, made one or more polls with its request, and its result
  is read off the answer to the last one.\<close>

lemma waitForTask_loop_effect:
  assumes "waitForTask_loop (P :: 'w platform) rq n s = Some y"
  shows "written (snd y) = written s \<and>
         (\<exists>xs. trace (snd y) = trace s @ xs \<and> xs \<noteq> [] \<and> set (map fst xs) \<subseteq> {rq} \<and>
               task_outcome (snd (last xs)) (fst y))"
proof -
  define Q :: "((('w platform \<times> request) \<times> nat) \<times> 'w state) \<Rightarrow> ((error + taskResult) \<times> 'w state) \<Rightarrow> bool"
    where "Q = (\<lambda>x y. written (snd y) = written (snd x) \<and>
         (\<exists>xs. trace (snd y) = trace (snd x) @ xs \<and> xs \<noteq> [] \<and>
               set (map fst xs) \<subseteq> {snd (fst (fst x))} \<and>
               task_outcome (snd (last xs)) (fst y)))"
  have "Q (((P, rq), n), s) y"
  proof (rule waitForTask_loop.raw_induct[where Pa = Q, OF _ assms])
    fix loop :: "'w platform \<Rightarrow> request \<Rightarrow> nat \<Rightarrow> 'w state \<Rightarrow> ((error + taskResult) \<times> 'w state) option"
    fix P rq n s y
    assume IH: "\<And>P rq n s y. loop P rq n s = Some y \<Longrightarrow> Q (((P, rq), n), s) y"
    assume body: "(case fetchWithCurl P rq s of
        None \<Rightarrow> None
      | Some (Inl e, s1) \<Rightarrow> Some (Inl e, s1)
      | Some (Inr response, s1) \<Rightarrow>
          if \<not> ok response
          then Some (Inl (Error (Tpl ''Task status check failed: {}'' [JNum (rs_status response)])), s1)
          else (case json response of
                  Inl e \<Rightarrow> Some (Inl e, s1)
                | Inr result \<Rightarrow>
                    (case getprop result ''data'' of
                       Inl e \<Rightarrow> Some (Inl e, s1)
                     | Inr d \<Rightarrow>
                         if optprop d ''status'' = JStr ''stopped''
                         then Some (Inr \<lparr>success = (optprop d ''exitstatus'' = JStr ''OK''),
                                         exitstatus = optprop d ''exitstatus'',
                                         pollCount = Suc n\<rparr>, s1)
                         else loop P rq (Suc n) (sleep P 1000 s1)))) = Some y"
    obtain r w' where C: "curl P rq (world s) = (r, w')" by force
    define s1 where "s1 = s\<lparr>world := w', trace := trace s @ [(rq, r)]\<rparr>"
    have F: "fetchWithCurl P rq s = Some (r, s1)"
      by (simp add: fetchWithCurl_def C s1_def)
    have S1: "written s1 = written s" "trace s1 = trace s @ [(rq, r)]"
      by (simp_all add: s1_def)
    show "Q (((P, rq), n), s) y"
    proof (cases "poll_exit r = None \<and> (\<exists>resp d. r = Inr resp \<and> ok resp \<and> json_data resp = Inr d)")
      case True
      then obtain resp d where R: "r = Inr resp" "ok resp" "json_data resp = Inr d"
        and N: "optprop d ''status'' \<noteq> JStr ''stopped''"
        by (auto simp: poll_exit_def split: if_splits)
      from R(3) obtain result where J: "json resp = Inr result" "getprop result ''data'' = Inr d"
        by (auto simp: json_data_def split: sum.splits)
      have "loop P rq (Suc n) (sleep P 1000 s1) = Some y"
        using body by (simp add: F R J N)
      from IH[OF this] obtain xs where
        X: "written (snd y) = written s" "trace (snd y) = trace s @ (rq, r) # xs" "xs \<noteq> []"
           "set (map fst xs) \<subseteq> {rq}" "task_outcome (snd (last xs)) (fst y)"
        by (auto simp: Q_def sleep_def S1)
      show ?thesis
        unfolding Q_def using X by (intro conjI exI[of _ "(rq, r) # xs"]) auto
    next
      case False
      from False body have "snd y = s1 \<and> task_outcome r (fst y)"
        by (auto simp: F task_outcome_def poll_exit_def json_data_def
                 split: sum.splits if_splits)
      then show ?thesis
        unfolding Q_def by (intro conjI exI[of _ "[(rq, r)]"]) (simp_all add: S1)
    qed
  qed
  then show ?thesis by (simp add: Q_def)
qed

section \<open>getVmIpWithRetry\<close>

lemma startsWith127_iff: "startsWith127 a \<longleftrightarrow> in_loopback_range a"
proof
  assume "startsWith127 a"
  then have "take 4 a = ''127.''" by (simp add: startsWith127_def)
  with append_take_drop_id[of 4 a] have A: "a = ''127.'' @ drop 4 a" by simp
  have G: "in_loopback_range (''127.'' @ r)" for r
    by (simp add: in_loopback_range_def)
  show "in_loopback_range a"
    by (subst A) (rule G)
next
  assume L: "in_loopback_range a"
  let ?p = "\<lambda>c. c \<noteq> CHR ''.''"
  from L have T: "takeWhile ?p a = ''127''" and D: "CHR ''.'' \<in> set a"
    by (simp_all add: in_loopback_range_def)
  from D have N: "dropWhile ?p a \<noteq> []" by auto
  define d where "d = tl (dropWhile ?p a)"
  from N hd_dropWhile[of ?p a] have E: "dropWhile ?p a = CHR ''.'' # d"
    unfolding d_def by (cases "dropWhile ?p a") simp_all
  from takeWhile_dropWhile_id[of ?p a] have "a = ''127'' @ CHR ''.'' # d"
    unfolding T E by simp
  then have "take 4 a = ''127.''"
    by simp
  then show "startsWith127 a" by (simp add: startsWith127_def)
qed

lemma scan_ips_step:
  assumes "scan_ips (ip # ips) = Inr found"
  shows "(case ipv4_of ip of
            None \<Rightarrow> scan_ips ips = Inr found
          | Some a \<Rightarrow> if in_loopback_range a then scan_ips ips = Inr found else found = Some a)"
proof -
  from assms obtain ty where T: "getprop ip ''ip-address-type'' = Inr ty"
    by (cases "getprop ip ''ip-address-type''") simp_all
  then have OT: "optprop ip ''ip-address-type'' = ty" by (simp add: optprop_def)
  show ?thesis
  proof (cases "ty = JStr ''ipv4''")
    case False
    with assms T OT show ?thesis by (simp add: ipv4_of_def)
  next
    case True
    from assms T True obtain a where A: "getprop ip ''ip-address'' = Inr a"
      by (cases "getprop ip ''ip-address''") simp_all
    then have OA: "optprop ip ''ip-address'' = a" by (simp add: optprop_def)
    from assms T True A obtain addr where S: "a = JStr addr"
      by (cases a) simp_all
    from assms T True A S OT OA show ?thesis
      by (simp add: ipv4_of_def startsWith127_iff split: if_splits)
  qed
qed

lemma scan_ips_candidates:
  "scan_ips ips = Inr found \<Longrightarrow>
     (case found of
        None \<Rightarrow> filter (\<lambda>a. \<not> in_loopback_range a) (List.map_filter ipv4_of ips) = []
      | Some a \<Rightarrow> filter (\<lambda>a. \<not> in_loopback_range a) (List.map_filter ipv4_of ips) \<noteq> [] \<and>
                  a = hd (filter (\<lambda>a. \<not> in_loopback_range a) (List.map_filter ipv4_of ips)))"
proof (induction ips)
  case Nil
  then show ?case by simp
next
  case (Cons ip ips)
  note st = scan_ips_step[OF Cons.prems]
  show ?case
  proof (cases "ipv4_of ip")
    case None
    with st have "scan_ips ips = Inr found" by simp
    from Cons.IH[OF this] None show ?thesis by (simp cong: option.case_cong)
  next
    case (Some a)
    show ?thesis
    proof (cases "in_loopback_range a")
      case True
      with st Some have "scan_ips ips = Inr found" by simp
      from Cons.IH[OF this] Some True show ?thesis by (simp cong: option.case_cong)
    next
      case False
      with st Some have "found = Some a" by simp
      with Some False show ?thesis by simp
    qed
  qed
qed

lemma scan_interfaces_candidates:
  "scan_interfaces ifaces = Inr found \<Longrightarrow>
     (case found of None \<Rightarrow> candidates ifaces = []
      | Some a \<Rightarrow> candidates ifaces \<noteq> [] \<and> a = hd (candidates ifaces))"
proof (induction ifaces)
  case Nil
  then show ?case by (simp add: candidates_def)
next
  case (Cons iface rest)
  show ?case
  proof (cases "optprop iface ''name'' = JStr ''lo''")
    case True
    then have G: "getprop iface ''name'' = Inr (JStr ''lo'')"
      by (auto simp: optprop_def split: sum.splits)
    have C: "candidates (iface # rest) = candidates rest"
      using True by (simp add: candidates_def)
    from Cons.prems have "scan_interfaces rest = Inr found"
      by (simp add: G)
    from Cons.IH[OF this] show ?thesis by (simp add: C cong: option.case_cong)
  next
    case False
    from Cons.prems obtain name where N: "getprop iface ''name'' = Inr name"
      by (cases "getprop iface ''name''") simp_all
    with False have NL: "name \<noteq> JStr ''lo''" by (simp add: optprop_def)
    from Cons.prems N NL obtain a where A: "getprop iface ''ip-addresses'' = Inr a"
      by (cases "getprop iface ''ip-addresses''") simp_all
    from Cons.prems N NL A obtain ips where I: "iterate (if truthy a then a else JArr []) = Inr ips"
      by (cases "iterate (if truthy a then a else JArr [])") simp_all
    from Cons.prems N NL A I obtain f where S: "scan_ips ips = Inr f"
      by (cases "scan_ips ips") simp_all
    from Cons.prems N NL A I S
    have F: "(case f of None \<Rightarrow> scan_interfaces rest = Inr found | Some addr \<Rightarrow> found = Some addr)"
      by (cases f) auto
    have ips: "(case iterate (optprop iface ''ip-addresses'') of Inl e \<Rightarrow> [] | Inr ips \<Rightarrow> ips) = ips"
    proof (cases "truthy a")
      case True
      with A I show ?thesis by (simp add: optprop_def)
    next
      case False
      with I have "ips = []" by (simp add: iterate_def)
      moreover from False have "(case iterate a of Inl e \<Rightarrow> [] | Inr ips \<Rightarrow> ips) = []"
        by (cases a) (simp_all add: truthy_def iterate_def)
      ultimately show ?thesis using A by (simp add: optprop_def)
    qed
    let ?here = "filter (\<lambda>a. \<not> in_loopback_range a) (List.map_filter ipv4_of ips)"
    have C: "candidates (iface # rest) = ?here @ candidates rest"
      using False by (simp add: candidates_def ipv4_addresses_def ips)
    show ?thesis
    proof (cases f)
      case None
      with F have "scan_interfaces rest = Inr found" by simp
      from Cons.IH[OF this] scan_ips_candidates[OF S] None show ?thesis
        by (simp add: C cong: option.case_cong)
    next
      case (Some addr)
      with F scan_ips_candidates[OF S] show ?thesis by (simp add: C)
    qed
  qed
qed

lemma poll_result_candidates:
  assumes "poll_result r = Some a"
  shows "candidates (reported_interfaces r) \<noteq> [] \<and> a = hd (candidates (reported_interfaces r))"
proof -
  from assms obtain resp where R: "r = Inr resp" "ok resp"
    by (cases r) (simp_all add: poll_result_def split: if_splits)
  from assms R obtain netResult where J: "json resp = Inr netResult"
    by (cases "json resp") (simp_all add: poll_result_def)
  from assms R J obtain d where D: "getprop netResult ''data'' = Inr d"
    by (cases "getprop netResult ''data''") (simp_all add: poll_result_def)
  let ?res = "optprop d ''result''"
  from assms R J D obtain ifaces where I: "iterate (if truthy ?res then ?res else JArr []) = Inr ifaces"
    by (cases "iterate (if truthy ?res then ?res else JArr [])") (simp_all add: poll_result_def Let_def)
  from assms R J D I have S: "scan_interfaces ifaces = Inr (Some a)"
    by (cases "scan_interfaces ifaces") (simp_all add: poll_result_def Let_def)
  have "ifaces = [] \<or> iterate ?res = Inr ifaces"
    using I by (auto simp: iterate_def split: if_splits)
  moreover have "ifaces \<noteq> []"
    using S by auto
  ultimately have "reported_interfaces r = ifaces"
    using R J D by (simp add: reported_interfaces_def json_data_def)
  with scan_interfaces_candidates[OF S] show ?thesis by simp
qed

lemma getVmIp_loop_effect:
  assumes "getVmIp_loop (P :: 'w platform) rq deadline pollInterval s = Some y"
  shows "written (snd y) = written s \<and>
         (\<exists>xs. trace (snd y) = trace s @ xs \<and> set (map fst xs) \<subseteq> {rq} \<and>
            (case fst y of
               Inl e \<Rightarrow> False
             | Inr None \<Rightarrow> deadline \<le> date_now P (world (snd y)) \<and> found_none xs
             | Inr (Some a) \<Rightarrow> xs \<noteq> [] \<and> poll_result (snd (last xs)) = Some a \<and> found_none (butlast xs)))"
proof -
  define Q :: "(((('w platform \<times> request) \<times> int) \<times> int) \<times> 'w state) \<Rightarrow>
               ((error + string option) \<times> 'w state) \<Rightarrow> bool"
    where "Q = (\<lambda>x y. written (snd y) = written (snd x) \<and>
         (\<exists>xs. trace (snd y) = trace (snd x) @ xs \<and> set (map fst xs) \<subseteq> {snd (fst (fst (fst x)))} \<and>
            (case fst y of
               Inl e \<Rightarrow> False
             | Inr None \<Rightarrow> snd (fst (fst x)) \<le> date_now (fst (fst (fst (fst x)))) (world (snd y)) \<and> found_none xs
             | Inr (Some a) \<Rightarrow> xs \<noteq> [] \<and> poll_result (snd (last xs)) = Some a \<and> found_none (butlast xs))))"
  have "Q ((((P, rq), deadline), pollInterval), s) y"
  proof (rule getVmIp_loop.raw_induct[where Pa = Q, OF _ assms])
    fix loop :: "'w platform \<Rightarrow> request \<Rightarrow> int \<Rightarrow> int \<Rightarrow> 'w state \<Rightarrow> ((error + string option) \<times> 'w state) option"
    fix P rq deadline pollInterval s y
    assume IH: "\<And>P rq deadline pollInterval s y.
        loop P rq deadline pollInterval s = Some y \<Longrightarrow> Q ((((P, rq), deadline), pollInterval), s) y"
    assume body: "(if date_now P (world s) < deadline
      then
        (case fetchWithCurl P rq s of
           None \<Rightarrow> None
         | Some (r, s1) \<Rightarrow>
             (case poll_result r of
                Some addr \<Rightarrow> Some (Inr (Some addr), s1)
              | None \<Rightarrow> loop P rq deadline pollInterval (sleep P (pollInterval * 1000) s1)))
      else Some (Inr None, s)) = Some y"
    show "Q ((((P, rq), deadline), pollInterval), s) y"
    proof (cases "date_now P (world s) < deadline")
      case False
      with body have "y = (Inr None, s)" by simp
      with False show ?thesis by (simp add: Q_def found_none_def)
    next
      case True
      obtain r w' where C: "curl P rq (world s) = (r, w')" by force
      define s1 where "s1 = s\<lparr>world := w', trace := trace s @ [(rq, r)]\<rparr>"
      have F: "fetchWithCurl P rq s = Some (r, s1)"
        by (simp add: fetchWithCurl_def C s1_def)
      have S1: "written s1 = written s" "trace s1 = trace s @ [(rq, r)]"
        by (simp_all add: s1_def)
      show ?thesis
      proof (cases "poll_result r")
        case (Some addr)
        with body True F have "y = (Inr (Some addr), s1)" by simp
        with Some show ?thesis
          unfolding Q_def by (intro conjI exI[of _ "[(rq, r)]"]) (simp_all add: S1 found_none_def)
      next
        case None
        with body True F have "loop P rq deadline pollInterval (sleep P (pollInterval * 1000) s1) = Some y"
          by simp
        from IH[OF this] obtain xs where
          X: "written (snd y) = written s" "trace (snd y) = trace s @ (rq, r) # xs"
             "set (map fst xs) \<subseteq> {rq}"
             "(case fst y of
               Inl e \<Rightarrow> False
             | Inr None \<Rightarrow> deadline \<le> date_now P (world (snd y)) \<and> found_none xs
             | Inr (Some a) \<Rightarrow> xs \<noteq> [] \<and> poll_result (snd (last xs)) = Some a \<and> found_none (butlast xs))"
          by (auto simp: Q_def sleep_def S1 cong: sum.case_cong option.case_cong)
        from X(4) None have
          "(case fst y of
               Inl e \<Rightarrow> False
             | Inr None \<Rightarrow> deadline \<le> date_now P (world (snd y)) \<and> found_none ((rq, r) # xs)
             | Inr (Some a) \<Rightarrow> (rq, r) # xs \<noteq> [] \<and> poll_result (snd (last ((rq, r) # xs))) = Some a
                   \<and> found_none (butlast ((rq, r) # xs)))"
          by (auto simp: found_none_def split: sum.splits option.splits)
        with X(1-3) show ?thesis
          unfolding Q_def
          by (intro conjI exI[of _ "(rq, r) # xs"]) (simp_all cong: sum.case_cong option.case_cong)
      qed
    qed
  qed
  then show ?thesis by (simp add: Q_def cong: sum.case_cong option.case_cong)
qed

lemma getVmIp_loop_terminates:
  assumes "clock_ok P" and "0 < pollInterval"
  shows "\<exists>y. getVmIp_loop P rq deadline pollInterval s = Some y"
proof (induction "nat (deadline - date_now P (world s))" arbitrary: s rule: less_induct)
  case less
  show ?case
  proof (cases "date_now P (world s) < deadline")
    case False
    then show ?thesis by (subst getVmIp_loop.simps) simp
  next
    case True
    obtain r w' where C: "curl P rq (world s) = (r, w')" by force
    define s1 where "s1 = s\<lparr>world := w', trace := trace s @ [(rq, r)]\<rparr>"
    have F: "fetchWithCurl P rq s = Some (r, s1)"
      by (simp add: fetchWithCurl_def C s1_def)
    show ?thesis
    proof (cases "poll_result r")
      case (Some addr)
      with True F show ?thesis by (subst getVmIp_loop.simps) simp
    next
      case None
      let ?s2 = "sleep P (pollInterval * 1000) s1"
      from assms(1) have "date_now P (world s) \<le> date_now P (snd (curl P rq (world s)))"
        by (simp add: clock_ok_def)
      then have "date_now P (world s) \<le> date_now P w'" by (simp add: C)
      moreover from assms(1) have "date_now P w' + pollInterval * 1000 \<le> date_now P (set_timeout P (pollInterval * 1000) w')"
        by (simp add: clock_ok_def)
      ultimately have "date_now P (world s) < date_now P (world ?s2)"
        using assms(2) by (simp add: sleep_def s1_def)
      with True have "nat (deadline - date_now P (world ?s2)) < nat (deadline - date_now P (world s))"
        by simp
      from less[OF this] obtain y where "getVmIp_loop P rq deadline pollInterval ?s2 = Some y" by blast
      with True F None show ?thesis by (subst getVmIp_loop.simps) simp
    qed
  qed
qed

lemma agentRequest_kind: "is_agent_query (agentRequest u n v t c k)"
  by (simp add: is_agent_query_def agentRequest_def agentUrl_def url_text_def)

lemma candidates_mem:
  assumes "a \<in> set (candidates ifaces)"
  shows "\<not> in_loopback_range a \<and>
         (\<exists>iface\<in>set ifaces. optprop iface ''name'' \<noteq> JStr ''lo'' \<and> a \<in> set (ipv4_addresses iface))"
  using assms by (auto simp: candidates_def split: if_splits)

lemma getVmIp_loopD:
  assumes "getVmIp_loop P rq deadline pollInterval s = Some (r, s')"
  shows "\<exists>xs ip. r = Inr ip \<and> written s' = written s \<and> trace s' = trace s @ xs \<and>
    set (map fst xs) \<subseteq> {rq} \<and>
    (ip = None \<longrightarrow> deadline \<le> date_now P (world s') \<and> found_none xs) \<and>
    (\<forall>a. ip = Some a \<longrightarrow> xs \<noteq> [] \<and> poll_result (snd (last xs)) = Some a \<and> found_none (butlast xs))"
proof -
  from getVmIp_loop_effect[OF assms] obtain xs where
    W: "written s' = written s" and X: "trace s' = trace s @ xs" "set (map fst xs) \<subseteq> {rq}"
    and C: "(case r of
               Inl e \<Rightarrow> False
             | Inr None \<Rightarrow> deadline \<le> date_now P (world s') \<and> found_none xs
             | Inr (Some a) \<Rightarrow> xs \<noteq> [] \<and> poll_result (snd (last xs)) = Some a \<and> found_none (butlast xs))"
    by (auto cong: sum.case_cong option.case_cong)
  from C obtain ip where R: "r = Inr ip" by (cases r) auto
  from C R have "(ip = None \<longrightarrow> deadline \<le> date_now P (world s') \<and> found_none xs) \<and>
    (\<forall>a. ip = Some a \<longrightarrow> xs \<noteq> [] \<and> poll_result (snd (last xs)) = Some a \<and> found_none (butlast xs))"
    by (cases ip) auto
  with R W X show ?thesis by blast
qed

lemma getVmIpWithRetry_effect:
  assumes "getVmIpWithRetry P apiUrl node vmid t c sk ws pi s = Some (r, s')"
  shows "written s' = written s"
    and "\<exists>xs. trace s' = trace s @ xs \<and> filter (\<lambda>x. \<not> is_agent_query (fst x)) xs = []"
    and "\<exists>ip. r = Inr ip"
proof -
  from assms have L: "getVmIp_loop P (agentRequest apiUrl node vmid t c sk)
       (date_now P (world s) + ws * 1000) pi s = Some (r, s')"
    by (simp add: getVmIpWithRetry_def Let_def)
  from getVmIp_loopD[OF L] obtain xs ip where R: "r = Inr ip" and W: "written s' = written s"
    and X: "trace s' = trace s @ xs" "set (map fst xs) \<subseteq> {agentRequest apiUrl node vmid t c sk}"
    by blast
  from W show "written s' = written s" .
  from X(2) have "filter (\<lambda>x. \<not> is_agent_query (fst x)) xs = []"
    by (auto simp: filter_empty_conv agentRequest_kind)
  with X(1) show "\<exists>xs. trace s' = trace s @ xs \<and> filter (\<lambda>x. \<not> is_agent_query (fst x)) xs = []"
    by blast
  from R show "\<exists>ip. r = Inr ip" by blast
qed

text \<open>
  C7. Discovery returns under a well-behaved clock and a positive poll interval. Whenever it
  returns, it wrote nothing and made guest-agent queries only. An address it returns is outside
  127.0.0.0/8 (it does not start with \<open>127.\<close>), was reported as IPv4 by an interface not
  named \<open>lo\<close>, and is the first such address, in scan order, of the answer to the last
  query, no earlier query having yielded one. When it returns null, the clock has reached the
  deadline and no query yielded an address.
\<close>

theorem discovery_never_loopback:
  "(clock_ok P \<and> 0 < pollInterval \<longrightarrow>
      (\<exists>y. getVmIpWithRetry P apiUrl node vmid ticket csrfToken skipTlsVerify waitSeconds pollInterval s
             = Some y))
   \<and> (\<forall>r s'. getVmIpWithRetry P apiUrl node vmid ticket csrfToken skipTlsVerify waitSeconds pollInterval s
                = Some (r, s') \<longrightarrow>
        written s' = written s
        \<and> filter (\<lambda>x. \<not> is_agent_query (fst x)) (new_trace s s') = []
        \<and> (case r of
              Inl e \<Rightarrow> False
            | Inr None \<Rightarrow>
                date_now P (world s) + waitSeconds * 1000 \<le> date_now P (world s')
                \<and> found_none (new_trace s s')
            | Inr (Some a) \<Rightarrow>
                \<not> in_loopback_range a \<and> \<not> startsWith127 a
                \<and> new_trace s s' \<noteq> []
                \<and> found_none (butlast (new_trace s s'))
                \<and> candidates (reported_interfaces (snd (last (new_trace s s')))) \<noteq> []
                \<and> a = hd (candidates (reported_interfaces (snd (last (new_trace s s')))))
                \<and> (\<exists>iface\<in>set (reported_interfaces (snd (last (new_trace s s')))).
                      optprop iface ''name'' \<noteq> JStr ''lo'' \<and> a \<in> set (ipv4_addresses iface))))"
proof (intro conjI impI allI)
  assume "clock_ok P \<and> 0 < pollInterval"
  then show "\<exists>y. getVmIpWithRetry P apiUrl node vmid ticket csrfToken skipTlsVerify waitSeconds pollInterval s
             = Some y"
    using getVmIp_loop_terminates[of P pollInterval]
    by (simp add: getVmIpWithRetry_def Let_def)
next
  fix r s'
  assume A: "getVmIpWithRetry P apiUrl node vmid ticket csrfToken skipTlsVerify waitSeconds pollInterval s
                = Some (r, s')"
  then have L: "getVmIp_loop P (agentRequest apiUrl node vmid ticket csrfToken skipTlsVerify)
       (date_now P (world s) + waitSeconds * 1000) pollInterval s = Some (r, s')"
    by (simp add: getVmIpWithRetry_def Let_def)
  from getVmIpWithRetry_effect[OF A]
  show "written s' = written s"
    and "filter (\<lambda>x. \<not> is_agent_query (fst x)) (new_trace s s') = []"
    by (auto simp: new_trace_def)
  from getVmIp_loopD[OF L] obtain xs ip where R: "r = Inr ip" and X: "trace s' = trace s @ xs"
    and CN: "ip = None \<longrightarrow> date_now P (world s) + waitSeconds * 1000 \<le> date_now P (world s') \<and> found_none xs"
    and CS: "\<forall>a. ip = Some a \<longrightarrow> xs \<noteq> [] \<and> poll_result (snd (last xs)) = Some a \<and> found_none (butlast xs)"
    by blast
  from X have N: "new_trace s s' = xs" by (simp add: new_trace_def)
  show "(case r of
              Inl e \<Rightarrow> False
            | Inr None \<Rightarrow>
                date_now P (world s) + waitSeconds * 1000 \<le> date_now P (world s')
                \<and> found_none (new_trace s s')
            | Inr (Some a) \<Rightarrow>
                \<not> in_loopback_range a \<and> \<not> startsWith127 a
                \<and> new_trace s s' \<noteq> []
                \<and> found_none (butlast (new_trace s s'))
                \<and> candidates (reported_interfaces (snd (last (new_trace s s')))) \<noteq> []
                \<and> a = hd (candidates (reported_interfaces (snd (last (new_trace s s')))))
                \<and> (\<exists>iface\<in>set (reported_interfaces (snd (last (new_trace s s')))).
                      optprop iface ''name'' \<noteq> JStr ''lo'' \<and> a \<in> set (ipv4_addresses iface)))"
  proof (cases ip)
    case None
    with R CN show ?thesis by (simp add: N)
  next
    case (Some a)
    with CS have P1: "xs \<noteq> []" "poll_result (snd (last xs)) = Some a" "found_none (butlast xs)"
      by simp_all
    let ?c = "candidates (reported_interfaces (snd (last xs)))"
    from poll_result_candidates[OF P1(2)] have H: "?c \<noteq> []" "a = hd ?c" by simp_all
    then have "a \<in> set ?c" by simp
    from candidates_mem[OF this] H P1 R Some show ?thesis
      by (simp add: N startsWith127_iff)
  qed
qed

lemma clock_ok_sim: "clock_ok simP"
  by (simp add: clock_ok_def simP_def split: list.splits)

lemma discovery_sim:
  "\<exists>s'. getVmIpWithRetry simP ''u'' ''pve'' (JNum 101) (JStr ''T'') (JStr ''C'') (Some True) 30 5
         (sim0 [reply 500 JNull, reply 200 agentReply]) = Some (Inr (Some ''10.0.0.50''), s')"
  by (simp add: getVmIpWithRetry_def getVmIp_loop.simps poll_result_def agentReply_def startsWith127_def
       sim_simps run_simps)

theorem discovery_never_loopback_witness:
  "clock_ok simP
   \<and> (\<exists>s'. getVmIpWithRetry simP ''u'' ''pve'' (JNum 101) (JStr ''T'') (JStr ''C'') (Some True) 30 5
              (sim0 [reply 500 JNull, reply 200 agentReply]) = Some (Inr (Some ''10.0.0.50''), s')
         \<and> \<not> in_loopback_range ''10.0.0.50''
         \<and> ''10.0.0.50'' = hd (candidates (reported_interfaces (snd (last
               (new_trace (sim0 [reply 500 JNull, reply 200 agentReply]) s')))))
         \<and> found_none (butlast (new_trace (sim0 [reply 500 JNull, reply 200 agentReply]) s')))"
proof -
  from discovery_sim obtain s' where
    E: "getVmIpWithRetry simP ''u'' ''pve'' (JNum 101) (JStr ''T'') (JStr ''C'') (Some True) 30 5
         (sim0 [reply 500 JNull, reply 200 agentReply]) = Some (Inr (Some ''10.0.0.50''), s')"
    by blast
  note T = discovery_never_loopback[of simP 5 "''u''" "''pve''" "JNum 101" "JStr ''T''" "JStr ''C''"
        "Some True" 30 "sim0 [reply 500 JNull, reply 200 agentReply]", THEN conjunct2, rule_format, OF E]
  from T have "\<not> in_loopback_range ''10.0.0.50''
         \<and> ''10.0.0.50'' = hd (candidates (reported_interfaces (snd (last
               (new_trace (sim0 [reply 500 JNull, reply 200 agentReply]) s')))))
         \<and> found_none (butlast (new_trace (sim0 [reply 500 JNull, reply 200 agentReply]) s'))"
    unfolding sum.case option.case by blast
  with E clock_ok_sim show ?thesis by blast
qed

section \<open>Traces of the lifecycle methods\<close>

lemma trace_exit_Nil: "trace_exit [] = None"
  by (simp add: trace_exit_def)

lemma trace_exit_append: "trace_exit (xs @ ys) = (if ys = [] then trace_exit xs else trace_exit ys)"
  by (simp add: trace_exit_def)

lemma trace_exit_single: "trace_exit [x] = task_exit x"
  by (simp add: trace_exit_def)

lemma trace_exit_other:
  assumes "filter (\<lambda>x. is_task_poll (fst x)) xs = []"
  shows "trace_exit xs = None"
proof (cases "xs = []")
  case True then show ?thesis by (simp add: trace_exit_def)
next
  case False
  then have "last xs \<in> set xs" by simp
  with assms have "\<not> is_task_poll (fst (last xs))" by (auto simp: filter_empty_conv)
  then show ?thesis using False by (simp add: trace_exit_def task_exit_def)
qed

lemma taskStatusRequest_kind: "is_task_poll (taskStatusRequest u n upid t c k)"
  by (simp add: is_task_poll_def taskStatusRequest_def taskStatusUrl_def url_text_def)

lemma waitForTask_effect:
  assumes "waitForTask P u n upid t c k s = Some (r, s')"
  shows "\<exists>xs. written s' = written s \<and> trace s' = trace s @ xs \<and> xs \<noteq> [] \<and>
           filter (\<lambda>x. \<not> is_task_poll (fst x)) xs = [] \<and>
           trace_exit xs = poll_exit (snd (last xs)) \<and>
           task_outcome (snd (last xs)) r"
proof -
  from assms have "waitForTask_loop P (taskStatusRequest u n upid t c k) 0 s = Some (r, s')"
    by (simp add: waitForTask_def)
  from waitForTask_loop_effect[OF this] obtain xs where
    W: "written s' = written s" and X: "trace s' = trace s @ xs" "xs \<noteq> []"
      "set (map fst xs) \<subseteq> {taskStatusRequest u n upid t c k}"
      "task_outcome (snd (last xs)) r"
    by auto
  from X(3) have A: "filter (\<lambda>x. \<not> is_task_poll (fst x)) xs = []"
    by (auto simp: filter_empty_conv taskStatusRequest_kind)
  from X(2) have "last xs \<in> set xs" by simp
  with X(3) have "is_task_poll (fst (last xs))" by (auto simp: taskStatusRequest_kind)
  with X(2) have "trace_exit xs = poll_exit (snd (last xs))"
    by (simp add: trace_exit_def task_exit_def)
  with W X A show ?thesis by blast
qed

lemmas kind_defs = is_ticket_exchange_def is_task_poll_def is_agent_query_def is_start_call_def
  is_stop_call_def is_delete_call_def is_create_call_def is_mutation_def url_text_def
  vmRequest_def startUrl_def stopUrl_def vmUrl_def listRequest_def listUrl_def agentRequest_def
  agentUrl_def taskStatusRequest_def taskStatusUrl_def ticketUrl_def nextIdUrl_def
  createRequest_def

lemma requested_boot_none:
  assumes "filter (\<lambda>x. is_create_call (fst x)) xs = []"
  shows "requested_boot xs = []"
  using assms by (auto simp: requested_boot_def List.map_filter_def filter_empty_conv)

lemma requested_boot_append: "requested_boot (xs @ ys) = requested_boot xs @ requested_boot ys"
  by (simp add: requested_boot_def List.map_filter_def)

lemma only_task_polls:
  assumes "filter (\<lambda>x. \<not> is_task_poll (fst x)) xs = []"
  shows "filter (\<lambda>x. is_start_call (fst x)) xs = []"
    and "filter (\<lambda>x. is_agent_query (fst x)) xs = []"
    and "filter (\<lambda>x. is_create_call (fst x)) xs = []"
    and "filter (\<lambda>x. is_mutation (fst x)) xs = []"
  using assms
  by (auto simp: filter_empty_conv is_mutation_def is_task_poll_def is_start_call_def
        is_agent_query_def is_create_call_def is_ticket_exchange_def)

lemma only_agent_queries:
  assumes "filter (\<lambda>x. \<not> is_agent_query (fst x)) xs = []"
  shows "filter (\<lambda>x. is_start_call (fst x)) xs = []"
    and "filter (\<lambda>x. is_task_poll (fst x)) xs = []"
  using assms
  by (auto simp: filter_empty_conv is_task_poll_def is_start_call_def is_agent_query_def)

lemma waitForTask_run:
  assumes "waitForTask P u n upid t c k s = Some (r, s')"
  shows "\<exists>xs. written s' = written s \<and> trace s' = trace s @ xs \<and> xs \<noteq> [] \<and>
           filter (\<lambda>x. \<not> is_task_poll (fst x)) xs = [] \<and>
           (\<forall>e. r = Inl e \<longrightarrow> trace_exit xs = None) \<and>
           (\<forall>tr. r = Inr tr \<longrightarrow> trace_exit xs = Some (exitstatus tr) \<and>
                              success tr = (exitstatus tr = JStr ''OK''))"
proof -
  from waitForTask_effect[OF assms] obtain xs where
    X: "written s' = written s" "trace s' = trace s @ xs" "xs \<noteq> []"
       "filter (\<lambda>x. \<not> is_task_poll (fst x)) xs = []"
       "trace_exit xs = poll_exit (snd (last xs))" "task_outcome (snd (last xs)) r"
    by blast
  from X(5,6) have "(\<forall>e. r = Inl e \<longrightarrow> trace_exit xs = None) \<and>
           (\<forall>tr. r = Inr tr \<longrightarrow> trace_exit xs = Some (exitstatus tr) \<and>
                              success tr = (exitstatus tr = JStr ''OK''))"
    by (cases r) (simp_all add: task_outcome_def)
  with X(1-4) show ?thesis by blast
qed

lemma fetch_run:
  assumes "fetchWithCurl P rq s = Some (r, s')"
  shows "written s' = written s \<and> trace s' = trace s @ [(rq, r)]"
  using assms by (auto simp: fetch_apply)

lemma fetch_total: "\<exists>r s'. fetchWithCurl P rq s = Some (r, s')"
  by (simp add: fetchWithCurl_def split: prod.splits)

lemma startIfStopped_effect:
  assumes "startIfStopped P g t c v s = Some (r, s')"
  shows "\<exists>xs. written s' = written s \<and> trace s' = trace s @ xs
       \<and> length (filter (\<lambda>x. is_start_call (fst x)) xs) \<le> 1
       \<and> filter (\<lambda>x. is_agent_query (fst x)) xs = []
       \<and> (vm_status v \<noteq> JStr ''stopped'' \<longrightarrow> xs = [])
       \<and> (\<forall>y. r = Inr y \<longrightarrow> xs = [] \<or> trace_exit xs = Some (JStr ''OK''))
       \<and> (\<forall>e. r = Inl e \<longrightarrow> trace_exit xs = None \<or>
              (\<exists>ex. trace_exit xs = Some ex \<and> ex \<noteq> JStr ''OK'' \<and>
                    e = Error (Tpl ''VM start failed: {}'' [ex])))"
proof (cases "vm_status v = JStr ''stopped''")
  case False
  with assms have "s' = s" "\<exists>y. r = Inr y"
    by (auto simp: startIfStopped_def Let_def ret_apply)
  then show ?thesis using False by (intro exI[of _ "[]"]) auto
next
  case ST: True
  let ?rq = "vmRequest ''POST'' (startUrl (g_apiUrl g) (g_node g) (vm_vmid v)) t c (g_skipTlsVerify g)"
  have K: "is_start_call ?rq" "\<not> is_task_poll ?rq" "\<not> is_agent_query ?rq"
    by (simp_all add: kind_defs)
  obtain rr s1 where F: "fetchWithCurl P ?rq s = Some (rr, s1)"
    using fetch_total by blast
  note F1 = fetch_run[OF F]
  have single: "trace_exit [(?rq, rr)] = None"
    using K by (simp add: trace_exit_def task_exit_def)
  show ?thesis
  proof (cases "\<exists>resp upid. rr = Inr resp \<and> ok resp \<and> json_data resp = Inr upid")
    case False
    have "s' = s1 \<and> (\<exists>e. r = Inl e)"
    proof (cases rr)
      case (Inl e)
      with assms ST F show ?thesis
        by (auto simp: startIfStopped_def Let_def bind_def)
    next
      case (Inr resp)
      show ?thesis
      proof (cases "ok resp")
        case False
        with assms ST F Inr show ?thesis
          by (auto simp: startIfStopped_def Let_def bind_def throw_apply)
      next
        case okT: True
        with False Inr obtain e where "json_data resp = Inl e"
          by (cases "json_data resp") auto
        with assms ST F Inr okT show ?thesis
          by (auto simp: startIfStopped_def Let_def bind_def lift_apply)
      qed
    qed
    with F1 K single ST show ?thesis
      by (intro exI[of _ "[(?rq, rr)]"]) auto
  next
    case A: True
    then obtain resp upid where R: "rr = Inr resp" "ok resp" "json_data resp = Inr upid"
      by blast
    let ?w = "waitForTask P (g_apiUrl g) (g_node g) upid t c (nullish (g_skipTlsVerify g) True)"
    from assms ST F R have B: "bind ?w (\<lambda>taskResult.
                if \<not> success taskResult
                then throw (Error (Tpl ''VM start failed: {}'' [exitstatus taskResult]))
                else ret (True,
                  [Tpl ''VM is stopped, starting'' [],
                   Tpl ''VM {} started successfully ({} polls)''
                     [vm_vmid v, JNum (int (pollCount taskResult))]])) s1 = Some (r, s')"
      by (simp add: startIfStopped_def Let_def bind_Inr[where m="fetchWithCurl P ?rq"]
               bind_lift_Inr)
    from B show ?thesis
    proof (cases rule: bindE)
      case (Thrown e)
      from waitForTask_run[OF Thrown(1)] obtain ws where
        W: "written s' = written s1" "trace s' = trace s1 @ ws" "ws \<noteq> []"
           "filter (\<lambda>x. \<not> is_task_poll (fst x)) ws = []" "trace_exit ws = None"
        by auto
      show ?thesis
        using W F1 K ST Thrown(2) only_task_polls[OF W(4)]
        by (intro exI[of _ "(?rq, rr) # ws"]) (auto simp: trace_exit_def)
    next
      case (Returned tr s2)
      from waitForTask_run[OF Returned(1)] obtain ws where
        W: "written s2 = written s1" "trace s2 = trace s1 @ ws" "ws \<noteq> []"
           "filter (\<lambda>x. \<not> is_task_poll (fst x)) ws = []"
           "trace_exit ws = Some (exitstatus tr)" "success tr = (exitstatus tr = JStr ''OK'')"
        by auto
      from Returned(2) have S: "s' = s2"
        by (auto simp: throw_apply ret_apply split: if_splits)
      have TE: "trace_exit ((?rq, rr) # ws) = trace_exit ws"
        using W(3) by (simp add: trace_exit_def)
      show ?thesis
        using W F1 K ST S Returned(2) only_task_polls[OF W(4)] TE
        by (intro exI[of _ "(?rq, rr) # ws"]) (auto simp: throw_apply ret_apply split: if_splits)
    qed
  qed
qed

lemma quiet_simps:
  "quiet []" "quiet (xs @ ys) = (quiet xs \<and> quiet ys)"
  "quiet [x] = (\<not> is_mutation (fst x) \<and> \<not> is_task_poll (fst x) \<and> \<not> is_agent_query (fst x))"
  by (auto simp: quiet_def)

lemma quiet_facts:
  assumes "quiet xs"
  shows "filter (\<lambda>x. is_start_call (fst x)) xs = []"
    and "filter (\<lambda>x. is_agent_query (fst x)) xs = []"
    and "filter (\<lambda>x. is_create_call (fst x)) xs = []"
    and "filter (\<lambda>x. is_mutation (fst x) \<or> is_task_poll (fst x)) xs = []"
    and "trace_exit xs = None"
proof -
  from assms have A: "\<forall>x\<in>set xs. \<not> is_mutation (fst x) \<and> \<not> is_task_poll (fst x) \<and> \<not> is_agent_query (fst x)"
    by (auto simp: quiet_def filter_empty_conv)
  have M: "is_start_call rq \<Longrightarrow> is_mutation rq" "is_create_call rq \<Longrightarrow> is_mutation rq" for rq
    by (auto simp: is_start_call_def is_create_call_def is_mutation_def is_ticket_exchange_def)
  from A M show "filter (\<lambda>x. is_start_call (fst x)) xs = []"
    and "filter (\<lambda>x. is_create_call (fst x)) xs = []"
    by (auto simp: filter_empty_conv)
  from A show "filter (\<lambda>x. is_agent_query (fst x)) xs = []"
    and "filter (\<lambda>x. is_mutation (fst x) \<or> is_task_poll (fst x)) xs = []"
    by (auto simp: filter_empty_conv)
  from A have "filter (\<lambda>x. is_task_poll (fst x)) xs = []"
    by (auto simp: filter_empty_conv)
  then show "trace_exit xs = None" by (rule trace_exit_other)
qed

lemma resolveAuth_run:
  assumes "resolveAuth P g ctx opts s = Some (r, s')"
  shows "\<exists>xs. written s' = written s \<and> trace s' = trace s @ xs \<and> quiet xs"
proof -
  from resolveAuth_effect[OF assms] have W: "written s' = written s"
    and T: "trace s' = trace s \<or>
          (\<exists>x. trace s' = trace s @ [x] \<and> rq_method (fst x) = ''POST'' \<and>
               rq_url (fst x) = ticketUrl (g_apiUrl g))"
    by simp_all
  from T show ?thesis
  proof
    assume "trace s' = trace s"
    with W show ?thesis by (intro exI[of _ "[]"]) (simp add: quiet_simps)
  next
    assume "\<exists>x. trace s' = trace s @ [x] \<and> rq_method (fst x) = ''POST'' \<and>
               rq_url (fst x) = ticketUrl (g_apiUrl g)"
    then obtain x where X: "trace s' = trace s @ [x]" "rq_method (fst x) = ''POST''"
      "rq_url (fst x) = ticketUrl (g_apiUrl g)" by blast
    from X(2,3) have "quiet [x]"
      by (simp add: quiet_simps kind_defs)
    with W X(1) show ?thesis by blast
  qed
qed

lemma resolveVm_run:
  assumes "resolveVm P u n vmName t c k s = Some (r, s')"
  shows "\<exists>xs. written s' = written s \<and> trace s' = trace s @ xs \<and> quiet xs"
proof -
  from resolveVm_effect[OF assms] obtain x where
    "written s' = written s" "trace s' = trace s @ [(listRequest u n t c k, x)]" by blast
  moreover have "quiet [(listRequest u n t c k, x)]"
    by (simp add: quiet_simps kind_defs)
  ultimately show ?thesis by blast
qed

lemma resolved_run:
  assumes "resolved P g ctx vmName s = Some (a, v, s2)"
  shows "\<exists>xs. written s2 = written s \<and> trace s2 = trace s @ xs \<and> quiet xs"
proof -
  from assms obtain s1 where A: "resolveAuth P g ctx authOpts s = Some (Inr a, s1)"
    and V: "resolveVm P (g_apiUrl g) (g_node g) vmName (a_ticket a) (a_csrfToken a)
              (g_skipTlsVerify g) s1 = Some (Inr v, s2)"
    by (rule resolvedD)
  from resolveAuth_run[OF A] resolveVm_run[OF V] obtain xs ys where
    "written s2 = written s" "trace s2 = trace s @ (xs @ ys)" "quiet (xs @ ys)"
    by (auto simp: quiet_simps)
  then show ?thesis by blast
qed

text \<open>Every lifecycle method begins by resolving the session and the VM; when either step
  throws, the method throws the same error and has neither changed the hypervisor nor written
  anything.\<close>

lemma resolve_cases:
  assumes "bind (resolveAuth P g ctx authOpts)
             (\<lambda>auth. bind (resolveVm P (g_apiUrl g) (g_node g) vmName (a_ticket auth)
                              (a_csrfToken auth) (g_skipTlsVerify g)) (K auth)) s = Some (r, s')"
  obtains (Resolved) a v s2 where "resolved P g ctx vmName s = Some (a, v, s2)"
      "K a v s2 = Some (r, s')"
    | (Failed) e xs where "resolved P g ctx vmName s = None" "r = Inl e"
      "written s' = written s" "trace s' = trace s @ xs" "quiet xs"
  using assms
proof (cases rule: bindE)
  case (Thrown e)
  from resolveAuth_run[OF Thrown(1)] obtain xs where
    "written s' = written s" "trace s' = trace s @ xs" "quiet xs" by blast
  moreover from Thrown(1) have "resolved P g ctx vmName s = None"
    by (simp add: resolved_def)
  ultimately show ?thesis using Thrown(2) by (rule_tac Failed) auto
next
  case (Returned a s1)
  from resolveAuth_run[OF Returned(1)] obtain xs where
    X: "written s1 = written s" "trace s1 = trace s @ xs" "quiet xs" by blast
  from Returned(2) show ?thesis
  proof (cases rule: bindE)
    case (Thrown e)
    from resolveVm_run[OF Thrown(1)] obtain ys where
      "written s' = written s1" "trace s' = trace s1 @ ys" "quiet ys" by blast
    with X have "written s' = written s" "trace s' = trace s @ (xs @ ys)" "quiet (xs @ ys)"
      by (simp_all add: quiet_simps)
    moreover from Returned(1) Thrown(1) have "resolved P g ctx vmName s = None"
      by (simp add: resolved_def)
    ultimately show ?thesis using Thrown(2) by (rule_tac Failed) auto
  next
    case R2: (Returned v s2)
    from Returned(1) R2(1) have "resolved P g ctx vmName s = Some (a, v, s2)"
      by (simp add: resolved_def)
    with R2(2) show ?thesis by (rule_tac Resolved) auto
  qed
qed

lemma resolved_bind:
  assumes "resolved P g ctx vmName s = Some (a, v, s2)"
  shows "bind (resolveAuth P g ctx authOpts)
             (\<lambda>auth. bind (resolveVm P (g_apiUrl g) (g_node g) vmName (a_ticket auth)
                              (a_csrfToken auth) (g_skipTlsVerify g)) (K auth)) s = K a v s2"
proof -
  from assms obtain s1 where A: "resolveAuth P g ctx authOpts s = Some (Inr a, s1)"
    and V: "resolveVm P (g_apiUrl g) (g_node g) vmName (a_ticket a) (a_csrfToken a)
              (g_skipTlsVerify g) s1 = Some (Inr v, s2)"
    by (rule resolvedD)
  show ?thesis by (simp add: bind_def A V)
qed

section \<open>start\<close>

lemma start_shape:
  "start P g ctx args =
     bind (resolveAuth P g ctx authOpts)
       (\<lambda>auth. bind (resolveVm P (g_apiUrl g) (g_node g) (sa_vmName args) (a_ticket auth)
                        (a_csrfToken auth) (g_skipTlsVerify g))
          (\<lambda>vm. bind (startIfStopped P g (a_ticket auth) (a_csrfToken auth) vm)
             (\<lambda>(wasStarted, added).
                awaitIp P g (a_ticket auth) (a_csrfToken auth) vm (sa_vmName args)
                  (nullish (sa_waitSeconds args) 120) (nullish (sa_pollInterval args) 5) wasStarted
                  ([Tpl ''Ensuring VM {} is running on node {}'' [JStr (sa_vmName args), JStr (g_node g)],
                    Tpl ''Found VM {} -> vmid {} [{}]'' [JStr (sa_vmName args), vm_vmid vm, vm_status vm]]
                   @ added))))"
  by (simp add: start_def Let_def)

lemma awaitIp_effect:
  assumes "awaitIp P g t c v vmName ws pi w logs s = Some (r, s')"
  shows "\<exists>xs ip. trace s' = trace s @ xs \<and> filter (\<lambda>x. \<not> is_agent_query (fst x)) xs = []
          \<and> getVmIpWithRetry P (g_apiUrl g) (g_node g) (vm_vmid v) t c (g_skipTlsVerify g) ws pi s
              = Some (Inr ip, s'\<lparr>written := written s\<rparr>)
          \<and> (if truthy (jsip ip)
              then r = Inr [length (written s)] \<and>
                   (\<exists>res. written s' = written s @ [res] \<and> r_kind res = ''vm'' \<and>
                      r_name res = vm_name v \<and>
                      map_of (r_attrs res) ''status'' = Some (JStr ''running'') \<and>
                      map_of (r_attrs res) ''ip'' = Some (jsip ip) \<and>
                      map_of (r_attrs res) ''wasStarted'' = Some (JBool w))
              else r = Inl (missingIpError vmName (vm_vmid v) ws) \<and> written s' = written s)"
proof -
  let ?m = "getVmIpWithRetry P (g_apiUrl g) (g_node g) (vm_vmid v) t c (g_skipTlsVerify g) ws pi"
  from assms have B: "bind ?m (\<lambda>ip.
        if truthy (jsip ip)
        then
          bind (writeResource P ''vm'' (vm_name v)
                 [(''vmid'', vm_vmid v), (''vmName'', vm_name v), (''status'', JStr ''running''),
                  (''ip'', jsip ip), (''wasStarted'', JBool w)]
                 ((logs @ [Tpl ''Waiting for guest agent IP (up to {}s)'' [JNum ws]]) @ [Tpl ''Got IP: {}'' [jsip ip]])) (\<lambda>handle.
            ret [handle])
        else throw (missingIpError vmName (vm_vmid v) ws)) s = Some (r, s')"
    by (simp add: awaitIp_def Let_def)
  from B show ?thesis
  proof (cases rule: bindE)
    case (Thrown e)
    from getVmIpWithRetry_effect(3)[OF Thrown(1)] show ?thesis by simp
  next
    case (Returned ip s1)
    from getVmIpWithRetry_effect[OF Returned(1)] obtain xs where
      G: "written s1 = written s" "trace s1 = trace s @ xs"
         "filter (\<lambda>x. \<not> is_agent_query (fst x)) xs = []"
      by blast
    show ?thesis
    proof (cases "truthy (jsip ip)")
      case False
      with Returned(2) have "r = Inl (missingIpError vmName (vm_vmid v) ws)" "s' = s1"
        by (auto simp: throw_apply)
      with G Returned(1) False show ?thesis
        by (intro exI[of _ xs] exI[of _ ip]) (simp add: G(1)[symmetric])
    next
      case True
      with Returned(2) obtain res where
        R: "r = Inr [length (written s1)]" "s' = s1\<lparr>written := written s1 @ [res]\<rparr>"
           "r_kind res = ''vm''" "r_name res = vm_name v"
           "map_of (r_attrs res) ''status'' = Some (JStr ''running'')"
           "map_of (r_attrs res) ''ip'' = Some (jsip ip)"
           "map_of (r_attrs res) ''wasStarted'' = Some (JBool w)"
        by (auto simp: writeResource_def bind_def ret_apply)
      from R(2) G(1) have "s'\<lparr>written := written s\<rparr> = s1" by simp
      with G Returned(1) True R show ?thesis
        by (intro exI[of _ xs] exI[of _ ip]) auto
    qed
  qed
qed

lemma zero_window_loop:
  assumes "ws \<le> 0"
  shows "getVmIpWithRetry P u n vmid t c k ws pi s = Some (Inr None, s)"
  using assms by (simp add: getVmIpWithRetry_def Let_def getVmIp_loop.simps)

lemma start_run:
  assumes "start P g ctx args s = Some (r, s')"
  shows "\<exists>xs. trace s' = trace s @ xs
        \<and> length (filter (\<lambda>x. is_start_call (fst x)) xs) \<le> 1
        \<and> (filter (\<lambda>x. is_start_call (fst x)) xs \<noteq> [] \<longrightarrow>
             (\<exists>a v s2. resolved P g ctx (sa_vmName args) s = Some (a, v, s2) \<and>
                        vm_status v = JStr ''stopped''))
        \<and> (\<forall>ex. trace_exit xs = Some ex \<and> ex \<noteq> JStr ''OK'' \<longrightarrow>
               r = Inl (Error (Tpl ''VM start failed: {}'' [ex])))
        \<and> (\<forall>e. r = Inl e \<longrightarrow> written s' = written s)
        \<and> (nullish (sa_waitSeconds args) 120 \<le> 0 \<longrightarrow>
               (\<exists>e. r = Inl e) \<and> filter (\<lambda>x. is_agent_query (fst x)) xs = [])"
  using assms unfolding start_shape
proof (cases rule: resolve_cases)
  case (Failed e xs)
  from quiet_facts[OF Failed(5)] Failed(2-4) show ?thesis
    by (intro exI[of _ xs]) simp
next
  case (Resolved a v s2)
  from resolved_run[OF Resolved(1)] obtain pre where
    P: "written s2 = written s" "trace s2 = trace s @ pre" "quiet pre" by blast
  note Q = quiet_facts[OF P(3)]
  from Resolved(2) show ?thesis
  proof (cases rule: bindE)
    case (Thrown e)
    from startIfStopped_effect[OF Thrown(1)] obtain xs where
      X: "written s' = written s2" "trace s' = trace s2 @ xs"
         "length (filter (\<lambda>x. is_start_call (fst x)) xs) \<le> 1"
         "filter (\<lambda>x. is_agent_query (fst x)) xs = []"
         "vm_status v \<noteq> JStr ''stopped'' \<longrightarrow> xs = []"
         "trace_exit xs = None \<or>
              (\<exists>ex. trace_exit xs = Some ex \<and> ex \<noteq> JStr ''OK'' \<and>
                    e = Error (Tpl ''VM start failed: {}'' [ex]))"
      by blast
    have E: "trace_exit (pre @ xs) = trace_exit xs"
      using Q(5) by (cases "xs = []") (simp_all add: trace_exit_append trace_exit_Nil)
    show ?thesis
    proof (intro exI[of _ "pre @ xs"] conjI)
      show "trace s' = trace s @ pre @ xs" using X(2) P(2) by simp
      show "length (filter (\<lambda>x. is_start_call (fst x)) (pre @ xs)) \<le> 1"
        using X(3) Q(1) by simp
      show "filter (\<lambda>x. is_start_call (fst x)) (pre @ xs) \<noteq> [] \<longrightarrow>
             (\<exists>a v s2. resolved P g ctx (sa_vmName args) s = Some (a, v, s2) \<and>
                        vm_status v = JStr ''stopped'')"
        using X(5) Q(1) Resolved(1) by auto
      show "\<forall>ex. trace_exit (pre @ xs) = Some ex \<and> ex \<noteq> JStr ''OK'' \<longrightarrow>
               r = Inl (Error (Tpl ''VM start failed: {}'' [ex]))"
        using X(6) Thrown(2) by (auto simp: E)
      show "\<forall>e. r = Inl e \<longrightarrow> written s' = written s"
        using X(1) P(1) by simp
      show "nullish (sa_waitSeconds args) 120 \<le> 0 \<longrightarrow>
               (\<exists>e. r = Inl e) \<and> filter (\<lambda>x. is_agent_query (fst x)) (pre @ xs) = []"
        using Thrown(2) X(4) Q(2) by simp
    qed
  next
    case (Returned y s3)
    obtain w added where Y: "y = (w, added)" by (cases y)
    from startIfStopped_effect[OF Returned(1)] obtain xs where
      X: "written s3 = written s2" "trace s3 = trace s2 @ xs"
         "length (filter (\<lambda>x. is_start_call (fst x)) xs) \<le> 1"
         "filter (\<lambda>x. is_agent_query (fst x)) xs = []"
         "vm_status v \<noteq> JStr ''stopped'' \<longrightarrow> xs = []"
         "xs = [] \<or> trace_exit xs = Some (JStr ''OK'')"
      by blast
    let ?ws = "nullish (sa_waitSeconds args) 120"
    from Returned(2) Y obtain logs where
      A: "awaitIp P g (a_ticket a) (a_csrfToken a) v (sa_vmName args) ?ws
            (nullish (sa_pollInterval args) 5) w logs s3 = Some (r, s')"
      by auto
    from awaitIp_effect[OF A] obtain ys ip where
      W: "trace s' = trace s3 @ ys" "filter (\<lambda>x. \<not> is_agent_query (fst x)) ys = []"
         "getVmIpWithRetry P (g_apiUrl g) (g_node g) (vm_vmid v) (a_ticket a) (a_csrfToken a)
            (g_skipTlsVerify g) ?ws (nullish (sa_pollInterval args) 5) s3
              = Some (Inr ip, s'\<lparr>written := written s3\<rparr>)"
         "if truthy (jsip ip)
              then r = Inr [length (written s3)] \<and>
                   (\<exists>res. written s' = written s3 @ [res] \<and> r_kind res = ''vm'' \<and>
                      r_name res = vm_name v \<and>
                      map_of (r_attrs res) ''status'' = Some (JStr ''running'') \<and>
                      map_of (r_attrs res) ''ip'' = Some (jsip ip) \<and>
                      map_of (r_attrs res) ''wasStarted'' = Some (JBool w))
              else r = Inl (missingIpError (sa_vmName args) (vm_vmid v) ?ws) \<and> written s' = written s3"
      by blast
    note O = only_agent_queries[OF W(2)]
    have E0: "trace_exit (pre @ xs) = None \<or> trace_exit (pre @ xs) = Some (JStr ''OK'')"
      using X(6) Q(5) by (auto simp: trace_exit_append)
    have E1: "trace_exit ys = None" using O(2) by (rule trace_exit_other)
    have E: "trace_exit (pre @ xs @ ys) = None \<or> trace_exit (pre @ xs @ ys) = Some (JStr ''OK'')"
      using E0 E1 trace_exit_append[of "pre @ xs" ys] by (cases "ys = []") auto
    show ?thesis
    proof (intro exI[of _ "pre @ xs @ ys"] conjI)
      show "trace s' = trace s @ pre @ xs @ ys" using W(1) X(2) P(2) by simp
      show "length (filter (\<lambda>x. is_start_call (fst x)) (pre @ xs @ ys)) \<le> 1"
        using X(3) Q(1) O(1) by simp
      show "filter (\<lambda>x. is_start_call (fst x)) (pre @ xs @ ys) \<noteq> [] \<longrightarrow>
             (\<exists>a v s2. resolved P g ctx (sa_vmName args) s = Some (a, v, s2) \<and>
                        vm_status v = JStr ''stopped'')"
        using X(5) Q(1) O(1) Resolved(1) by auto
      show "\<forall>ex. trace_exit (pre @ xs @ ys) = Some ex \<and> ex \<noteq> JStr ''OK'' \<longrightarrow>
               r = Inl (Error (Tpl ''VM start failed: {}'' [ex]))"
        using E by auto
      show "\<forall>e. r = Inl e \<longrightarrow> written s' = written s"
        using W(4) X(1) P(1) by (auto split: if_splits)
      show "?ws \<le> 0 \<longrightarrow>
               (\<exists>e. r = Inl e) \<and> filter (\<lambda>x. is_agent_query (fst x)) (pre @ xs @ ys) = []"
      proof
        assume Z: "?ws \<le> 0"
        have "getVmIpWithRetry P (g_apiUrl g) (g_node g) (vm_vmid v) (a_ticket a) (a_csrfToken a)
            (g_skipTlsVerify g) ?ws (nullish (sa_pollInterval args) 5) s3 = Some (Inr None, s3)"
          by (rule zero_window_loop[OF Z])
        with W(3) have I: "ip = None" "s'\<lparr>written := written s3\<rparr> = s3"
          by simp_all
        from I(2) have "trace s' = trace s3" by (metis state.select_convs(2) state.surjective state.update_convs(3))
        with W(1) have "ys = []" by simp
        moreover from I(1) W(4) have "\<exists>e. r = Inl e" by (simp add: jsip_def truthy_def)
        ultimately show "(\<exists>e. r = Inl e) \<and> filter (\<lambda>x. is_agent_query (fst x)) (pre @ xs @ ys) = []"
          using X(4) Q(2) by simp
      qed
    qed
  qed
qed

lemma start_after_block:
  assumes "resolved P g ctx (sa_vmName args) s = Some (a, v, s2)"
      and "startIfStopped P g (a_ticket a) (a_csrfToken a) v s2 = Some (Inr (w, added), s3)"
  shows "\<exists>logs. start P g ctx args s =
           awaitIp P g (a_ticket a) (a_csrfToken a) v (sa_vmName args)
             (nullish (sa_waitSeconds args) 120) (nullish (sa_pollInterval args) 5) w logs s3"
  unfolding start_shape resolved_bind[OF assms(1)]
  by (simp add: bind_Inr[where m="startIfStopped P g (a_ticket a) (a_csrfToken a) v", OF assms(2)])
     (rule exI, rule refl)

lemma awaitIp_no_ip:
  assumes "getVmIpWithRetry P (g_apiUrl g) (g_node g) (vm_vmid v) t c (g_skipTlsVerify g) ws pi s
             = Some (Inr ip, s')"
      and "\<not> truthy (jsip ip)"
  shows "awaitIp P g t c v vmName ws pi w logs s = Some (Inl (missingIpError vmName (vm_vmid v) ws), s')"
  using assms(2)
  by (simp add: awaitIp_def Let_def throw_apply
        bind_Inr[where m="getVmIpWithRetry P (g_apiUrl g) (g_node g) (vm_vmid v) t c (g_skipTlsVerify g) ws pi",
                 OF assms(1)])

text \<open>
  C10, amended. With a wait window of zero or fewer seconds discovery returns null at once and
  leaves the state as it was: not one guest-agent query is made, the deadline being checked
  before the first poll. A \<open>start\<close> with such a window therefore never succeeds: every run of
  it that returns has thrown, has written nothing and has made no guest-agent query. What it
  throws is the missing-IP error once the session and the VM are resolved and the start block
  is through; a failure before that point throws its own error instead.
\<close>

theorem zero_window:
  "(waitSeconds \<le> 0 \<longrightarrow>
      getVmIpWithRetry P apiUrl node vmid ticket csrfToken skipTlsVerify waitSeconds pollInterval s
        = Some (Inr None, s))
   \<and> (nullish (sa_waitSeconds args) 120 \<le> 0 \<longrightarrow>
        (\<forall>r s'. start P g ctx args s = Some (r, s') \<longrightarrow>
           (\<exists>e. r = Inl e) \<and> written s' = written s
           \<and> filter (\<lambda>x. is_agent_query (fst x)) (new_trace s s') = [])
        \<and> (\<forall>a v s2 w added s3.
              resolved P g ctx (sa_vmName args) s = Some (a, v, s2)
              \<and> startIfStopped P g (a_ticket a) (a_csrfToken a) v s2 = Some (Inr (w, added), s3) \<longrightarrow>
              start P g ctx args s =
                Some (Inl (missingIpError (sa_vmName args) (vm_vmid v)
                             (nullish (sa_waitSeconds args) 120)), s3)))"
proof (intro conjI impI allI)
  assume "waitSeconds \<le> 0"
  then show "getVmIpWithRetry P apiUrl node vmid ticket csrfToken skipTlsVerify waitSeconds pollInterval s
        = Some (Inr None, s)"
    by (rule zero_window_loop)
next
  fix r s'
  assume Z: "nullish (sa_waitSeconds args) 120 \<le> 0" and S: "start P g ctx args s = Some (r, s')"
  from start_run[OF S] Z obtain xs where
    X: "trace s' = trace s @ xs" "\<forall>e. r = Inl e \<longrightarrow> written s' = written s"
       "(\<exists>e. r = Inl e) \<and> filter (\<lambda>x. is_agent_query (fst x)) xs = []"
    by blast
  from X show "\<exists>e. r = Inl e" and "written s' = written s"
    and "filter (\<lambda>x. is_agent_query (fst x)) (new_trace s s') = []"
    by (auto simp: new_trace_def)
next
  fix a v s2 w added s3
  assume Z: "nullish (sa_waitSeconds args) 120 \<le> 0"
    and R: "resolved P g ctx (sa_vmName args) s = Some (a, v, s2)
              \<and> startIfStopped P g (a_ticket a) (a_csrfToken a) v s2 = Some (Inr (w, added), s3)"
  from start_after_block[of P g ctx args s a v s2 w added s3] R obtain logs where
    "start P g ctx args s =
           awaitIp P g (a_ticket a) (a_csrfToken a) v (sa_vmName args)
             (nullish (sa_waitSeconds args) 120) (nullish (sa_pollInterval args) 5) w logs s3"
    by blast
  moreover have "\<not> truthy (jsip None)" by (simp add: jsip_def truthy_def)
  ultimately show "start P g ctx args s =
                Some (Inl (missingIpError (sa_vmName args) (vm_vmid v)
                             (nullish (sa_waitSeconds args) 120)), s3)"
    using awaitIp_no_ip[OF zero_window_loop[OF Z]] by simp
qed

lemma resolved_alpha_running:
  "resolved simP g0 ctx0 ''alpha'' (sim0 [reply 200 (vmList ''running'')]) =
     Some (\<lparr>a_ticket = JStr ''TICKET'', a_csrfToken = JStr ''CSRF'', a_username = None,
             a_source = ''explicit'', a_freshAuth = False\<rparr>,
           \<lparr>vm_vmid = JNum 101, vm_name = JStr ''alpha'', vm_status = JStr ''running''\<rparr>,
           \<lparr>world = \<lparr>sim_clock = 0, sim_replies = [], sim_dirs = [], sim_files = []\<rparr>,
            trace = [(listRequest ''https://10.0.0.4:8006'' ''pve'' (JStr ''TICKET'') (JStr ''CSRF'')
                        (Some True),
                      reply 200 (vmList ''running''))],
            written = []\<rparr>)"
  by (simp add: resolved_def resolveAuth_def resolveVm_def authOpts_def sim_simps run_simps)

theorem zero_window_witness:
  "nullish (sa_waitSeconds argsZero) 120 \<le> 0
   \<and> getVmIpWithRetry simP ''u'' ''pve'' (JNum 101) (JStr ''T'') (JStr ''C'') (Some True) 0 5
        (sim0 [reply 200 agentReply]) = Some (Inr None, sim0 [reply 200 agentReply])
   \<and> map_option fst (start simP g0 ctx0 argsZero (sim0 [reply 200 (vmList ''running'')])) =
        Some (Inl (missingIpError ''alpha'' (JNum 101) 0))"
proof -
  let ?a = "\<lparr>a_ticket = JStr ''TICKET'', a_csrfToken = JStr ''CSRF'', a_username = None,
             a_source = ''explicit'', a_freshAuth = False\<rparr>"
  let ?v = "\<lparr>vm_vmid = JNum 101, vm_name = JStr ''alpha'', vm_status = JStr ''running''\<rparr>"
  let ?s2 = "\<lparr>world = \<lparr>sim_clock = 0, sim_replies = [], sim_dirs = [], sim_files = []\<rparr>,
              trace = [(listRequest ''https://10.0.0.4:8006'' ''pve'' (JStr ''TICKET'') (JStr ''CSRF'')
                        (Some True),
                      reply 200 (vmList ''running''))],
              written = []\<rparr>"
  have Z: "nullish (sa_waitSeconds argsZero) 120 \<le> 0"
    by (simp add: argsZero_def nullish_def)
  have R: "resolved simP g0 ctx0 (sa_vmName argsZero) (sim0 [reply 200 (vmList ''running'')])
             = Some (?a, ?v, ?s2)"
    using resolved_alpha_running by (simp add: argsZero_def)
  have B: "startIfStopped simP g0 (a_ticket ?a) (a_csrfToken ?a) ?v ?s2
             = Some (Inr (False, [Tpl ''VM is already running'' []]), ?s2)"
    by (simp add: startIfStopped_def Let_def ret_def)
  note T1 = zero_window[where waitSeconds=0 and P=simP and apiUrl="''u''" and node="''pve''"
             and vmid="JNum 101" and ticket="JStr ''T''" and csrfToken="JStr ''C''"
             and skipTlsVerify="Some True" and pollInterval=5 and s="sim0 [reply 200 agentReply]"]
  note T = zero_window[where P=simP and args=argsZero and g=g0 and ctx=ctx0
             and s="sim0 [reply 200 (vmList ''running'')]"]
  from T1 have A: "getVmIpWithRetry simP ''u'' ''pve'' (JNum 101) (JStr ''T'') (JStr ''C'') (Some True) 0 5
        (sim0 [reply 200 agentReply]) = Some (Inr None, sim0 [reply 200 agentReply])"
    by simp
  from T Z have "\<forall>a v s2 w added s3.
              resolved simP g0 ctx0 (sa_vmName argsZero) (sim0 [reply 200 (vmList ''running'')])
                = Some (a, v, s2)
              \<and> startIfStopped simP g0 (a_ticket a) (a_csrfToken a) v s2 = Some (Inr (w, added), s3) \<longrightarrow>
              start simP g0 ctx0 argsZero (sim0 [reply 200 (vmList ''running'')]) =
                Some (Inl (missingIpError (sa_vmName argsZero) (vm_vmid v)
                             (nullish (sa_waitSeconds argsZero) 120)), s3)"
    by blast
  from this[rule_format, of ?a ?v ?s2 False "[Tpl ''VM is already running'' []]" ?s2] R B
  have "start simP g0 ctx0 argsZero (sim0 [reply 200 (vmList ''running'')]) =
          Some (Inl (missingIpError (sa_vmName argsZero) (vm_vmid ?v)
                             (nullish (sa_waitSeconds argsZero) 120)), ?s2)"
    by blast
  then have "map_option fst (start simP g0 ctx0 argsZero (sim0 [reply 200 (vmList ''running'')])) =
        Some (Inl (missingIpError ''alpha'' (JNum 101) 0))"
    by (simp add: argsZero_def nullish_def)
  with Z A show ?thesis by blast
qed

lemmas op_defs = start_def stop_def delete_def create_def sync_def startIfStopped_def awaitIp_def
  stopBeforeDelete_def stopAttempt_def deleteVm_def resolveAuth_def resolveVm_def waitForTask_def
  waitForTask_loop.simps getVmIpWithRetry_def getVmIp_loop.simps poll_result_def authOpts_def
  startsWith127_def Let_def

text \<open>
  Against C10 as stated: two runs of \<open>start\<close> with a wait window of zero seconds that throw
  another error than the missing-IP one. In the first \<open>alpha\<close> is stopped and its start task
  ends with \<^verbatim>\<open>ERR\<close>; in the second the node lists no VM.
\<close>

theorem zero_window_other_errors:
  "nullish (sa_waitSeconds argsZero) 120 \<le> 0
   \<and> map_option fst (start simP g0 ctx0 argsZero (sim0 (taskScript (vmList ''stopped'') ''ERR''))) =
        Some (Inl (Error (Tpl ''VM start failed: {}'' [JStr ''ERR''])))
   \<and> map_option fst (start simP g0 ctx0 argsZero (sim0 [reply 200 (JObj [(''data'', JArr [])])])) =
        Some (Inl (Error (Tpl ''VM {} not found. Available: {}'' [JStr ''alpha'', JArr []])))"
  by (simp add: op_defs taskScript_def argsZero_def sim_simps run_simps vmRequest_def)



lemma start_trace_prefix:
  assumes "start P g ctx args s = Some (r, s')"
  shows "trace s' = trace s @ new_trace s s'"
proof -
  from start_run[OF assms] obtain xs where "trace s' = trace s @ xs" by blast
  then show ?thesis by (simp add: new_trace_def)
qed



section \<open>A call and the wait for its task\<close>

lemma callAndWait_cases:
  assumes "callAndWait P rq failure u n t c k K s = Some (r, s')"
  obtains (NoTask) rr e where "trace s' = trace s @ [(rq, rr)]" "written s' = written s"
      "r = Inl e"
    | (WaitThrew) rr ws e where "trace s' = trace s @ (rq, rr) # ws" "written s' = written s"
      "r = Inl e" "ws \<noteq> []" "filter (\<lambda>x. \<not> is_task_poll (fst x)) ws = []"
      "trace_exit ws = None"
    | (Waited) rr ws tr s1 where "trace s1 = trace s @ (rq, rr) # ws" "written s1 = written s"
      "ws \<noteq> []" "filter (\<lambda>x. \<not> is_task_poll (fst x)) ws = []"
      "trace_exit ws = Some (exitstatus tr)" "success tr = (exitstatus tr = JStr ''OK'')"
      "K tr s1 = Some (r, s')"
proof -
  obtain rr s0 where F: "fetchWithCurl P rq s = Some (rr, s0)"
    using fetch_total by blast
  note F1 = fetch_run[OF F]
  show thesis
  proof (cases "\<exists>resp upid. rr = Inr resp \<and> ok resp \<and> json_data resp = Inr upid")
    case False
    have "s' = s0 \<and> (\<exists>e. r = Inl e)"
    proof (cases rr)
      case (Inl e)
      with assms F show ?thesis
        by (auto simp: callAndWait_def bind_def)
    next
      case (Inr resp)
      show ?thesis
      proof (cases "ok resp")
        case False
        with assms F Inr show ?thesis
          by (auto simp: callAndWait_def bind_def throw_apply)
      next
        case okT: True
        with False Inr obtain e where "json_data resp = Inl e"
          by (cases "json_data resp") auto
        with assms F Inr okT show ?thesis
          by (auto simp: callAndWait_def bind_def lift_apply)
      qed
    qed
    with F1 show ?thesis by (auto intro: NoTask)
  next
    case True
    then obtain resp upid where R: "rr = Inr resp" "ok resp" "json_data resp = Inr upid"
      by blast
    from assms F R have B: "bind (waitForTask P u n upid t c k) K s0 = Some (r, s')"
      by (simp add: callAndWait_def bind_Inr[where m="fetchWithCurl P rq"] bind_lift_Inr)
    from B show ?thesis
    proof (cases rule: bindE)
      case (Thrown e)
      from waitForTask_run[OF Thrown(1)] obtain ws where
        W: "written s' = written s0" "trace s' = trace s0 @ ws" "ws \<noteq> []"
           "filter (\<lambda>x. \<not> is_task_poll (fst x)) ws = []" "trace_exit ws = None"
        by auto
      from W F1 Thrown(2) show ?thesis
        by (intro WaitThrew[of rr ws e]) simp_all
    next
      case (Returned tr s1)
      from waitForTask_run[OF Returned(1)] obtain ws where
        W: "written s1 = written s0" "trace s1 = trace s0 @ ws" "ws \<noteq> []"
           "filter (\<lambda>x. \<not> is_task_poll (fst x)) ws = []"
           "trace_exit ws = Some (exitstatus tr)" "success tr = (exitstatus tr = JStr ''OK'')"
        by auto
      from W F1 Returned(2) show ?thesis
        by (intro Waited[of s1 rr ws tr]) simp_all
    qed
  qed
qed

lemma trace_exit_call:
  assumes "\<not> is_task_poll rq"
  shows "trace_exit (pre @ [(rq, rr)]) = None"
    and "ws \<noteq> [] \<Longrightarrow> trace_exit (pre @ (rq, rr) # ws) = trace_exit ws"
  using assms by (simp_all add: trace_exit_def task_exit_def)

section \<open>stop, delete and create\<close>

lemma write_ret:
  "bind (writeResource P kind name attrs logs) (\<lambda>handle. ret [handle]) s =
     Some (Inr [length (written s)],
           s\<lparr>written := written s @
              [\<lparr>r_kind = kind, r_name = name, r_attrs = attrs, r_logs = logs,
                r_timestamp = date_now P (world s)\<rparr>]\<rparr>)"
  by (simp add: bind_def writeResource_def ret_def)

lemma stop_shape:
  "stop P g ctx vmName =
     bind (resolveAuth P g ctx authOpts)
       (\<lambda>auth. bind (resolveVm P (g_apiUrl g) (g_node g) vmName (a_ticket auth)
                        (a_csrfToken auth) (g_skipTlsVerify g))
          (\<lambda>vm.
             if vm_status vm = JStr ''stopped''
             then bind (writeResource P ''vm'' (vm_name vm)
                    [(''vmid'', vm_vmid vm), (''vmName'', vm_name vm), (''status'', JStr ''stopped''),
                     (''ip'', JNull), (''success'', JBool True)]
                    [Tpl ''Stopping VM {} on node {}'' [JStr vmName, JStr (g_node g)],
                     Tpl ''Found VM {} -> vmid {} [{}]'' [JStr vmName, vm_vmid vm, vm_status vm],
                     Tpl ''VM is already stopped'' []]) (\<lambda>handle. ret [handle])
             else
               callAndWait P
                 (vmRequest ''POST'' (stopUrl (g_apiUrl g) (g_node g) (vm_vmid vm))
                    (a_ticket auth) (a_csrfToken auth) (g_skipTlsVerify g))
                 (\<lambda>response. Error (Tpl ''Failed to stop VM: {} {}''
                       [JNum (rs_status response), JStr (rs_text response)]))
                 (g_apiUrl g) (g_node g) (a_ticket auth) (a_csrfToken auth)
                 (nullish (g_skipTlsVerify g) True)
                 (\<lambda>taskResult.
                    bind (writeResource P ''vm'' (vm_name vm)
                      [(''vmid'', vm_vmid vm), (''vmName'', vm_name vm), (''status'', JStr ''stopped''),
                       (''ip'', JNull), (''success'', JBool (success taskResult))]
                      [Tpl ''Stopping VM {} on node {}'' [JStr vmName, JStr (g_node g)],
                       Tpl ''Found VM {} -> vmid {} [{}]'' [JStr vmName, vm_vmid vm, vm_status vm],
                       Tpl ''Sending stop command for VM {}'' [vm_vmid vm],
                       Tpl ''Stop task initiated, waiting for completion'' [],
                       if success taskResult
                       then Tpl ''VM {} stopped successfully ({} polls)''
                              [vm_vmid vm, JNum (int (pollCount taskResult))]
                       else Tpl ''VM {} stop failed: {}'' [vm_vmid vm, exitstatus taskResult]])
                      (\<lambda>handle. ret [handle]))))"
  unfolding stop_def Let_def callAndWait_def by (simp cong: if_cong)

lemma deleteVm_shape:
  "deleteVm P g t c v logs2 =
     callAndWait P
       (vmRequest ''DELETE'' (vmUrl (g_apiUrl g) (g_node g) (vm_vmid v)) t c (g_skipTlsVerify g))
       (\<lambda>response. Error (Tpl ''Failed to delete VM: {} {}''
                     [JNum (rs_status response), JStr (rs_text response)]))
       (g_apiUrl g) (g_node g) t c (nullish (g_skipTlsVerify g) True)
       (\<lambda>taskResult.
          bind (writeResource P ''vm'' (vm_name v)
                 [(''vmid'', vm_vmid v), (''vmName'', vm_name v), (''status'', JStr ''deleted''),
                  (''ip'', JNull), (''success'', JBool (success taskResult))]
                 (logs2 @ [Tpl ''Sending delete command for VM {}'' [vm_vmid v],
                           Tpl ''Delete task initiated, waiting for completion'' [],
                           if success taskResult
                           then Tpl ''VM {} deleted successfully ({} polls)''
                                  [vm_vmid v, JNum (int (pollCount taskResult))]
                           else Tpl ''VM {} deletion failed: {}'' [vm_vmid v, exitstatus taskResult]]))
            (\<lambda>handle. ret [handle]))"
  unfolding deleteVm_def Let_def callAndWait_def by (simp cong: if_cong)

lemma deleteVm_run:
  assumes "deleteVm P g t c v logs2 s = Some (r, s')"
  shows "\<exists>dr rest. trace s' = trace s @
             (vmRequest ''DELETE'' (vmUrl (g_apiUrl g) (g_node g) (vm_vmid v)) t c (g_skipTlsVerify g), dr)
             # rest
        \<and> (\<forall>ex. trace_exit ((vmRequest ''DELETE'' (vmUrl (g_apiUrl g) (g_node g) (vm_vmid v)) t c
                                (g_skipTlsVerify g), dr) # rest) = Some ex \<longrightarrow>
               r = Inr [length (written s)] \<and>
               (\<exists>res. written s' = written s @ [res] \<and> r_name res = vm_name v \<and>
                  map_of (r_attrs res) ''success'' = Some (JBool (ex = JStr ''OK'')) \<and>
                  map_of (r_attrs res) ''status'' = Some (JStr ''deleted'') \<and>
                  set logs2 \<subseteq> set (r_logs res)))"
proof -
  let ?rq = "vmRequest ''DELETE'' (vmUrl (g_apiUrl g) (g_node g) (vm_vmid v)) t c (g_skipTlsVerify g)"
  have K: "\<not> is_task_poll ?rq" by (simp add: kind_defs)
  from assms[unfolded deleteVm_shape] show ?thesis
  proof (cases rule: callAndWait_cases)
    case (NoTask rr e)
    from NoTask(1) trace_exit_call(1)[OF K, of "[]" rr] show ?thesis
      by (intro exI[of _ rr] exI[of _ "[]"]) simp
  next
    case (WaitThrew rr ws e)
    from WaitThrew(1,4,6) trace_exit_call(2)[OF K, of ws "[]" rr] show ?thesis
      by (intro exI[of _ rr] exI[of _ ws]) simp
  next
    case (Waited rr ws tr s1)
    from Waited(7) have "\<exists>res. r = Inr [length (written s1)] \<and>
        written s' = written s1 @ [res] \<and> trace s' = trace s1 \<and>
        r_name res = vm_name v \<and>
        map_of (r_attrs res) ''success'' = Some (JBool (success tr)) \<and>
        map_of (r_attrs res) ''status'' = Some (JStr ''deleted'') \<and>
        set logs2 \<subseteq> set (r_logs res)"
      by (auto simp: write_ret)
    then obtain res where R: "r = Inr [length (written s1)]"
        "written s' = written s1 @ [res]" "trace s' = trace s1"
        "r_name res = vm_name v"
        "map_of (r_attrs res) ''success'' = Some (JBool (success tr))"
        "map_of (r_attrs res) ''status'' = Some (JStr ''deleted'')"
        "set logs2 \<subseteq> set (r_logs res)"
      by blast
    have E: "trace_exit ((?rq, rr) # ws) = Some (exitstatus tr)"
      using trace_exit_call(2)[OF K Waited(3), of "[]" rr] Waited(5) by simp
    show ?thesis
    proof (intro exI[of _ rr] exI[of _ ws] conjI allI impI)
      show "trace s' = trace s @ (?rq, rr) # ws" using R(3) Waited(1) by simp
      fix ex assume "trace_exit ((?rq, rr) # ws) = Some ex"
      with E have X: "ex = exitstatus tr" by simp
      show "r = Inr [length (written s)]" using R(1) Waited(2) by simp
      show "\<exists>res. written s' = written s @ [res] \<and> r_name res = vm_name v \<and>
                  map_of (r_attrs res) ''success'' = Some (JBool (ex = JStr ''OK'')) \<and>
                  map_of (r_attrs res) ''status'' = Some (JStr ''deleted'') \<and>
                  set logs2 \<subseteq> set (r_logs res)"
        using R(2,4-7) Waited(2,6) X by (intro exI[of _ res]) simp
    qed
  qed
qed

lemma stopBeforeDelete_run:
  assumes "stopBeforeDelete P u n v t c k s = Some (r, s')"
  shows "\<exists>line xs. r = Inr line \<and> written s' = written s \<and> trace s' = trace s @ xs"
proof -
  let ?rq = "vmRequest ''POST'' (stopUrl u n (vm_vmid v)) t c k"
  let ?body = "callAndWait P ?rq (\<lambda>response. TypeError) u n t c (nullish k True)
                 (\<lambda>stopResult. ret (Tpl ''VM {} stop: {}'' [vm_vmid v, exitstatus stopResult]))"
  obtain rr s0 where F: "fetchWithCurl P ?rq s = Some (rr, s0)"
    using fetch_total by blast
  note F1 = fetch_run[OF F]
  show ?thesis
  proof (cases "\<exists>resp. rr = Inr resp \<and> ok resp")
    case False
    have "s' = s0 \<and> (\<exists>line. r = Inr line)"
    proof (cases rr)
      case (Inl e)
      with assms F show ?thesis
        by (auto simp: stopBeforeDelete_def stopAttempt_def catch_def bind_def ret_def)
    next
      case (Inr resp)
      with False have "\<not> ok resp" by simp
      with assms F Inr show ?thesis
        by (auto simp: stopBeforeDelete_def stopAttempt_def catch_def bind_def ret_def)
    qed
    with F1 show ?thesis by auto
  next
    case True
    then obtain resp where R: "rr = Inr resp" "ok resp" by blast
    show ?thesis
    proof (cases "json_data resp")
      case (Inl e)
      with assms F R have "s' = s0 \<and> (\<exists>line. r = Inr line)"
        by (auto simp: stopBeforeDelete_def stopAttempt_def catch_def bind_def ret_def lift_def)
      with F1 show ?thesis by auto
    next
      case (Inr upid)
      let ?w = "waitForTask P u n upid t c (nullish k True)"
      show ?thesis
      proof (cases "?w s0")
        case None
        with assms F R Inr show ?thesis
          by (auto simp: stopBeforeDelete_def stopAttempt_def catch_def bind_def ret_def lift_def)
      next
        case (Some y)
        obtain wr s1 where Y: "y = (wr, s1)" by (cases y)
        from waitForTask_run[of P u n upid t c "nullish k True" s0 wr s1] Some Y obtain ws where
          W: "written s1 = written s0" "trace s1 = trace s0 @ ws" by auto
        from assms F R Inr Some Y have "s' = s1 \<and> (\<exists>line. r = Inr line)"
          by (cases wr) (auto simp: stopBeforeDelete_def stopAttempt_def catch_def bind_def ret_def lift_def)
        with W F1 show ?thesis by auto
      qed
    qed
  qed
qed

lemma delete_shape:
  "delete P g ctx vmName =
     bind (resolveAuth P g ctx authOpts)
       (\<lambda>auth. bind (resolveVm P (g_apiUrl g) (g_node g) vmName (a_ticket auth)
                        (a_csrfToken auth) (g_skipTlsVerify g))
         ((\<lambda>auth vm.
            bind
              (if vm_status vm \<noteq> JStr ''stopped''
               then bind (stopBeforeDelete P (g_apiUrl g) (g_node g) vm (a_ticket auth)
                            (a_csrfToken auth) (g_skipTlsVerify g))
                      (\<lambda>line. ret ([Tpl ''Deleting VM {} on node {}'' [JStr vmName, JStr (g_node g)],
                                     Tpl ''Found VM {} -> vmid {} [{}]''
                                       [JStr vmName, vm_vmid vm, vm_status vm],
                                     Tpl ''VM is {}, stopping first'' [vm_status vm], line]))
               else ret [Tpl ''Deleting VM {} on node {}'' [JStr vmName, JStr (g_node g)],
                         Tpl ''Found VM {} -> vmid {} [{}]''
                           [JStr vmName, vm_vmid vm, vm_status vm]])
              (\<lambda>logs2. deleteVm P g (a_ticket auth) (a_csrfToken auth) vm logs2)) auth))"
  unfolding delete_def Let_def by (simp cong: if_cong)

lemma create_shape:
  "create P g ctx args =
     bind (resolveAuth P g ctx authOpts) (\<lambda>auth.
       bind (fetchWithCurl P
              \<lparr>rq_method = ''GET'', rq_url = nextIdUrl (g_apiUrl g),
               rq_headers = authHeaders (a_ticket auth) (a_csrfToken auth), rq_body = None,
               rq_skipTlsVerify = nullish (g_skipTlsVerify g) True\<rparr>) (\<lambda>nextIdResponse.
         if \<not> ok nextIdResponse
         then throw (Error (Tpl ''Failed to get next VM ID: {}'' [JStr (rs_text nextIdResponse)]))
         else
           bind (lift (json_data nextIdResponse)) (\<lambda>d.
             callAndWait P (createRequest g (a_ticket auth) (a_csrfToken auth) args (parseIntJs d))
               (\<lambda>response. Error (Tpl ''Failed to create VM: {} {} - {}''
                         [JNum (rs_status response), JStr (rs_statusText response),
                          JStr (rs_text response)]))
               (g_apiUrl g) (g_node g) (a_ticket auth) (a_csrfToken auth)
               (nullish (g_skipTlsVerify g) True)
               (\<lambda>taskResult.
                  if \<not> success taskResult
                  then throw (Error (Tpl ''VM creation failed: {}'' [exitstatus taskResult]))
                  else
                    bind (writeResource P ''vm'' (JStr (ca_vmName args))
                           [(''vmid'', parseIntJs d), (''vmName'', JStr (ca_vmName args)),
                            (''status'', JStr ''stopped''),
                            (''ip'', JNull), (''success'', JBool True)]
                           [Tpl ''Creating VM {} on node {}'' [JStr (ca_vmName args), JStr (g_node g)],
                            Tpl ''Fetching next available VM ID'' [],
                            Tpl ''Got next VM ID: {}'' [parseIntJs d],
                            Tpl ''Specs: {}MB RAM, {} cores, {}''
                              [JNum (nullish (ca_memory args) 2048), JNum (nullish (ca_cores args) 2),
                               if ca_diskSize args \<noteq> Some 0
                               then JTpl ''{}GB disk'' [JNum (nullish (ca_diskSize args) 32)]
                               else JStr ''no disk (PXE)''],
                            Tpl ''VM creation task started, waiting for completion'' [],
                            Tpl ''VM {} ({}) created successfully ({} polls)''
                              [parseIntJs d, JStr (ca_vmName args),
                               JNum (int (pollCount taskResult))]])
                      (\<lambda>handle. ret [handle])))))"
  unfolding create_def Let_def callAndWait_def by (simp cong: if_cong)

lemma createRequest_boot:
  "requested_boot [(createRequest g t c args vmid, rr)] = [bootOrder args]"
  by (simp add: requested_boot_def List.map_filter_def createRequest_def createParams_def
        is_create_call_def url_text_def listUrl_def bootOrder_def Let_def)

lemma create_run:
  assumes "create P g ctx args s = Some (r, s')"
  shows "\<exists>xs. trace s' = trace s @ xs
        \<and> (requested_boot xs = [] \<or> requested_boot xs = [bootOrder args])
        \<and> (\<forall>hs. r = Inr hs \<longrightarrow>
               requested_boot xs = [bootOrder args] \<and> hs = [length (written s)] \<and>
               trace_exit xs = Some (JStr ''OK'') \<and>
               (\<exists>res. written s' = written s @ [res] \<and> r_name res = JStr (ca_vmName args) \<and>
                  map_of (r_attrs res) ''status'' = Some (JStr ''stopped'') \<and>
                  map_of (r_attrs res) ''success'' = Some (JBool True)))
        \<and> (\<forall>e. r = Inl e \<longrightarrow> written s' = written s)
        \<and> (\<forall>ex. trace_exit xs = Some ex \<and> ex \<noteq> JStr ''OK'' \<longrightarrow>
               r = Inl (Error (Tpl ''VM creation failed: {}'' [ex])))"
  using assms unfolding create_shape
proof (cases rule: bindE)
  case (Thrown e)
  from resolveAuth_run[OF Thrown(1)] obtain xs where
    X: "written s' = written s" "trace s' = trace s @ xs" "quiet xs" by blast
  from quiet_facts[OF X(3)] X(1,2) Thrown(2) show ?thesis
    by (intro exI[of _ xs]) (simp add: requested_boot_none)
next
  case (Returned a s1)
  from resolveAuth_run[OF Returned(1)] obtain pre where
    A: "written s1 = written s" "trace s1 = trace s @ pre" "quiet pre" by blast
  let ?nq = "\<lparr>rq_method = ''GET'', rq_url = nextIdUrl (g_apiUrl g),
               rq_headers = authHeaders (a_ticket a) (a_csrfToken a), rq_body = None,
               rq_skipTlsVerify = nullish (g_skipTlsVerify g) True\<rparr>"
  have NQ: "quiet [(?nq, nr)]" for nr
    by (simp add: quiet_simps kind_defs)
  from Returned(2) show ?thesis
  proof (cases rule: bindE)
    case (Thrown e)
    from fetch_run[OF Thrown(1)] A have
      X: "written s' = written s" "trace s' = trace s @ (pre @ [(?nq, Inl e)])" by simp_all
    have "quiet (pre @ [(?nq, Inl e)])" using A(3) NQ by (simp add: quiet_simps)
    from quiet_facts[OF this] X Thrown(2) show ?thesis
      by (intro exI[of _ "pre @ [(?nq, Inl e)]"]) (simp add: requested_boot_none)
  next
    case (Returned resp s2)
    from fetch_run[OF Returned(1)] A have
      N: "written s2 = written s" "trace s2 = trace s @ (pre @ [(?nq, Inr resp)])" by simp_all
    have QN: "quiet (pre @ [(?nq, Inr resp)])" using A(3) NQ by (simp add: quiet_simps)
    note Q = quiet_facts[OF QN]
    let ?pre = "pre @ [(?nq, Inr resp)]"
    show ?thesis
    proof (cases "ok resp \<and> (\<exists>d. json_data resp = Inr d)")
      case False
      with Returned(2) have "s' = s2 \<and> (\<exists>e. r = Inl e)"
        by (cases "json_data resp") (auto simp: throw_def bind_def lift_def split: if_splits)
      with N Q show ?thesis
        by (intro exI[of _ ?pre]) (auto simp: requested_boot_none)
    next
      case True
      then obtain d where D: "ok resp" "json_data resp = Inr d" by blast
      let ?rq = "createRequest g (a_ticket a) (a_csrfToken a) args (parseIntJs d)"
      have K: "\<not> is_task_poll ?rq" by (simp add: kind_defs)
      have B: "requested_boot (?pre @ (?rq, rr) # ws) = [bootOrder args]"
        if "filter (\<lambda>x. \<not> is_task_poll (fst x)) ws = []" for rr ws
        using requested_boot_append[of ?pre "[(?rq, rr)] @ ws"]
          requested_boot_append[of "[(?rq, rr)]" ws]
          requested_boot_none[OF Q(3)] requested_boot_none[OF only_task_polls(3)[OF that]]
          createRequest_boot[of g "a_ticket a" "a_csrfToken a" args "parseIntJs d" rr]
        by simp
      from Returned(2) D have C: "callAndWait P ?rq
               (\<lambda>response. Error (Tpl ''Failed to create VM: {} {} - {}''
                         [JNum (rs_status response), JStr (rs_statusText response),
                          JStr (rs_text response)]))
               (g_apiUrl g) (g_node g) (a_ticket a) (a_csrfToken a)
               (nullish (g_skipTlsVerify g) True)
               (\<lambda>taskResult.
                  if \<not> success taskResult
                  then throw (Error (Tpl ''VM creation failed: {}'' [exitstatus taskResult]))
                  else
                    bind (writeResource P ''vm'' (JStr (ca_vmName args))
                           [(''vmid'', parseIntJs d), (''vmName'', JStr (ca_vmName args)),
                            (''status'', JStr ''stopped''),
                            (''ip'', JNull), (''success'', JBool True)]
                           [Tpl ''Creating VM {} on node {}'' [JStr (ca_vmName args), JStr (g_node g)],
                            Tpl ''Fetching next available VM ID'' [],
                            Tpl ''Got next VM ID: {}'' [parseIntJs d],
                            Tpl ''Specs: {}MB RAM, {} cores, {}''
                              [JNum (nullish (ca_memory args) 2048), JNum (nullish (ca_cores args) 2),
                               if ca_diskSize args \<noteq> Some 0
                               then JTpl ''{}GB disk'' [JNum (nullish (ca_diskSize args) 32)]
                               else JStr ''no disk (PXE)''],
                            Tpl ''VM creation task started, waiting for completion'' [],
                            Tpl ''VM {} ({}) created successfully ({} polls)''
                              [parseIntJs d, JStr (ca_vmName args),
                               JNum (int (pollCount taskResult))]])
                      (\<lambda>handle. ret [handle])) s2 = Some (r, s')"
        by (simp add: bind_lift_Inr)
      from C show ?thesis
      proof (cases rule: callAndWait_cases)
        case (NoTask rr e)
        from NoTask N trace_exit_call(1)[OF K, of ?pre rr] B[of "[]" rr] show ?thesis
          by (intro exI[of _ "?pre @ [(?rq, rr)]"]) simp
      next
        case (WaitThrew rr ws e)
        from WaitThrew(1-3,6) N trace_exit_call(2)[OF K WaitThrew(4), of ?pre rr]
          B[OF WaitThrew(5), of rr]
        show ?thesis
          by (intro exI[of _ "?pre @ (?rq, rr) # ws"]) simp
      next
        case (Waited rr ws tr s3)
        have E: "trace_exit (?pre @ (?rq, rr) # ws) = Some (exitstatus tr)"
          using trace_exit_call(2)[OF K Waited(3), of ?pre rr] Waited(5) by simp
        note B1 = B[OF Waited(4), of rr]
        have T: "trace s3 = trace s @ ?pre @ (?rq, rr) # ws" using Waited(1) N(2) by simp
        show ?thesis
        proof (cases "success tr")
          case False
          with Waited(7) have R: "r = Inl (Error (Tpl ''VM creation failed: {}'' [exitstatus tr]))"
            "s' = s3" by (simp_all add: throw_def)
          from R T Waited(2) N(1) E B1 show ?thesis
            by (intro exI[of _ "?pre @ (?rq, rr) # ws"]) simp
        next
          case True
          with Waited(7) have "\<exists>res. r = Inr [length (written s3)] \<and>
               written s' = written s3 @ [res] \<and> trace s' = trace s3 \<and>
               r_name res = JStr (ca_vmName args) \<and>
               map_of (r_attrs res) ''status'' = Some (JStr ''stopped'') \<and>
               map_of (r_attrs res) ''success'' = Some (JBool True)"
            by (auto simp: write_ret)
          then obtain res where R: "r = Inr [length (written s3)]"
               "written s' = written s3 @ [res]" "trace s' = trace s3"
               "r_name res = JStr (ca_vmName args)"
               "map_of (r_attrs res) ''status'' = Some (JStr ''stopped'')"
               "map_of (r_attrs res) ''success'' = Some (JBool True)"
            by blast
          from True Waited(6) have OK: "exitstatus tr = JStr ''OK''" by simp
          show ?thesis
          proof (intro exI[of _ "?pre @ (?rq, rr) # ws"] conjI allI impI)
            show "trace s' = trace s @ ?pre @ (?rq, rr) # ws" using R(3) T by simp
            show "requested_boot (?pre @ (?rq, rr) # ws) = [] \<or>
                  requested_boot (?pre @ (?rq, rr) # ws) = [bootOrder args]"
              using B1 by simp
          next
            fix hs assume "r = Inr hs"
            with R(1) Waited(2) N(1) show "hs = [length (written s)]" by simp
            show "requested_boot (?pre @ (?rq, rr) # ws) = [bootOrder args]" by (rule B1)
            show "trace_exit (?pre @ (?rq, rr) # ws) = Some (JStr ''OK'')" using E OK by simp
            show "\<exists>res. written s' = written s @ [res] \<and> r_name res = JStr (ca_vmName args) \<and>
                  map_of (r_attrs res) ''status'' = Some (JStr ''stopped'') \<and>
                  map_of (r_attrs res) ''success'' = Some (JBool True)"
              using R(2,4-6) Waited(2) N(1) by (intro exI[of _ res]) simp
          next
            fix e assume "r = Inl e"
            with R(1) show "written s' = written s" by simp
          next
            fix ex assume "trace_exit (?pre @ (?rq, rr) # ws) = Some ex \<and> ex \<noteq> JStr ''OK''"
            with E OK show "r = Inl (Error (Tpl ''VM creation failed: {}'' [ex]))" by auto
          qed
        qed
      qed
    qed
  qed
qed

section \<open>The boot order of a created VM\<close>

lemma bootOrder_pxe: "pxe_first (bootOrder args)" "\<not> disk_first (bootOrder args)"
  by (simp_all add: bootOrder_def pxe_first_def disk_first_def boot_devices_def)

text \<open>
  C2, amended. Every create call that a run of \<open>create\<close> makes asks for the boot order
  \<^verbatim>\<open>order=net0\<close> when the requested disk size is 0 and for \<^verbatim>\<open>order=net0;scsi0\<close> otherwise
  (also when no disk size is given): the network device comes first in both, so the order is
  PXE-first and never disk-first; with a disk, the disk is the second device. A run that
  returns handles has made exactly one such call and has written exactly one resource version,
  under the VM's name, with status \<^verbatim>\<open>stopped\<close> and success true.
\<close>

theorem create_boot_order:
  "(\<forall>r s'. create P g ctx args s = Some (r, s') \<longrightarrow>
      (\<forall>b \<in> set (requested_boot (new_trace s s')).
          b = Tpl (if ca_diskSize args = Some 0 then ''order=net0'' else ''order=net0;scsi0'') []
          \<and> pxe_first b \<and> \<not> disk_first b)
    \<and> (\<forall>hs. r = Inr hs \<longrightarrow>
          requested_boot (new_trace s s') =
            [Tpl (if ca_diskSize args = Some 0 then ''order=net0'' else ''order=net0;scsi0'') []]
          \<and> (\<exists>res. written s' = written s @ [res] \<and> r_name res = JStr (ca_vmName args) \<and>
                map_of (r_attrs res) ''status'' = Some (JStr ''stopped'') \<and>
                map_of (r_attrs res) ''success'' = Some (JBool True))))"
proof (intro allI impI)
  fix r s' assume C: "create P g ctx args s = Some (r, s')"
  from create_run[OF C] obtain xs where
    X: "trace s' = trace s @ xs"
       "requested_boot xs = [] \<or> requested_boot xs = [bootOrder args]"
       "\<forall>hs. r = Inr hs \<longrightarrow>
               requested_boot xs = [bootOrder args] \<and> hs = [length (written s)] \<and>
               trace_exit xs = Some (JStr ''OK'') \<and>
               (\<exists>res. written s' = written s @ [res] \<and> r_name res = JStr (ca_vmName args) \<and>
                  map_of (r_attrs res) ''status'' = Some (JStr ''stopped'') \<and>
                  map_of (r_attrs res) ''success'' = Some (JBool True))"
    by blast
  from X(1) have N: "new_trace s s' = xs" by (simp add: new_trace_def)
  have B: "bootOrder args =
      Tpl (if ca_diskSize args = Some 0 then ''order=net0'' else ''order=net0;scsi0'') []"
    by (simp add: bootOrder_def)
  show "(\<forall>b \<in> set (requested_boot (new_trace s s')).
          b = Tpl (if ca_diskSize args = Some 0 then ''order=net0'' else ''order=net0;scsi0'') []
          \<and> pxe_first b \<and> \<not> disk_first b)
    \<and> (\<forall>hs. r = Inr hs \<longrightarrow>
          requested_boot (new_trace s s') =
            [Tpl (if ca_diskSize args = Some 0 then ''order=net0'' else ''order=net0;scsi0'') []]
          \<and> (\<exists>res. written s' = written s @ [res] \<and> r_name res = JStr (ca_vmName args) \<and>
                map_of (r_attrs res) ''status'' = Some (JStr ''stopped'') \<and>
                map_of (r_attrs res) ''success'' = Some (JBool True)))"
    unfolding N B[symmetric]
  proof (intro conjI ballI allI impI)
    fix b assume "b \<in> set (requested_boot xs)"
    with X(2) have "b = bootOrder args" by auto
    then show "b = bootOrder args" "pxe_first b" "\<not> disk_first b"
      by (simp_all add: bootOrder_pxe)
  next
    fix hs assume R: "r = Inr hs"
    from X(3)[rule_format, OF R] show "requested_boot xs = [bootOrder args]"
      and "\<exists>res. written s' = written s @ [res] \<and> r_name res = JStr (ca_vmName args) \<and>
                map_of (r_attrs res) ''status'' = Some (JStr ''stopped'') \<and>
                map_of (r_attrs res) ''success'' = Some (JBool True)"
      by simp_all
  qed
qed

lemma create_disk_sim:
  "\<exists>s'. create simP g0 ctx0 argsDisk (sim0 (taskScript nextId ''OK'')) = Some (Inr [0], s')
      \<and> map (\<lambda>r. (r_name r, r_attrs r)) (written s') =
          [(JStr ''beta'', [(''vmid'', JNum 100), (''vmName'', JStr ''beta''),
             (''status'', JStr ''stopped''), (''ip'', JNull), (''success'', JBool True)])]"
  by (simp add: op_defs argsDisk_def taskScript_def nextId_def sim_simps run_simps
        parseInt10_def is_space_def is_digit_def digits_value_def to_double_def num_val_def)

text \<open>
  Against C2 as stated: with a disk of 32 GB the run below succeeds, and the one boot order it
  has asked for is \<^verbatim>\<open>order=net0;scsi0\<close>, whose first device is the network, not the disk.
\<close>

theorem create_disk_not_first:
  "ca_diskSize argsDisk = Some 32 \<and>
   map_option (\<lambda>x. (fst x, requested_boot (trace (snd x)),
                     map boot_devices (requested_boot (trace (snd x))),
                     map disk_first (requested_boot (trace (snd x)))))
     (create simP g0 ctx0 argsDisk (sim0 (taskScript nextId ''OK''))) =
   Some (Inr [0], [Tpl ''order=net0;scsi0'' []], [[''net0'', ''scsi0'']], [False])"
  by (simp add: op_defs argsDisk_def taskScript_def nextId_def sim_simps run_simps
        parseInt10_def is_space_def is_digit_def digits_value_def to_double_def num_val_def
        requested_boot_def List.map_filter_def createRequest_def createParams_def
        is_create_call_def url_text_def listUrl_def nextIdUrl_def taskStatusUrl_def taskStatusRequest_def
        authHeaders_def boot_devices_def disk_first_def)

text \<open>A run on the scripted platform: a 32 GB disk, next id 100, the task ends with OK.\<close>

theorem create_boot_order_witness:
  "\<exists>s'. create simP g0 ctx0 argsDisk (sim0 (taskScript nextId ''OK'')) = Some (Inr [0], s')
      \<and> requested_boot (new_trace (sim0 (taskScript nextId ''OK'')) s') = [Tpl ''order=net0;scsi0'' []]
      \<and> (\<exists>res. written s' = written (sim0 (taskScript nextId ''OK'')) @ [res] \<and>
             r_name res = JStr ''beta'' \<and>
             map_of (r_attrs res) ''status'' = Some (JStr ''stopped'') \<and>
             map_of (r_attrs res) ''success'' = Some (JBool True))"
proof -
  from create_disk_sim obtain s' where
    S: "create simP g0 ctx0 argsDisk (sim0 (taskScript nextId ''OK'')) = Some (Inr [0], s')"
    by (elim exE conjE) (rule that)
  note T = create_boot_order[where P=simP and g=g0 and ctx=ctx0 and args=argsDisk
             and s="sim0 (taskScript nextId ''OK'')", rule_format, OF S, THEN conjunct2,
             rule_format, OF refl]
  have A: "ca_diskSize argsDisk \<noteq> Some 0" "ca_vmName argsDisk = ''beta''"
    by (simp_all add: argsDisk_def)
  from T show ?thesis unfolding A if_False
    by (intro exI[of _ s'] conjI S) (simp_all add: A)
qed

section \<open>A task that ends with a failure\<close>

lemmas obs_defs = last_exit_def new_trace_def trace_exit_def task_exit_def poll_exit_def
  is_task_poll_def url_text_def taskStatusRequest_def taskStatusUrl_def

lemma awaitedD:
  assumes "awaited P g a rq s = Some (tr, s3)"
  shows "\<exists>resp upid s1. fetchWithCurl P rq s = Some (Inr resp, s1) \<and> ok resp \<and>
           json_data resp = Inr upid \<and>
           waitForTask P (g_apiUrl g) (g_node g) upid (a_ticket a) (a_csrfToken a)
             (nullish (g_skipTlsVerify g) True) s1 = Some (Inr tr, s3)"
  using assms unfolding awaited_def
  by (auto split: option.splits sum.splits prod.splits if_splits)

lemma awaited_run:
  assumes "awaited P g a rq s = Some (tr, s3)"
  shows "written s3 = written s" and "success tr = (exitstatus tr = JStr ''OK'')"
proof -
  from awaitedD[OF assms] obtain resp upid s1 where
    F: "fetchWithCurl P rq s = Some (Inr resp, s1)"
    and W: "waitForTask P (g_apiUrl g) (g_node g) upid (a_ticket a) (a_csrfToken a)
             (nullish (g_skipTlsVerify g) True) s1 = Some (Inr tr, s3)"
    by blast
  from fetch_run[OF F] have A: "written s1 = written s" by simp
  from waitForTask_run[OF W] have B: "written s3 = written s1"
    and C: "success tr = (exitstatus tr = JStr ''OK'')" by blast+
  from A B show "written s3 = written s" by simp
  from C show "success tr = (exitstatus tr = JStr ''OK'')" .
qed

lemma callAndWait_awaited:
  assumes "awaited P g a rq s = Some (tr, s3)"
  shows "callAndWait P rq failure (g_apiUrl g) (g_node g) (a_ticket a) (a_csrfToken a)
           (nullish (g_skipTlsVerify g) True) K s = K tr s3"
proof -
  from awaitedD[OF assms] obtain resp upid s1 where
    F: "fetchWithCurl P rq s = Some (Inr resp, s1)" and O: "ok resp"
    and J: "json_data resp = Inr upid"
    and W: "waitForTask P (g_apiUrl g) (g_node g) upid (a_ticket a) (a_csrfToken a)
             (nullish (g_skipTlsVerify g) True) s1 = Some (Inr tr, s3)"
    by blast
  show ?thesis
    unfolding callAndWait_def
    by (simp add: bind_Inr[where m="fetchWithCurl P rq", OF F] O J bind_lift_Inr
          bind_Inr[where m="waitForTask P (g_apiUrl g) (g_node g) upid (a_ticket a) (a_csrfToken a)
             (nullish (g_skipTlsVerify g) True)", OF W])
qed

lemma startIfStopped_shape:
  "startIfStopped P g t c v =
     (if vm_status v = JStr ''stopped''
      then callAndWait P (vmRequest ''POST'' (startUrl (g_apiUrl g) (g_node g) (vm_vmid v)) t c
                            (g_skipTlsVerify g))
             (\<lambda>startResponse. Error (Tpl ''Failed to start VM: {} {}''
                       [JNum (rs_status startResponse), JStr (rs_text startResponse)]))
             (g_apiUrl g) (g_node g) t c (nullish (g_skipTlsVerify g) True)
             (\<lambda>taskResult.
                if \<not> success taskResult
                then throw (Error (Tpl ''VM start failed: {}'' [exitstatus taskResult]))
                else ret (True,
                  [Tpl ''VM is stopped, starting'' [],
                   Tpl ''VM {} started successfully ({} polls)''
                     [vm_vmid v, JNum (int (pollCount taskResult))]]))
      else ret (False, [Tpl ''VM is already running'' []]))"
  unfolding startIfStopped_def Let_def callAndWait_def by (simp cong: if_cong)

lemma stopAttempt_awaited:
  assumes "awaited P g a (vmRequest ''POST'' (stopUrl (g_apiUrl g) (g_node g) (vm_vmid v))
             (a_ticket a) (a_csrfToken a) (g_skipTlsVerify g)) s = Some (tr, s3)"
  shows "stopAttempt P (g_apiUrl g) (g_node g) v (a_ticket a) (a_csrfToken a) (g_skipTlsVerify g) s
           = Some (Inr (Tpl ''VM {} stop: {}'' [vm_vmid v, exitstatus tr]), s3)"
proof -
  from awaitedD[OF assms] obtain resp upid s1 where
    F: "fetchWithCurl P (vmRequest ''POST'' (stopUrl (g_apiUrl g) (g_node g) (vm_vmid v))
             (a_ticket a) (a_csrfToken a) (g_skipTlsVerify g)) s = Some (Inr resp, s1)"
    and O: "ok resp" and J: "json_data resp = Inr upid"
    and W: "waitForTask P (g_apiUrl g) (g_node g) upid (a_ticket a) (a_csrfToken a)
             (nullish (g_skipTlsVerify g) True) s1 = Some (Inr tr, s3)"
    by blast
  show ?thesis
    unfolding stopAttempt_def
    by (simp add: bind_Inr[where m="fetchWithCurl P (vmRequest ''POST''
                     (stopUrl (g_apiUrl g) (g_node g) (vm_vmid v))
                     (a_ticket a) (a_csrfToken a) (g_skipTlsVerify g))", OF F] O J bind_lift_Inr
          bind_Inr[where m="waitForTask P (g_apiUrl g) (g_node g) upid (a_ticket a) (a_csrfToken a)
             (nullish (g_skipTlsVerify g) True)", OF W] ret_def)
qed

lemma delete_from:
  assumes R: "resolved P g ctx vmName s = Some (a, v, s2)"
  shows "vm_status v = JStr ''stopped'' \<Longrightarrow>
           delete P g ctx vmName s =
             deleteVm P g (a_ticket a) (a_csrfToken a) v
               [Tpl ''Deleting VM {} on node {}'' [JStr vmName, JStr (g_node g)],
                Tpl ''Found VM {} -> vmid {} [{}]'' [JStr vmName, vm_vmid v, vm_status v]] s2"
    and "vm_status v \<noteq> JStr ''stopped'' \<Longrightarrow>
           stopBeforeDelete P (g_apiUrl g) (g_node g) v (a_ticket a) (a_csrfToken a)
             (g_skipTlsVerify g) s2 = Some (Inr line, s3) \<Longrightarrow>
           delete P g ctx vmName s =
             deleteVm P g (a_ticket a) (a_csrfToken a) v
               [Tpl ''Deleting VM {} on node {}'' [JStr vmName, JStr (g_node g)],
                Tpl ''Found VM {} -> vmid {} [{}]'' [JStr vmName, vm_vmid v, vm_status v],
                Tpl ''VM is {}, stopping first'' [vm_status v], line] s3"
  unfolding delete_shape resolved_bind[OF R]
  by (simp_all add: bind_def ret_def)

lemma deleteVm_awaited:
  assumes A: "awaited P g a (vmRequest ''DELETE'' (vmUrl (g_apiUrl g) (g_node g) (vm_vmid v))
                 (a_ticket a) (a_csrfToken a) (g_skipTlsVerify g)) s = Some (tr, s4)"
  shows "\<exists>s' res. deleteVm P g (a_ticket a) (a_csrfToken a) v logs2 s
                     = Some (Inr [length (written s)], s') \<and>
           trace s' = trace s4 \<and> written s' = written s @ [res] \<and> r_name res = vm_name v \<and>
           map_of (r_attrs res) ''status'' = Some (JStr ''deleted'') \<and>
           map_of (r_attrs res) ''success'' = Some (JBool (exitstatus tr = JStr ''OK'')) \<and>
           butlast (r_logs res) = logs2 @ [Tpl ''Sending delete command for VM {}'' [vm_vmid v],
                           Tpl ''Delete task initiated, waiting for completion'' []] \<and>
           last (r_logs res) =
             (if exitstatus tr = JStr ''OK''
              then Tpl ''VM {} deleted successfully ({} polls)''
                     [vm_vmid v, JNum (int (pollCount tr))]
              else Tpl ''VM {} deletion failed: {}'' [vm_vmid v, exitstatus tr])"
  unfolding deleteVm_shape callAndWait_awaited[OF A] write_ret
  using awaited_run[OF A] by (simp add: butlast_append)


text \<open>
  C1, amended. The task an operation waits for is the task of its own call: the start, the
  create, the stop or the delete call. When that task ends with an exit status other than
  \<^verbatim>\<open>OK\<close>, \<open>start\<close> and \<open>create\<close> throw, with the raw exit status in the message
  (\<^verbatim>\<open>VM start failed: ...\<close>, \<^verbatim>\<open>VM creation failed: ...\<close>), and have written no resource
  version. \<open>stop\<close> and \<open>delete\<close> do not throw: they return a handle, having written one
  resource version with success false and status \<^verbatim>\<open>stopped\<close>, respectively \<^verbatim>\<open>deleted\<close>,
  whose log ends with the line that reports the failure and the exit status. \<open>delete\<close> waits
  for one more task, that of the best-effort stop it makes first on a VM that is not stopped:
  whatever the exit status of that task, it is logged and the delete goes on.
\<close>

theorem task_failure_outcome:
  "(\<forall>a v s2 tr s3.
      resolved P g ctx (sa_vmName sargs) s = Some (a, v, s2) \<and> vm_status v = JStr ''stopped'' \<and>
      awaited P g a (vmRequest ''POST'' (startUrl (g_apiUrl g) (g_node g) (vm_vmid v))
                       (a_ticket a) (a_csrfToken a) (g_skipTlsVerify g)) s2 = Some (tr, s3) \<and>
      exitstatus tr \<noteq> JStr ''OK'' \<longrightarrow>
      start P g ctx sargs s = Some (Inl (Error (Tpl ''VM start failed: {}'' [exitstatus tr])), s3) \<and>
      written s3 = written s)
   \<and> (\<forall>a s1 nextIdResponse s2 d tr s3.
      resolveAuth P g ctx authOpts s = Some (Inr a, s1) \<and>
      fetchWithCurl P \<lparr>rq_method = ''GET'', rq_url = nextIdUrl (g_apiUrl g),
                        rq_headers = authHeaders (a_ticket a) (a_csrfToken a), rq_body = None,
                        rq_skipTlsVerify = nullish (g_skipTlsVerify g) True\<rparr> s1
        = Some (Inr nextIdResponse, s2) \<and>
      ok nextIdResponse \<and> json_data nextIdResponse = Inr d \<and>
      awaited P g a (createRequest g (a_ticket a) (a_csrfToken a) cargs (parseIntJs d)) s2
        = Some (tr, s3) \<and>
      exitstatus tr \<noteq> JStr ''OK'' \<longrightarrow>
      create P g ctx cargs s =
        Some (Inl (Error (Tpl ''VM creation failed: {}'' [exitstatus tr])), s3) \<and>
      written s3 = written s)
   \<and> (\<forall>a v s2 tr s3.
      resolved P g ctx vmName s = Some (a, v, s2) \<and> vm_status v \<noteq> JStr ''stopped'' \<and>
      awaited P g a (vmRequest ''POST'' (stopUrl (g_apiUrl g) (g_node g) (vm_vmid v))
                       (a_ticket a) (a_csrfToken a) (g_skipTlsVerify g)) s2 = Some (tr, s3) \<and>
      exitstatus tr \<noteq> JStr ''OK'' \<longrightarrow>
      (\<exists>s' res. stop P g ctx vmName s = Some (Inr [length (written s)], s') \<and>
         trace s' = trace s3 \<and> written s' = written s @ [res] \<and> r_name res = vm_name v \<and>
         map_of (r_attrs res) ''status'' = Some (JStr ''stopped'') \<and>
         map_of (r_attrs res) ''success'' = Some (JBool False) \<and>
         last (r_logs res) = Tpl ''VM {} stop failed: {}'' [vm_vmid v, exitstatus tr]))
   \<and> (\<forall>a v s2 s3 tr s4.
      resolved P g ctx vmName s = Some (a, v, s2) \<and>
      (if vm_status v = JStr ''stopped'' then s3 = s2
       else \<exists>line. stopBeforeDelete P (g_apiUrl g) (g_node g) v (a_ticket a) (a_csrfToken a)
                      (g_skipTlsVerify g) s2 = Some (Inr line, s3)) \<and>
      awaited P g a (vmRequest ''DELETE'' (vmUrl (g_apiUrl g) (g_node g) (vm_vmid v))
                       (a_ticket a) (a_csrfToken a) (g_skipTlsVerify g)) s3 = Some (tr, s4) \<and>
      exitstatus tr \<noteq> JStr ''OK'' \<longrightarrow>
      (\<exists>s' res. delete P g ctx vmName s = Some (Inr [length (written s)], s') \<and>
         trace s' = trace s4 \<and> written s' = written s @ [res] \<and> r_name res = vm_name v \<and>
         map_of (r_attrs res) ''status'' = Some (JStr ''deleted'') \<and>
         map_of (r_attrs res) ''success'' = Some (JBool False) \<and>
         last (r_logs res) = Tpl ''VM {} deletion failed: {}'' [vm_vmid v, exitstatus tr]))
   \<and> (\<forall>a v s2 tr s3.
      resolved P g ctx vmName s = Some (a, v, s2) \<and> vm_status v \<noteq> JStr ''stopped'' \<and>
      awaited P g a (vmRequest ''POST'' (stopUrl (g_apiUrl g) (g_node g) (vm_vmid v))
                       (a_ticket a) (a_csrfToken a) (g_skipTlsVerify g)) s2 = Some (tr, s3) \<longrightarrow>
      delete P g ctx vmName s =
        deleteVm P g (a_ticket a) (a_csrfToken a) v
          [Tpl ''Deleting VM {} on node {}'' [JStr vmName, JStr (g_node g)],
           Tpl ''Found VM {} -> vmid {} [{}]'' [JStr vmName, vm_vmid v, vm_status v],
           Tpl ''VM is {}, stopping first'' [vm_status v],
           Tpl ''VM {} stop: {}'' [vm_vmid v, exitstatus tr]] s3)"
proof (intro conjI allI impI; elim conjE)
  fix a v s2 tr s3
  assume R: "resolved P g ctx (sa_vmName sargs) s = Some (a, v, s2)"
    and S: "vm_status v = JStr ''stopped''"
    and A: "awaited P g a (vmRequest ''POST'' (startUrl (g_apiUrl g) (g_node g) (vm_vmid v))
                       (a_ticket a) (a_csrfToken a) (g_skipTlsVerify g)) s2 = Some (tr, s3)"
    and N: "exitstatus tr \<noteq> JStr ''OK''"
  from awaited_run[OF A] N have F: "\<not> success tr" and W: "written s3 = written s2" by simp_all
  from resolved_run[OF R] have W2: "written s2 = written s" by blast
  have "startIfStopped P g (a_ticket a) (a_csrfToken a) v s2
          = Some (Inl (Error (Tpl ''VM start failed: {}'' [exitstatus tr])), s3)"
    unfolding startIfStopped_shape using S F
    by (simp add: callAndWait_awaited[OF A] throw_def)
  then show "start P g ctx sargs s
          = Some (Inl (Error (Tpl ''VM start failed: {}'' [exitstatus tr])), s3)"
    unfolding start_shape resolved_bind[OF R] by (simp add: bind_def)
  from W W2 show "written s3 = written s" by simp
next
  fix a :: auth and s1 nextIdResponse s2 d tr s3
  let ?nq = "\<lparr>rq_method = ''GET'', rq_url = nextIdUrl (g_apiUrl g),
                        rq_headers = authHeaders (a_ticket a) (a_csrfToken a), rq_body = None,
                        rq_skipTlsVerify = nullish (g_skipTlsVerify g) True\<rparr>"
  assume R: "resolveAuth P g ctx authOpts s = Some (Inr a, s1)"
    and Q: "fetchWithCurl P ?nq s1 = Some (Inr nextIdResponse, s2)"
    and O: "ok nextIdResponse" and J: "json_data nextIdResponse = Inr d"
    and A: "awaited P g a (createRequest g (a_ticket a) (a_csrfToken a) cargs (parseIntJs d)) s2
        = Some (tr, s3)"
    and N: "exitstatus tr \<noteq> JStr ''OK''"
  from awaited_run[OF A] N have F: "\<not> success tr" and W: "written s3 = written s2" by simp_all
  from resolveAuth_run[OF R] have W1: "written s1 = written s" by blast
  from fetch_run[OF Q] have W2: "written s2 = written s1" by simp
  show "create P g ctx cargs s =
        Some (Inl (Error (Tpl ''VM creation failed: {}'' [exitstatus tr])), s3)"
    unfolding create_shape
    by (simp add: bind_Inr[where m="resolveAuth P g ctx authOpts", OF R]
          bind_Inr[where m="fetchWithCurl P ?nq", OF Q] O J bind_lift_Inr
          callAndWait_awaited[OF A] F throw_def)
  from W W1 W2 show "written s3 = written s" by simp
next
  fix a v s2 tr s3
  assume R: "resolved P g ctx vmName s = Some (a, v, s2)"
    and S: "vm_status v \<noteq> JStr ''stopped''"
    and A: "awaited P g a (vmRequest ''POST'' (stopUrl (g_apiUrl g) (g_node g) (vm_vmid v))
                       (a_ticket a) (a_csrfToken a) (g_skipTlsVerify g)) s2 = Some (tr, s3)"
    and N: "exitstatus tr \<noteq> JStr ''OK''"
  from awaited_run[OF A] N have F: "\<not> success tr" and W: "written s3 = written s2" by simp_all
  from resolved_run[OF R] have W2: "written s2 = written s" by blast
  show "\<exists>s' res. stop P g ctx vmName s = Some (Inr [length (written s)], s') \<and>
         trace s' = trace s3 \<and> written s' = written s @ [res] \<and> r_name res = vm_name v \<and>
         map_of (r_attrs res) ''status'' = Some (JStr ''stopped'') \<and>
         map_of (r_attrs res) ''success'' = Some (JBool False) \<and>
         last (r_logs res) = Tpl ''VM {} stop failed: {}'' [vm_vmid v, exitstatus tr]"
    unfolding stop_shape resolved_bind[OF R]
    using S F W W2 by (simp add: callAndWait_awaited[OF A] write_ret)
next
  fix a v s2 s3 tr s4
  assume R: "resolved P g ctx vmName s = Some (a, v, s2)"
    and B: "if vm_status v = JStr ''stopped'' then s3 = s2
       else \<exists>line. stopBeforeDelete P (g_apiUrl g) (g_node g) v (a_ticket a) (a_csrfToken a)
                      (g_skipTlsVerify g) s2 = Some (Inr line, s3)"
    and A: "awaited P g a (vmRequest ''DELETE'' (vmUrl (g_apiUrl g) (g_node g) (vm_vmid v))
                       (a_ticket a) (a_csrfToken a) (g_skipTlsVerify g)) s3 = Some (tr, s4)"
    and N: "exitstatus tr \<noteq> JStr ''OK''"
  from resolved_run[OF R] have W2: "written s2 = written s" by blast
  have "\<exists>logs2. delete P g ctx vmName s = deleteVm P g (a_ticket a) (a_csrfToken a) v logs2 s3
          \<and> written s3 = written s"
  proof (cases "vm_status v = JStr ''stopped''")
    case True
    with B have "s3 = s2" by simp
    with delete_from(1)[OF R True] W2 show ?thesis by blast
  next
    case False
    with B obtain line where L: "stopBeforeDelete P (g_apiUrl g) (g_node g) v (a_ticket a)
        (a_csrfToken a) (g_skipTlsVerify g) s2 = Some (Inr line, s3)" by auto
    from stopBeforeDelete_run[OF L] have "written s3 = written s2" by blast
    with delete_from(2)[OF R False L] W2 show ?thesis by auto
  qed
  then obtain logs2 where
    D: "delete P g ctx vmName s = deleteVm P g (a_ticket a) (a_csrfToken a) v logs2 s3"
    and W3: "written s3 = written s" by blast
  from deleteVm_awaited[OF A, of logs2] N W3 D
  show "\<exists>s' res. delete P g ctx vmName s = Some (Inr [length (written s)], s') \<and>
         trace s' = trace s4 \<and> written s' = written s @ [res] \<and> r_name res = vm_name v \<and>
         map_of (r_attrs res) ''status'' = Some (JStr ''deleted'') \<and>
         map_of (r_attrs res) ''success'' = Some (JBool False) \<and>
         last (r_logs res) = Tpl ''VM {} deletion failed: {}'' [vm_vmid v, exitstatus tr]"
    by auto
next
  fix a v s2 tr s3
  assume R: "resolved P g ctx vmName s = Some (a, v, s2)"
    and S: "vm_status v \<noteq> JStr ''stopped''"
    and A: "awaited P g a (vmRequest ''POST'' (stopUrl (g_apiUrl g) (g_node g) (vm_vmid v))
                       (a_ticket a) (a_csrfToken a) (g_skipTlsVerify g)) s2 = Some (tr, s3)"
  have "stopBeforeDelete P (g_apiUrl g) (g_node g) v (a_ticket a) (a_csrfToken a)
          (g_skipTlsVerify g) s2
        = Some (Inr (Tpl ''VM {} stop: {}'' [vm_vmid v, exitstatus tr]), s3)"
    by (simp add: stopBeforeDelete_def catch_def stopAttempt_awaited[OF A])
  from delete_from(2)[OF R S this]
  show "delete P g ctx vmName s =
        deleteVm P g (a_ticket a) (a_csrfToken a) v
          [Tpl ''Deleting VM {} on node {}'' [JStr vmName, JStr (g_node g)],
           Tpl ''Found VM {} -> vmid {} [{}]'' [JStr vmName, vm_vmid v, vm_status v],
           Tpl ''VM is {}, stopping first'' [vm_status v],
           Tpl ''VM {} stop: {}'' [vm_vmid v, exitstatus tr]] s3" .
qed

text \<open>
  Against C1 as stated: \<open>alpha\<close> is running, the stop call is accepted and its task ends with
  \<^verbatim>\<open>ERR\<close>; \<open>stop\<close> returns a handle and has written a version with success false.
\<close>

theorem stop_failure_is_written:
  "map_option (\<lambda>x. (fst x, last_exit (sim0 (taskScript (vmList ''running'') ''ERR'')) (snd x),
                     map (\<lambda>r. (map_of (r_attrs r) ''status'', map_of (r_attrs r) ''success''))
                       (written (snd x))))
     (stop simP g0 ctx0 ''alpha'' (sim0 (taskScript (vmList ''running'') ''ERR''))) =
   Some (Inr [0], Some (JStr ''ERR''), [(Some (JStr ''stopped''), Some (JBool False))])"
  by (simp add: op_defs taskScript_def sim_simps run_simps obs_defs vmRequest_def)

lemmas phase_defs = resolved_def awaited_def op_defs taskScript_def sim_simps run_simps
  vmRequest_def

lemma start_fail_sim:
  "\<exists>a v s2 tr s3.
      resolved simP g0 ctx0 (sa_vmName argsAlpha) (sim0 (taskScript (vmList ''stopped'') ''ERR''))
        = Some (a, v, s2) \<and> vm_status v = JStr ''stopped'' \<and>
      awaited simP g0 a (vmRequest ''POST'' (startUrl (g_apiUrl g0) (g_node g0) (vm_vmid v))
                       (a_ticket a) (a_csrfToken a) (g_skipTlsVerify g0)) s2 = Some (tr, s3) \<and>
      exitstatus tr = JStr ''ERR''"
  by (simp add: phase_defs argsAlpha_def)

lemma create_fail_sim:
  "\<exists>a s1 nextIdResponse s2 d tr s3.
      resolveAuth simP g0 ctx0 authOpts (sim0 (taskScript nextId ''ERR'')) = Some (Inr a, s1) \<and>
      fetchWithCurl simP \<lparr>rq_method = ''GET'', rq_url = nextIdUrl (g_apiUrl g0),
                        rq_headers = authHeaders (a_ticket a) (a_csrfToken a), rq_body = None,
                        rq_skipTlsVerify = nullish (g_skipTlsVerify g0) True\<rparr> s1
        = Some (Inr nextIdResponse, s2) \<and>
      ok nextIdResponse \<and> json_data nextIdResponse = Inr d \<and>
      awaited simP g0 a (createRequest g0 (a_ticket a) (a_csrfToken a) argsDisk (parseIntJs d)) s2
        = Some (tr, s3) \<and>
      exitstatus tr = JStr ''ERR''"
  by (simp add: phase_defs nextId_def)

lemma stop_fail_sim:
  "\<exists>a v s2 tr s3.
      resolved simP g0 ctx0 ''alpha'' (sim0 (taskScript (vmList ''running'') ''ERR''))
        = Some (a, v, s2) \<and> vm_status v \<noteq> JStr ''stopped'' \<and> vm_vmid v = JNum 101 \<and>
      awaited simP g0 a (vmRequest ''POST'' (stopUrl (g_apiUrl g0) (g_node g0) (vm_vmid v))
                       (a_ticket a) (a_csrfToken a) (g_skipTlsVerify g0)) s2 = Some (tr, s3) \<and>
      exitstatus tr = JStr ''ERR''"
  by (simp add: phase_defs)

lemma delete_fail_sim:
  "\<exists>a v s2 tr s4.
      resolved simP g0 ctx0 ''alpha'' (sim0 (taskScript (vmList ''stopped'') ''ERR''))
        = Some (a, v, s2) \<and> vm_status v = JStr ''stopped'' \<and> vm_vmid v = JNum 101 \<and>
      awaited simP g0 a (vmRequest ''DELETE'' (vmUrl (g_apiUrl g0) (g_node g0) (vm_vmid v))
                       (a_ticket a) (a_csrfToken a) (g_skipTlsVerify g0)) s2 = Some (tr, s4) \<and>
      exitstatus tr = JStr ''ERR''"
  by (simp add: phase_defs)

lemma delete_stop_err_sim:
  "\<exists>a v s2 tr s3.
      resolved simP g0 ctx0 ''alpha'' (sim0 stopErrScript)
        = Some (a, v, s2) \<and> vm_status v \<noteq> JStr ''stopped'' \<and>
      awaited simP g0 a (vmRequest ''POST'' (stopUrl (g_apiUrl g0) (g_node g0) (vm_vmid v))
                       (a_ticket a) (a_csrfToken a) (g_skipTlsVerify g0)) s2 = Some (tr, s3) \<and>
      exitstatus tr = JStr ''ERR'' \<and>
      map_option fst (deleteVm simP g0 (a_ticket a) (a_csrfToken a) v
          [Tpl ''Deleting VM {} on node {}'' [JStr ''alpha'', JStr (g_node g0)],
           Tpl ''Found VM {} -> vmid {} [{}]'' [JStr ''alpha'', vm_vmid v, vm_status v],
           Tpl ''VM is {}, stopping first'' [vm_status v],
           Tpl ''VM {} stop: {}'' [vm_vmid v, exitstatus tr]] s3) = Some (Inr [0])"
  by (simp add: phase_defs stopErrScript_def)

text \<open>Five runs on the scripted platform: one per operation, whose task ends with \<^verbatim>\<open>ERR\<close>,
  and a \<open>delete\<close> whose stop task ends with \<^verbatim>\<open>ERR\<close> and whose delete task ends with OK.\<close>

theorem task_failure_outcome_witness:
  "(\<exists>s3. start simP g0 ctx0 argsAlpha (sim0 (taskScript (vmList ''stopped'') ''ERR'')) =
            Some (Inl (Error (Tpl ''VM start failed: {}'' [JStr ''ERR''])), s3)
        \<and> written s3 = written (sim0 (taskScript (vmList ''stopped'') ''ERR'')))
   \<and> (\<exists>s3. create simP g0 ctx0 argsDisk (sim0 (taskScript nextId ''ERR'')) =
            Some (Inl (Error (Tpl ''VM creation failed: {}'' [JStr ''ERR''])), s3)
        \<and> written s3 = written (sim0 (taskScript nextId ''ERR'')))
   \<and> (\<exists>s' res. stop simP g0 ctx0 ''alpha'' (sim0 (taskScript (vmList ''running'') ''ERR'')) =
            Some (Inr [length (written (sim0 (taskScript (vmList ''running'') ''ERR'')))], s')
        \<and> written s' = written (sim0 (taskScript (vmList ''running'') ''ERR'')) @ [res]
        \<and> map_of (r_attrs res) ''status'' = Some (JStr ''stopped'')
        \<and> map_of (r_attrs res) ''success'' = Some (JBool False)
        \<and> last (r_logs res) = Tpl ''VM {} stop failed: {}'' [JNum 101, JStr ''ERR''])
   \<and> (\<exists>s' res. delete simP g0 ctx0 ''alpha'' (sim0 (taskScript (vmList ''stopped'') ''ERR'')) =
            Some (Inr [length (written (sim0 (taskScript (vmList ''stopped'') ''ERR'')))], s')
        \<and> written s' = written (sim0 (taskScript (vmList ''stopped'') ''ERR'')) @ [res]
        \<and> map_of (r_attrs res) ''status'' = Some (JStr ''deleted'')
        \<and> map_of (r_attrs res) ''success'' = Some (JBool False)
        \<and> last (r_logs res) = Tpl ''VM {} deletion failed: {}'' [JNum 101, JStr ''ERR''])
   \<and> map_option fst (delete simP g0 ctx0 ''alpha'' (sim0 stopErrScript)) = Some (Inr [0])"
proof -
  note T = task_failure_outcome[where P=simP and g=g0 and ctx=ctx0 and sargs=argsAlpha
             and cargs=argsDisk and vmName="''alpha''"]
  have N: "x = JStr ''ERR'' \<Longrightarrow> x \<noteq> JStr ''OK''" for x by simp
  have A: "\<exists>s3. start simP g0 ctx0 argsAlpha (sim0 (taskScript (vmList ''stopped'') ''ERR'')) =
            Some (Inl (Error (Tpl ''VM start failed: {}'' [JStr ''ERR''])), s3)
        \<and> written s3 = written (sim0 (taskScript (vmList ''stopped'') ''ERR''))"
  proof -
    from start_fail_sim obtain a v s2 tr s3 where
      H: "resolved simP g0 ctx0 (sa_vmName argsAlpha) (sim0 (taskScript (vmList ''stopped'') ''ERR''))
            = Some (a, v, s2)"
         "vm_status v = JStr ''stopped''"
         "awaited simP g0 a (vmRequest ''POST'' (startUrl (g_apiUrl g0) (g_node g0) (vm_vmid v))
                       (a_ticket a) (a_csrfToken a) (g_skipTlsVerify g0)) s2 = Some (tr, s3)"
         "exitstatus tr = JStr ''ERR''"
      by (elim exE conjE) (rule that)
    note X = T[where s="sim0 (taskScript (vmList ''stopped'') ''ERR'')", THEN conjunct1,
               rule_format, OF conjI[OF H(1) conjI[OF H(2) conjI[OF H(3) N[OF H(4)]]]]]
    from X show ?thesis unfolding H(4) by (rule exI[of _ s3])
  qed
  have B: "\<exists>s3. create simP g0 ctx0 argsDisk (sim0 (taskScript nextId ''ERR'')) =
            Some (Inl (Error (Tpl ''VM creation failed: {}'' [JStr ''ERR''])), s3)
        \<and> written s3 = written (sim0 (taskScript nextId ''ERR''))"
  proof -
    from create_fail_sim obtain a s1 nextIdResponse s2 d tr s3 where
      H: "resolveAuth simP g0 ctx0 authOpts (sim0 (taskScript nextId ''ERR'')) = Some (Inr a, s1)"
         "fetchWithCurl simP \<lparr>rq_method = ''GET'', rq_url = nextIdUrl (g_apiUrl g0),
                        rq_headers = authHeaders (a_ticket a) (a_csrfToken a), rq_body = None,
                        rq_skipTlsVerify = nullish (g_skipTlsVerify g0) True\<rparr> s1
            = Some (Inr nextIdResponse, s2)"
         "ok nextIdResponse" "json_data nextIdResponse = Inr d"
         "awaited simP g0 a (createRequest g0 (a_ticket a) (a_csrfToken a) argsDisk (parseIntJs d)) s2
            = Some (tr, s3)"
         "exitstatus tr = JStr ''ERR''"
      by (elim exE conjE) (rule that)
    note X = T[where s="sim0 (taskScript nextId ''ERR'')", THEN conjunct2, THEN conjunct1,
               rule_format,
               OF conjI[OF H(1) conjI[OF H(2) conjI[OF H(3) conjI[OF H(4) conjI[OF H(5) N[OF H(6)]]]]]]]
    from X show ?thesis unfolding H(6) by (rule exI[of _ s3])
  qed
  have C: "\<exists>s' res. stop simP g0 ctx0 ''alpha'' (sim0 (taskScript (vmList ''running'') ''ERR'')) =
            Some (Inr [length (written (sim0 (taskScript (vmList ''running'') ''ERR'')))], s')
        \<and> written s' = written (sim0 (taskScript (vmList ''running'') ''ERR'')) @ [res]
        \<and> map_of (r_attrs res) ''status'' = Some (JStr ''stopped'')
        \<and> map_of (r_attrs res) ''success'' = Some (JBool False)
        \<and> last (r_logs res) = Tpl ''VM {} stop failed: {}'' [JNum 101, JStr ''ERR'']"
  proof -
    from stop_fail_sim obtain a v s2 tr s3 where
      H: "resolved simP g0 ctx0 ''alpha'' (sim0 (taskScript (vmList ''running'') ''ERR''))
            = Some (a, v, s2)"
         "vm_status v \<noteq> JStr ''stopped''" "vm_vmid v = JNum 101"
         "awaited simP g0 a (vmRequest ''POST'' (stopUrl (g_apiUrl g0) (g_node g0) (vm_vmid v))
                       (a_ticket a) (a_csrfToken a) (g_skipTlsVerify g0)) s2 = Some (tr, s3)"
         "exitstatus tr = JStr ''ERR''"
      by (elim exE conjE) (rule that)
    note X = T[where s="sim0 (taskScript (vmList ''running'') ''ERR'')", THEN conjunct2,
               THEN conjunct2, THEN conjunct1,
               rule_format, OF conjI[OF H(1) conjI[OF H(2) conjI[OF H(4) N[OF H(5)]]]]]
    from X show ?thesis unfolding H(3,5) by blast
  qed
  have D: "\<exists>s' res. delete simP g0 ctx0 ''alpha'' (sim0 (taskScript (vmList ''stopped'') ''ERR'')) =
            Some (Inr [length (written (sim0 (taskScript (vmList ''stopped'') ''ERR'')))], s')
        \<and> written s' = written (sim0 (taskScript (vmList ''stopped'') ''ERR'')) @ [res]
        \<and> map_of (r_attrs res) ''status'' = Some (JStr ''deleted'')
        \<and> map_of (r_attrs res) ''success'' = Some (JBool False)
        \<and> last (r_logs res) = Tpl ''VM {} deletion failed: {}'' [JNum 101, JStr ''ERR'']"
  proof -
    from delete_fail_sim obtain a v s2 tr s4 where
      H: "resolved simP g0 ctx0 ''alpha'' (sim0 (taskScript (vmList ''stopped'') ''ERR''))
            = Some (a, v, s2)"
         "vm_status v = JStr ''stopped''" "vm_vmid v = JNum 101"
         "awaited simP g0 a (vmRequest ''DELETE'' (vmUrl (g_apiUrl g0) (g_node g0) (vm_vmid v))
                       (a_ticket a) (a_csrfToken a) (g_skipTlsVerify g0)) s2 = Some (tr, s4)"
         "exitstatus tr = JStr ''ERR''"
      by (elim exE conjE) (rule that)
    have I: "if vm_status v = JStr ''stopped'' then s2 = s2
       else \<exists>line. stopBeforeDelete simP (g_apiUrl g0) (g_node g0) v (a_ticket a) (a_csrfToken a)
                      (g_skipTlsVerify g0) s2 = Some (Inr line, s2)"
      using H(2) by simp
    note X = T[where s="sim0 (taskScript (vmList ''stopped'') ''ERR'')", THEN conjunct2,
               THEN conjunct2, THEN conjunct2, THEN conjunct1,
               rule_format, OF conjI[OF H(1) conjI[OF I conjI[OF H(4) N[OF H(5)]]]]]
    from X show ?thesis unfolding H(3,5) by blast
  qed
  have E: "map_option fst (delete simP g0 ctx0 ''alpha'' (sim0 stopErrScript)) = Some (Inr [0])"
  proof -
    from delete_stop_err_sim obtain a v s2 tr s3 where
      H: "resolved simP g0 ctx0 ''alpha'' (sim0 stopErrScript) = Some (a, v, s2)"
         "vm_status v \<noteq> JStr ''stopped''"
         "awaited simP g0 a (vmRequest ''POST'' (stopUrl (g_apiUrl g0) (g_node g0) (vm_vmid v))
                       (a_ticket a) (a_csrfToken a) (g_skipTlsVerify g0)) s2 = Some (tr, s3)"
         "map_option fst (deleteVm simP g0 (a_ticket a) (a_csrfToken a) v
          [Tpl ''Deleting VM {} on node {}'' [JStr ''alpha'', JStr (g_node g0)],
           Tpl ''Found VM {} -> vmid {} [{}]'' [JStr ''alpha'', vm_vmid v, vm_status v],
           Tpl ''VM is {}, stopping first'' [vm_status v],
           Tpl ''VM {} stop: {}'' [vm_vmid v, exitstatus tr]] s3) = Some (Inr [0])"
      by (elim exE conjE) (rule that)
    note X = T[where s="sim0 stopErrScript", THEN conjunct2,
               THEN conjunct2, THEN conjunct2, THEN conjunct2,
               rule_format, OF conjI[OF H(1) conjI[OF H(2) H(3)]]]
    show ?thesis unfolding X by (rule H(4))
  qed
  from A B C D E show ?thesis by (intro conjI)
qed

section \<open>delete after a failed stop\<close>

text \<open>
  C6. \<open>delete\<close> on a VM whose resolved status is not \<^verbatim>\<open>stopped\<close> first tries to stop it. Let
  that attempt fail: the stop call is answered with a status that is not 2xx, or something in
  the \<^verbatim>\<open>try\<close> block throws (curl on the stop call, the reading of its answer, the wait for
  the stop task). Then nothing is thrown: \<open>delete\<close> goes on as its delete part, run from the
  state the attempt left, with the line that reports the failure in the log. Every run that
  returns has made the delete call right after the stop attempt; and when the delete call is
  accepted and its task ends with OK, \<open>delete\<close> returns a handle and has written one resource
  version, under the VM's name, with status \<^verbatim>\<open>deleted\<close> and success true, whose log holds
  the line of the failed stop.
\<close>

theorem delete_after_failed_stop:
  assumes R: "resolved P g ctx vmName s = Some (a, v, s2)"
      and NS: "vm_status v \<noteq> JStr ''stopped''"
      and F: "(\<exists>response.
                 fetchWithCurl P (vmRequest ''POST'' (stopUrl (g_apiUrl g) (g_node g) (vm_vmid v))
                   (a_ticket a) (a_csrfToken a) (g_skipTlsVerify g)) s2 = Some (Inr response, s3) \<and>
                 \<not> ok response \<and>
                 line = Tpl ''VM may already be stopped, continuing to delete'' [])
              \<or> (\<exists>e. stopAttempt P (g_apiUrl g) (g_node g) v (a_ticket a) (a_csrfToken a)
                        (g_skipTlsVerify g) s2 = Some (Inl e, s3) \<and>
                      line = Tpl ''Stop failed (VM may already be stopped), continuing'' [])"
  shows "delete P g ctx vmName s =
           deleteVm P g (a_ticket a) (a_csrfToken a) v
             [Tpl ''Deleting VM {} on node {}'' [JStr vmName, JStr (g_node g)],
              Tpl ''Found VM {} -> vmid {} [{}]'' [JStr vmName, vm_vmid v, vm_status v],
              Tpl ''VM is {}, stopping first'' [vm_status v],
              line] s3
       \<and> (\<forall>r s'. delete P g ctx vmName s = Some (r, s') \<longrightarrow>
             (\<exists>dr rest. new_trace s3 s' =
                (vmRequest ''DELETE'' (vmUrl (g_apiUrl g) (g_node g) (vm_vmid v))
                   (a_ticket a) (a_csrfToken a) (g_skipTlsVerify g), dr) # rest))
       \<and> (\<forall>tr s4.
             awaited P g a (vmRequest ''DELETE'' (vmUrl (g_apiUrl g) (g_node g) (vm_vmid v))
                (a_ticket a) (a_csrfToken a) (g_skipTlsVerify g)) s3 = Some (tr, s4) \<and>
             exitstatus tr = JStr ''OK'' \<longrightarrow>
             (\<exists>s' res. delete P g ctx vmName s = Some (Inr [length (written s)], s') \<and>
                trace s' = trace s4 \<and> written s' = written s @ [res] \<and> r_name res = vm_name v \<and>
                map_of (r_attrs res) ''status'' = Some (JStr ''deleted'') \<and>
                map_of (r_attrs res) ''success'' = Some (JBool True) \<and>
                line \<in> set (r_logs res)))"
proof -
  let ?logs = "[Tpl ''Deleting VM {} on node {}'' [JStr vmName, JStr (g_node g)],
              Tpl ''Found VM {} -> vmid {} [{}]'' [JStr vmName, vm_vmid v, vm_status v],
              Tpl ''VM is {}, stopping first'' [vm_status v],
              line]"
  let ?sq = "vmRequest ''POST'' (stopUrl (g_apiUrl g) (g_node g) (vm_vmid v))
                   (a_ticket a) (a_csrfToken a) (g_skipTlsVerify g)"
  let ?dq = "vmRequest ''DELETE'' (vmUrl (g_apiUrl g) (g_node g) (vm_vmid v))
                   (a_ticket a) (a_csrfToken a) (g_skipTlsVerify g)"
  have SB: "stopBeforeDelete P (g_apiUrl g) (g_node g) v (a_ticket a) (a_csrfToken a)
              (g_skipTlsVerify g) s2 = Some (Inr line, s3)"
    using F
  proof (elim disjE exE conjE)
    fix response
    assume "fetchWithCurl P ?sq s2 = Some (Inr response, s3)" "\<not> ok response"
      "line = Tpl ''VM may already be stopped, continuing to delete'' []"
    then show ?thesis
      by (simp add: stopBeforeDelete_def stopAttempt_def catch_def bind_def ret_def)
  next
    fix e
    assume "stopAttempt P (g_apiUrl g) (g_node g) v (a_ticket a) (a_csrfToken a)
              (g_skipTlsVerify g) s2 = Some (Inl e, s3)"
      "line = Tpl ''Stop failed (VM may already be stopped), continuing'' []"
    then show ?thesis
      by (simp add: stopBeforeDelete_def catch_def ret_def)
  qed
  from resolved_run[OF R] have W2: "written s2 = written s" by blast
  from stopBeforeDelete_run[OF SB] have W3: "written s3 = written s2" by blast
  note D = delete_from(2)[OF R NS SB]
  have T: "\<exists>dr rest. new_trace s3 s' = (?dq, dr) # rest"
    if "delete P g ctx vmName s = Some (r, s')" for r s'
  proof -
    from that D have "deleteVm P g (a_ticket a) (a_csrfToken a) v ?logs s3 = Some (r, s')" by simp
    from deleteVm_run[OF this] obtain dr rest where
      "trace s' = trace s3 @ (?dq, dr) # rest" by blast
    then show ?thesis by (auto simp: new_trace_def)
  qed
  have S: "\<exists>s' res. delete P g ctx vmName s = Some (Inr [length (written s)], s') \<and>
                trace s' = trace s4 \<and> written s' = written s @ [res] \<and> r_name res = vm_name v \<and>
                map_of (r_attrs res) ''status'' = Some (JStr ''deleted'') \<and>
                map_of (r_attrs res) ''success'' = Some (JBool True) \<and>
                line \<in> set (r_logs res)"
    if A: "awaited P g a ?dq s3 = Some (tr, s4)" and O: "exitstatus tr = JStr ''OK''"
    for tr s4
  proof -
    from deleteVm_awaited[OF A, of ?logs] obtain s' res where
      X: "deleteVm P g (a_ticket a) (a_csrfToken a) v ?logs s3 = Some (Inr [length (written s3)], s')"
         "trace s' = trace s4" "written s' = written s3 @ [res]" "r_name res = vm_name v"
         "map_of (r_attrs res) ''status'' = Some (JStr ''deleted'')"
         "map_of (r_attrs res) ''success'' = Some (JBool (exitstatus tr = JStr ''OK''))"
         "butlast (r_logs res) = ?logs @ [Tpl ''Sending delete command for VM {}'' [vm_vmid v],
                           Tpl ''Delete task initiated, waiting for completion'' []]"
      by blast
    from X(7) have "line \<in> set (butlast (r_logs res))" by simp
    then have "line \<in> set (r_logs res)" by (rule in_set_butlastD)
    with X(1-6) D W2 W3 O show ?thesis
      by (intro exI[of _ s'] exI[of _ res]) simp
  qed
  from D T S show ?thesis by blast
qed

lemmas delete_sim_defs = resolved_def awaited_def op_defs sim_simps run_simps vmRequest_def
  deleteScript_def deleteScriptThrow_def

lemma delete_stop_500_sim:
  "\<exists>a v s2 response s3 tr s4.
      resolved simP g0 ctx0 ''alpha'' (sim0 deleteScript) = Some (a, v, s2) \<and>
      vm_status v \<noteq> JStr ''stopped'' \<and>
      fetchWithCurl simP (vmRequest ''POST'' (stopUrl (g_apiUrl g0) (g_node g0) (vm_vmid v))
         (a_ticket a) (a_csrfToken a) (g_skipTlsVerify g0)) s2 = Some (Inr response, s3) \<and>
      \<not> ok response \<and>
      awaited simP g0 a (vmRequest ''DELETE'' (vmUrl (g_apiUrl g0) (g_node g0) (vm_vmid v))
         (a_ticket a) (a_csrfToken a) (g_skipTlsVerify g0)) s3 = Some (tr, s4) \<and>
      exitstatus tr = JStr ''OK''"
  by (simp add: delete_sim_defs)

lemma delete_stop_throw_sim:
  "\<exists>a v s2 e s3 tr s4.
      resolved simP g0 ctx0 ''alpha'' (sim0 deleteScriptThrow) = Some (a, v, s2) \<and>
      vm_status v \<noteq> JStr ''stopped'' \<and>
      stopAttempt simP (g_apiUrl g0) (g_node g0) v (a_ticket a) (a_csrfToken a)
         (g_skipTlsVerify g0) s2 = Some (Inl e, s3) \<and>
      awaited simP g0 a (vmRequest ''DELETE'' (vmUrl (g_apiUrl g0) (g_node g0) (vm_vmid v))
         (a_ticket a) (a_csrfToken a) (g_skipTlsVerify g0)) s3 = Some (tr, s4) \<and>
      exitstatus tr = JStr ''OK''"
  by (simp add: delete_sim_defs)

text \<open>Two runs on the scripted platform, \<open>alpha\<close> running: the stop call is answered with
  HTTP 500 in the first and makes curl fail in the second; the delete task ends with OK.\<close>

theorem delete_after_failed_stop_witness:
  "(\<exists>s' res. delete simP g0 ctx0 ''alpha'' (sim0 deleteScript) =
        Some (Inr [length (written (sim0 deleteScript))], s') \<and>
      written s' = written (sim0 deleteScript) @ [res] \<and>
      map_of (r_attrs res) ''status'' = Some (JStr ''deleted'') \<and>
      map_of (r_attrs res) ''success'' = Some (JBool True) \<and>
      Tpl ''VM may already be stopped, continuing to delete'' [] \<in> set (r_logs res))
   \<and> (\<exists>s' res. delete simP g0 ctx0 ''alpha'' (sim0 deleteScriptThrow) =
        Some (Inr [length (written (sim0 deleteScriptThrow))], s') \<and>
      written s' = written (sim0 deleteScriptThrow) @ [res] \<and>
      map_of (r_attrs res) ''status'' = Some (JStr ''deleted'') \<and>
      map_of (r_attrs res) ''success'' = Some (JBool True) \<and>
      Tpl ''Stop failed (VM may already be stopped), continuing'' [] \<in> set (r_logs res))"
proof -
  have A: "\<exists>s' res. delete simP g0 ctx0 ''alpha'' (sim0 deleteScript) =
        Some (Inr [length (written (sim0 deleteScript))], s') \<and>
      written s' = written (sim0 deleteScript) @ [res] \<and>
      map_of (r_attrs res) ''status'' = Some (JStr ''deleted'') \<and>
      map_of (r_attrs res) ''success'' = Some (JBool True) \<and>
      Tpl ''VM may already be stopped, continuing to delete'' [] \<in> set (r_logs res)"
  proof -
    from delete_stop_500_sim obtain a v s2 response s3 tr s4 where
      H: "resolved simP g0 ctx0 ''alpha'' (sim0 deleteScript) = Some (a, v, s2)"
         "vm_status v \<noteq> JStr ''stopped''"
         "fetchWithCurl simP (vmRequest ''POST'' (stopUrl (g_apiUrl g0) (g_node g0) (vm_vmid v))
            (a_ticket a) (a_csrfToken a) (g_skipTlsVerify g0)) s2 = Some (Inr response, s3)"
         "\<not> ok response"
         "awaited simP g0 a (vmRequest ''DELETE'' (vmUrl (g_apiUrl g0) (g_node g0) (vm_vmid v))
            (a_ticket a) (a_csrfToken a) (g_skipTlsVerify g0)) s3 = Some (tr, s4)"
         "exitstatus tr = JStr ''OK''"
      by (elim exE conjE) (rule that)
    have F: "(\<exists>response.
                 fetchWithCurl simP (vmRequest ''POST'' (stopUrl (g_apiUrl g0) (g_node g0) (vm_vmid v))
                   (a_ticket a) (a_csrfToken a) (g_skipTlsVerify g0)) s2 = Some (Inr response, s3) \<and>
                 \<not> ok response \<and>
                 Tpl ''VM may already be stopped, continuing to delete'' [] =
                   Tpl ''VM may already be stopped, continuing to delete'' [])
              \<or> (\<exists>e. stopAttempt simP (g_apiUrl g0) (g_node g0) v (a_ticket a) (a_csrfToken a)
                        (g_skipTlsVerify g0) s2 = Some (Inl e, s3) \<and>
                      Tpl ''VM may already be stopped, continuing to delete'' [] =
                        Tpl ''Stop failed (VM may already be stopped), continuing'' [])"
      by (intro disjI1 exI[of _ response] conjI H(3) H(4) refl)
    note X = delete_after_failed_stop[OF H(1) H(2) F, THEN conjunct2, THEN conjunct2,
               rule_format, OF conjI[OF H(5) H(6)]]
    from X show ?thesis by blast
  qed
  have B: "\<exists>s' res. delete simP g0 ctx0 ''alpha'' (sim0 deleteScriptThrow) =
        Some (Inr [length (written (sim0 deleteScriptThrow))], s') \<and>
      written s' = written (sim0 deleteScriptThrow) @ [res] \<and>
      map_of (r_attrs res) ''status'' = Some (JStr ''deleted'') \<and>
      map_of (r_attrs res) ''success'' = Some (JBool True) \<and>
      Tpl ''Stop failed (VM may already be stopped), continuing'' [] \<in> set (r_logs res)"
  proof -
    from delete_stop_throw_sim obtain a v s2 e s3 tr s4 where
      H: "resolved simP g0 ctx0 ''alpha'' (sim0 deleteScriptThrow) = Some (a, v, s2)"
         "vm_status v \<noteq> JStr ''stopped''"
         "stopAttempt simP (g_apiUrl g0) (g_node g0) v (a_ticket a) (a_csrfToken a)
            (g_skipTlsVerify g0) s2 = Some (Inl e, s3)"
         "awaited simP g0 a (vmRequest ''DELETE'' (vmUrl (g_apiUrl g0) (g_node g0) (vm_vmid v))
            (a_ticket a) (a_csrfToken a) (g_skipTlsVerify g0)) s3 = Some (tr, s4)"
         "exitstatus tr = JStr ''OK''"
      by (elim exE conjE) (rule that)
    have F: "(\<exists>response.
                 fetchWithCurl simP (vmRequest ''POST'' (stopUrl (g_apiUrl g0) (g_node g0) (vm_vmid v))
                   (a_ticket a) (a_csrfToken a) (g_skipTlsVerify g0)) s2 = Some (Inr response, s3) \<and>
                 \<not> ok response \<and>
                 Tpl ''Stop failed (VM may already be stopped), continuing'' [] =
                   Tpl ''VM may already be stopped, continuing to delete'' [])
              \<or> (\<exists>e. stopAttempt simP (g_apiUrl g0) (g_node g0) v (a_ticket a) (a_csrfToken a)
                        (g_skipTlsVerify g0) s2 = Some (Inl e, s3) \<and>
                      Tpl ''Stop failed (VM may already be stopped), continuing'' [] =
                        Tpl ''Stop failed (VM may already be stopped), continuing'' [])"
      by (intro disjI2 exI[of _ e] conjI H(3) refl)
    note X = delete_after_failed_stop[OF H(1) H(2) F, THEN conjunct2, THEN conjunct2,
               rule_format, OF conjI[OF H(4) H(5)]]
    from X show ?thesis by blast
  qed
  from A B show ?thesis by (intro conjI)
qed

section \<open>sync\<close>

lemma getprop_nonnull:
  assumes "v \<noteq> JNull" and "v \<noteq> JUndefined"
  shows "getprop v k = Inr (optprop v k)"
  using assms by (cases v) (simp_all add: optprop_def getprop_def split: option.splits)

lemma getVmIpWithRetry_requests:
  assumes "getVmIpWithRetry P apiUrl node vmid t c sk ws pi s = Some (r, s')"
  shows "\<exists>xs ip. r = Inr ip \<and> written s' = written s \<and> trace s' = trace s @ xs \<and>
           set (map fst xs) \<subseteq> {agentRequest apiUrl node vmid t c sk}"
proof -
  from assms have L: "getVmIp_loop P (agentRequest apiUrl node vmid t c sk)
       (date_now P (world s) + ws * 1000) pi s = Some (r, s')"
    by (simp add: getVmIpWithRetry_def Let_def)
  from getVmIp_loopD[OF L] show ?thesis by blast
qed

lemma getVmIpWithRetry_total:
  assumes "clock_ok P" and "0 < pi"
  shows "\<exists>ip s'. getVmIpWithRetry P apiUrl node vmid t c sk ws pi s = Some (Inr ip, s')"
proof -
  from getVmIp_loop_terminates[OF assms] obtain y where
    "getVmIp_loop P (agentRequest apiUrl node vmid t c sk)
       (date_now P (world s) + ws * 1000) pi s = Some y" by blast
  then have G: "getVmIpWithRetry P apiUrl node vmid t c sk ws pi s = Some (fst y, snd y)"
    by (simp add: getVmIpWithRetry_def Let_def)
  from getVmIpWithRetry_requests[OF G] obtain ip where "fst y = Inr ip" by blast
  with G show ?thesis by auto
qed

text \<open>One pass of the loop of \<open>sync\<close>: the discovery, for a running VM only, and the write.\<close>

lemma sync_loop_Cons:
  assumes "rv \<noteq> JNull" and "rv \<noteq> JUndefined"
  shows "sync_loop P g t c (rv # rest) logs hs s =
     bind (if optprop rv ''status'' = JStr ''running''
           then bind (getVmIpWithRetry P (g_apiUrl g) (g_node g) (optprop rv ''vmid'')
                        t c (g_skipTlsVerify g) 5 2) (\<lambda>found. ret (jsip found))
           else ret JNull) (\<lambda>ip.
     bind (writeResource P ''vm''
            (if truthy (optprop rv ''name'') then optprop rv ''name''
             else JTpl ''vm-{}'' [optprop rv ''vmid''])
            [(''vmid'', optprop rv ''vmid''),
             (''vmName'', if truthy (optprop rv ''name'') then optprop rv ''name''
                          else JTpl ''vm-{}'' [optprop rv ''vmid'']),
             (''status'', optprop rv ''status''), (''ip'', ip),
             (''maxmem'', optprop rv ''maxmem''), (''maxcpu'', optprop rv ''maxcpu'')]
            (logs @
              [Tpl ''  {} (vmid {}) [{}]{ ip=}{ mem=Math.round(/1024**3)GB}''
                [if truthy (optprop rv ''name'') then optprop rv ''name''
                 else JTpl ''vm-{}'' [optprop rv ''vmid''],
                 optprop rv ''vmid'', optprop rv ''status'',
                 if truthy ip then ip else JStr [],
                 if truthy (optprop rv ''maxmem'') then optprop rv ''maxmem'' else JStr []]]))
       (\<lambda>handle.
          sync_loop P g t c rest
            (logs @
              [Tpl ''  {} (vmid {}) [{}]{ ip=}{ mem=Math.round(/1024**3)GB}''
                [if truthy (optprop rv ''name'') then optprop rv ''name''
                 else JTpl ''vm-{}'' [optprop rv ''vmid''],
                 optprop rv ''vmid'', optprop rv ''status'',
                 if truthy ip then ip else JStr [],
                 if truthy (optprop rv ''maxmem'') then optprop rv ''maxmem'' else JStr []]])
            (hs @ [handle]))) s"
  by (simp add: getprop_nonnull[OF assms] bind_lift_Inr Let_def)

text \<open>The first step of a pass: the address, the state and the exchanges it leaves.\<close>

lemma sync_ip_step:
  assumes "(if st = JStr ''running''
            then bind (getVmIpWithRetry P u n vmid t c sk 5 2) (\<lambda>found. ret (jsip found))
            else ret JNull) s = Some (r, s1)"
  shows "\<exists>ip xs. r = Inr (jsip ip) \<and> (st \<noteq> JStr ''running'' \<longrightarrow> ip = None \<and> xs = []) \<and>
           written s1 = written s \<and> trace s1 = trace s @ xs \<and>
           set (map fst xs) \<subseteq> {agentRequest u n vmid t c sk}"
proof (cases "st = JStr ''running''")
  case False
  with assms have "r = Inr JNull" "s1 = s" by (simp_all add: ret_def)
  then show ?thesis using False
    by (intro exI[of _ None] exI[of _ "[]"]) (simp add: jsip_def)
next
  case True
  with assms have B: "bind (getVmIpWithRetry P u n vmid t c sk 5 2) (\<lambda>found. ret (jsip found)) s
                        = Some (r, s1)" by simp
  from B show ?thesis
  proof (cases rule: bindE)
    case (Thrown e)
    from getVmIpWithRetry_requests[OF Thrown(1)] show ?thesis by blast
  next
    case (Returned ip s0)
    from Returned(2) have "r = Inr (jsip ip)" "s1 = s0" by (simp_all add: ret_def)
    with getVmIpWithRetry_requests[OF Returned(1)] True show ?thesis by blast
  qed
qed

lemma sync_loop_null:
  assumes "\<not> is_record rv"
  shows "sync_loop P g t c (rv # rest) logs hs s = Some (Inl TypeError, s)"
  using assms by (auto simp: is_record_def getprop_def bind_def lift_def)

lemma sync_loop_run:
  assumes "sync_loop P g t c rvs logs hs s = Some (r, s')"
  shows "\<exists>new xs.
           r = (if list_all is_record rvs
                then Inr (hs @ [length (written s) ..< length (written s) + length rvs])
                else Inl TypeError) \<and>
           written s' = written s @ new \<and> list_all2 vm_version (takeWhile is_record rvs) new \<and>
           trace s' = trace s @ xs \<and>
           (\<forall>x\<in>set xs. \<exists>rv\<in>set (takeWhile is_record rvs).
              optprop rv ''status'' = JStr ''running'' \<and>
              fst x = agentRequest (g_apiUrl g) (g_node g) (optprop rv ''vmid'') t c
                        (g_skipTlsVerify g))"
  using assms
proof (induction rvs arbitrary: logs hs s)
  case Nil
  then show ?case by (simp add: ret_def)
next
  case (Cons rv rest)
  show ?case
  proof (cases "is_record rv")
    case False
    from Cons.prems[unfolded sync_loop_null[OF False]] have "r = Inl TypeError" "s' = s"
      by simp_all
    with False show ?thesis by simp
  next
    case True
    then have NN: "rv \<noteq> JNull" "rv \<noteq> JUndefined" by (simp_all add: is_record_def)
    from Cons.prems[unfolded sync_loop_Cons[OF NN]] show ?thesis
    proof (cases rule: bindE)
      case (Thrown e)
      from sync_ip_step[OF Thrown(1)] show ?thesis by blast
    next
      case (Returned ipv s1)
      from sync_ip_step[OF Returned(1)] obtain ip xs where
        I: "ipv = jsip ip" "optprop rv ''status'' \<noteq> JStr ''running'' \<longrightarrow> ip = None \<and> xs = []"
           "written s1 = written s" "trace s1 = trace s @ xs"
           "set (map fst xs) \<subseteq> {agentRequest (g_apiUrl g) (g_node g) (optprop rv ''vmid'') t c
                                    (g_skipTlsVerify g)}"
        by blast
      define res where "res = \<lparr>r_kind = ''vm'',
          r_name = (if truthy (optprop rv ''name'') then optprop rv ''name''
                    else JTpl ''vm-{}'' [optprop rv ''vmid'']),
          r_attrs = [(''vmid'', optprop rv ''vmid''),
               (''vmName'', if truthy (optprop rv ''name'') then optprop rv ''name''
                            else JTpl ''vm-{}'' [optprop rv ''vmid'']),
               (''status'', optprop rv ''status''), (''ip'', ipv),
               (''maxmem'', optprop rv ''maxmem''), (''maxcpu'', optprop rv ''maxcpu'')],
          r_logs = logs @
                [Tpl ''  {} (vmid {}) [{}]{ ip=}{ mem=Math.round(/1024**3)GB}''
                  [if truthy (optprop rv ''name'') then optprop rv ''name''
                   else JTpl ''vm-{}'' [optprop rv ''vmid''],
                   optprop rv ''vmid'', optprop rv ''status'',
                   if truthy ipv then ipv else JStr [],
                   if truthy (optprop rv ''maxmem'') then optprop rv ''maxmem'' else JStr []]],
          r_timestamp = date_now P (world s1)\<rparr>"
      define s2 where "s2 = s1\<lparr>written := written s1 @ [res]\<rparr>"
      from Returned(2) have L: "sync_loop P g t c rest (r_logs res) (hs @ [length (written s1)]) s2
                                  = Some (r, s')"
        by (simp add: bind_def writeResource_def res_def s2_def)
      have V: "vm_version rv res"
        using I(1,2) by (auto simp: vm_version_def res_def jsip_def)
      from Cons.IH[OF L] obtain new ys where
        H: "r = (if list_all is_record rest
                 then Inr ((hs @ [length (written s1)]) @
                     [length (written s2) ..< length (written s2) + length rest])
                 else Inl TypeError)"
           "written s' = written s2 @ new" "list_all2 vm_version (takeWhile is_record rest) new"
           "trace s' = trace s2 @ ys"
           "\<forall>x\<in>set ys. \<exists>rv\<in>set (takeWhile is_record rest).
                optprop rv ''status'' = JStr ''running'' \<and>
                fst x = agentRequest (g_apiUrl g) (g_node g) (optprop rv ''vmid'') t c
                          (g_skipTlsVerify g)"
        by blast
      have X: "\<forall>x\<in>set xs. optprop rv ''status'' = JStr ''running'' \<and>
                fst x = agentRequest (g_apiUrl g) (g_node g) (optprop rv ''vmid'') t c
                          (g_skipTlsVerify g)"
        using I(2,5) by (cases "optprop rv ''status'' = JStr ''running''") auto
      have U: "[length (written s) ..< length (written s) + length (rv # rest)] =
               length (written s) # [length (written s2) ..< length (written s2) + length rest]"
        by (subst upt_rec) (simp add: s2_def I(3))
      show ?thesis
      proof (intro exI[of _ "res # new"] exI[of _ "xs @ ys"] conjI ballI)
        show "r = (if list_all is_record (rv # rest)
                then Inr (hs @ [length (written s) ..< length (written s) + length (rv # rest)])
                else Inl TypeError)"
          unfolding U using H(1) True by (simp add: I(3))
        show "written s' = written s @ res # new" using H(2) by (simp add: s2_def I(3))
        show "list_all2 vm_version (takeWhile is_record (rv # rest)) (res # new)"
          using V H(3) True by simp
        show "trace s' = trace s @ xs @ ys" using H(4) by (simp add: s2_def I(4))
      next
        fix x assume "x \<in> set (xs @ ys)"
        then show "\<exists>rv\<in>set (takeWhile is_record (rv # rest)).
                optprop rv ''status'' = JStr ''running'' \<and>
                fst x = agentRequest (g_apiUrl g) (g_node g) (optprop rv ''vmid'') t c
                          (g_skipTlsVerify g)"
          using X H(5) True by auto
      qed
    qed
  qed
qed

lemma sync_loop_total:
  assumes "clock_ok P"
  shows "\<exists>y. sync_loop P g t c rvs logs hs s = Some y"
proof (induction rvs arbitrary: logs hs s)
  case Nil
  show ?case by (simp add: ret_def)
next
  case (Cons rv rest)
  show ?case
  proof (cases "is_record rv")
    case False
    show ?thesis unfolding sync_loop_null[OF False] by simp
  next
    case True
    then have NN: "rv \<noteq> JNull" "rv \<noteq> JUndefined" by (simp_all add: is_record_def)
    have "\<exists>ipv s1. (if optprop rv ''status'' = JStr ''running''
             then bind (getVmIpWithRetry P (g_apiUrl g) (g_node g) (optprop rv ''vmid'')
                          t c (g_skipTlsVerify g) 5 2) (\<lambda>found. ret (jsip found))
             else ret JNull) s = Some (Inr ipv, s1)"
    proof (cases "optprop rv ''status'' = JStr ''running''")
      case False
      then show ?thesis by (simp add: ret_def)
    next
      case True
      from getVmIpWithRetry_total[OF assms, of 2 "g_apiUrl g" "g_node g" "optprop rv ''vmid''"
             t c "g_skipTlsVerify g" 5 s]
      obtain ip s1 where "getVmIpWithRetry P (g_apiUrl g) (g_node g) (optprop rv ''vmid'')
                          t c (g_skipTlsVerify g) 5 2 s = Some (Inr ip, s1)" by auto
      with True show ?thesis by (simp add: bind_def ret_def)
    qed
    then obtain ipv s1 where I: "(if optprop rv ''status'' = JStr ''running''
             then bind (getVmIpWithRetry P (g_apiUrl g) (g_node g) (optprop rv ''vmid'')
                          t c (g_skipTlsVerify g) 5 2) (\<lambda>found. ret (jsip found))
             else ret JNull) s = Some (Inr ipv, s1)" by blast
    show ?thesis
      unfolding sync_loop_Cons[OF NN]
      using I Cons.IH by (simp add: bind_def writeResource_def)
  qed
qed

lemma sync_from:
  assumes A: "resolveAuth P g ctx authOpts s = Some (Inr a, s1)"
      and L: "fetchWithCurl P (listRequest (g_apiUrl g) (g_node g) (a_ticket a) (a_csrfToken a)
                (g_skipTlsVerify g)) s1 = Some (Inr listResponse, s2)"
      and O: "ok listResponse" and J: "json_data listResponse = Inr (JArr rvs)"
  shows "sync P g ctx s =
           sync_loop P g (a_ticket a) (a_csrfToken a) rvs
             [Tpl ''Syncing all VMs from node {}'' [JStr (g_node g)],
              Tpl ''Found {.length} VMs, resolving IPs for running VMs'' [JArr rvs]] [] s2"
  unfolding sync_def Let_def
  by (simp add: bind_Inr[where m="resolveAuth P g ctx authOpts", OF A]
        bind_Inr[where m="fetchWithCurl P (listRequest (g_apiUrl g) (g_node g) (a_ticket a)
                            (a_csrfToken a) (g_skipTlsVerify g))", OF L]
        O J bind_lift_Inr getprop_def iterate_def)

text \<open>
  C8. Let the session be resolved and the list endpoint answer with a 2xx status and a list.
  Then \<open>sync\<close> returns under a well-behaved clock. Take the entries of the list up to the
  first that is no record of a VM, \<^verbatim>\<open>null\<close> or \<^verbatim>\<open>undefined\<close>; for a list of VMs these are
  all its entries. Whenever \<open>sync\<close> returns, it has written exactly one resource version per
  such entry, in the order of the list, each under the VM's name with the id and the status
  as listed, and with a null address for every VM whose status is not \<^verbatim>\<open>running\<close>; and every
  exchange it has made after the list call is a guest-agent query for one of these VMs that
  is listed as running: discovery is attempted for those only. For a list of VMs it returns
  one handle per listed VM; at an entry that is no record it throws a TypeError.
\<close>

theorem sync_one_version_per_vm:
  assumes A: "resolveAuth P g ctx authOpts s = Some (Inr a, s1)"
      and L: "fetchWithCurl P (listRequest (g_apiUrl g) (g_node g) (a_ticket a) (a_csrfToken a)
                (g_skipTlsVerify g)) s1 = Some (Inr listResponse, s2)"
      and O: "ok listResponse" and J: "json_data listResponse = Inr (JArr rvs)"
  shows "(clock_ok P \<longrightarrow> (\<exists>y. sync P g ctx s = Some y))
       \<and> (\<forall>r s'. sync P g ctx s = Some (r, s') \<longrightarrow>
            list_all2 vm_version (takeWhile is_record rvs) (new_written s s')
          \<and> (\<forall>x\<in>set (new_trace s2 s').
                \<exists>rv\<in>set (takeWhile is_record rvs). optprop rv ''status'' = JStr ''running'' \<and>
                  fst x = agentRequest (g_apiUrl g) (g_node g) (optprop rv ''vmid'')
                            (a_ticket a) (a_csrfToken a) (g_skipTlsVerify g))
          \<and> (list_all is_record rvs \<longrightarrow>
                r = Inr [length (written s) ..< length (written s) + length rvs]
                \<and> length (new_written s s') = length rvs
                \<and> list_all2 vm_version rvs (new_written s s'))
          \<and> (\<not> list_all is_record rvs \<longrightarrow> r = Inl TypeError))"
proof (intro conjI impI allI ballI)
  assume "clock_ok P"
  from sync_loop_total[OF this] show "\<exists>y. sync P g ctx s = Some y"
    unfolding sync_from[OF A L O J] .
next
  fix r s'
  assume S: "sync P g ctx s = Some (r, s')"
  from resolveAuth_run[OF A] have W1: "written s1 = written s" by blast
  from fetch_run[OF L] have W2: "written s2 = written s1" by simp
  from sync_loop_run[OF S[unfolded sync_from[OF A L O J]]] obtain new xs where
    H: "r = (if list_all is_record rvs
             then Inr ([] @ [length (written s2) ..< length (written s2) + length rvs])
             else Inl TypeError)"
       "written s' = written s2 @ new" "list_all2 vm_version (takeWhile is_record rvs) new"
       "trace s' = trace s2 @ xs"
       "\<forall>x\<in>set xs. \<exists>rv\<in>set (takeWhile is_record rvs).
              optprop rv ''status'' = JStr ''running'' \<and>
              fst x = agentRequest (g_apiUrl g) (g_node g) (optprop rv ''vmid'')
                        (a_ticket a) (a_csrfToken a) (g_skipTlsVerify g)"
    by blast
  from H(2) W1 W2 have N: "new_written s s' = new" by (simp add: new_written_def)
  from H(4) have T: "new_trace s2 s' = xs" by (simp add: new_trace_def)
  from H(3) show "list_all2 vm_version (takeWhile is_record rvs) (new_written s s')"
    unfolding N .
  {
    fix x assume "x \<in> set (new_trace s2 s')"
    with H(5) show "\<exists>rv\<in>set (takeWhile is_record rvs). optprop rv ''status'' = JStr ''running'' \<and>
                  fst x = agentRequest (g_apiUrl g) (g_node g) (optprop rv ''vmid'')
                            (a_ticket a) (a_csrfToken a) (g_skipTlsVerify g)"
      unfolding T by blast
  }
  {
    assume R: "list_all is_record rvs"
    then have TW: "takeWhile is_record rvs = rvs"
      unfolding takeWhile_eq_all_conv by (simp add: list_all_iff)
    from H(1) R W1 W2 show "r = Inr [length (written s) ..< length (written s) + length rvs]"
      by simp
    from H(3) show "list_all2 vm_version rvs (new_written s s')" unfolding N TW .
    from H(3) show "length (new_written s s') = length rvs"
      unfolding N TW by (simp add: list_all2_lengthD)
  }
  {
    assume "\<not> list_all is_record rvs"
    with H(1) show "r = Inl TypeError" by simp
  }
qed

lemma sync_sim:
  "\<exists>a s1 listResponse s2.
      resolveAuth simP g0 ctx0 authOpts (sim0 syncScript) = Some (Inr a, s1) \<and>
      fetchWithCurl simP (listRequest (g_apiUrl g0) (g_node g0) (a_ticket a) (a_csrfToken a)
         (g_skipTlsVerify g0)) s1 = Some (Inr listResponse, s2) \<and>
      ok listResponse \<and> json_data listResponse = Inr (JArr twoVms)"
  by (simp add: resolveAuth_def syncScript_def sim_simps run_simps)

lemma sync_result_sim:
  "map_option (\<lambda>x. (fst x, map (\<lambda>r. (r_name r, map_of (r_attrs r) ''status'',
                                        map_of (r_attrs r) ''ip'')) (written (snd x))))
     (sync simP g0 ctx0 (sim0 syncScript)) =
   Some (Inr [0, 1],
         [(JStr ''alpha'', Some (JStr ''stopped''), Some JNull),
          (JStr ''beta'', Some (JStr ''running''), Some (JStr ''10.0.0.50''))])"
  by (simp add: op_defs syncScript_def twoVms_def agentReply_def jsip_def sim_simps run_simps
        agentRequest_def)

text \<open>With a \<^verbatim>\<open>null\<close> entry after \<open>alpha\<close> the run writes the version of \<open>alpha\<close> and
  throws.\<close>

lemma sync_null_sim:
  "map_option (\<lambda>x. (fst x, map (\<lambda>r. (r_name r, map_of (r_attrs r) ''status'',
                                        map_of (r_attrs r) ''ip'')) (written (snd x))))
     (sync simP g0 ctx0 (sim0 syncScriptNull)) =
   Some (Inl TypeError, [(JStr ''alpha'', Some (JStr ''stopped''), Some JNull)])"
  by (simp add: op_defs syncScriptNull_def twoVms_def agentReply_def jsip_def sim_simps run_simps
        agentRequest_def)

text \<open>A run on the scripted platform: \<open>alpha\<close> stopped, \<open>beta\<close> running.\<close>

theorem sync_one_version_per_vm_witness:
  "clock_ok simP \<and> list_all is_record twoVms
   \<and> (\<exists>s'. sync simP g0 ctx0 (sim0 syncScript) = Some (Inr [0, 1], s')
          \<and> length (new_written (sim0 syncScript) s') = length twoVms
          \<and> list_all2 vm_version twoVms (new_written (sim0 syncScript) s'))"
proof -
  from sync_sim obtain a s1 listResponse s2 where
    H: "resolveAuth simP g0 ctx0 authOpts (sim0 syncScript) = Some (Inr a, s1)"
       "fetchWithCurl simP (listRequest (g_apiUrl g0) (g_node g0) (a_ticket a) (a_csrfToken a)
         (g_skipTlsVerify g0)) s1 = Some (Inr listResponse, s2)"
       "ok listResponse" "json_data listResponse = Inr (JArr twoVms)"
    by (elim exE conjE) (rule that)
  have V: "list_all is_record twoVms"
    by (simp add: twoVms_def is_record_def)
  note T = sync_one_version_per_vm[OF H]
  from T[THEN conjunct1, rule_format, OF clock_ok_sim] obtain r s' where
    S: "sync simP g0 ctx0 (sim0 syncScript) = Some (r, s')" by (cases) auto
  note X = T[THEN conjunct2, rule_format, OF S, THEN conjunct2, THEN conjunct2,
             THEN conjunct1, rule_format, OF V]
  have "r = Inr [0, 1]"
    using X[THEN conjunct1] by (simp add: sim0_def twoVms_def upt_rec)
  with S X V show ?thesis
    using clock_ok_sim by (intro conjI exI[of _ s']) simp_all
qed

end
